(* ===== verification/Prelude.thy ===== *)
theory Prelude
  imports Main
begin

text \<open>
  Shared vocabulary of the development: the exceptions of
  \<^verbatim>\<open>src/src/common/Exceptions.hpp\<close>, programs as state transformers that may return, stop
  abruptly (an exception, \<^verbatim>\<open>exit\<close>, \<^verbatim>\<open>abort\<close>, undefined behaviour, a replaced process
  image) or never return, a weakest-precondition calculus that evaluates such programs
  symbolically (collection \<open>wp\<close>), and the locale \<open>contract\<close>, the interface every operation
  that respects a preorder on states offers to the code that composes operations.
\<close>

section \<open>Exceptions and abrupt completion\<close>

text \<open>
  One constructor per exception class the sources throw. A \<open>CAPIException\<close> holds its text
  and the \<^verbatim>\<open>errno\<close> that \<^verbatim>\<open>strerror\<close> renders into \<^verbatim>\<open>what()\<close>. \<open>std_exception\<close> is what is left
  of an exception after \<^verbatim>\<open>catch (exception &e) { throw e; }\<close>: the copy is of the static type,
  so class and message are lost.
\<close>

datatype exn =
    CAPIException string int
  | runtime_error string
  | logic_error string
  | invalid_argument string
  | length_error
  | filesystem_error
  | std_exception

text \<open>How control leaves a function other than by returning.\<close>

datatype abrupt =
    Raise exn
  | Exit int
  | Abort
  | Replaced
  | Undefined

type_synonym 'a outcome = "abrupt + 'a"

text \<open>\<open>None\<close> is a program that never returns.\<close>

type_synonym ('s, 'a) prog = "'s \<Rightarrow> ('a outcome \<times> 's) option"

section \<open>Programs\<close>

definition ret :: "'a \<Rightarrow> ('s, 'a) prog" where
  "ret x s = Some (Inr x, s)"

definition halt :: "abrupt \<Rightarrow> ('s, 'a) prog" where
  "halt a s = Some (Inl a, s)"

definition throw :: "exn \<Rightarrow> ('s, 'a) prog" where
  "throw e = halt (Raise e)"

definition get :: "('s \<Rightarrow> 'a) \<Rightarrow> ('s, 'a) prog" where
  "get f s = Some (Inr (f s), s)"

definition modify :: "('s \<Rightarrow> 's) \<Rightarrow> ('s, unit) prog" where
  "modify f s = Some (Inr (), f s)"

definition bnd :: "('s, 'a) prog \<Rightarrow> ('a \<Rightarrow> ('s, 'b) prog) \<Rightarrow> ('s, 'b) prog" where
  "bnd m f s = (case m s of
      None \<Rightarrow> None
    | Some (r, t) \<Rightarrow> (case r of Inl a \<Rightarrow> Some (Inl a, t) | Inr x \<Rightarrow> f x t))"

definition seq :: "('s, 'a) prog \<Rightarrow> ('s, 'b) prog \<Rightarrow> ('s, 'b) prog" where
  "seq m n = bnd m (\<lambda>_. n)"

definition whenp :: "bool \<Rightarrow> ('s, unit) prog \<Rightarrow> ('s, unit) prog" where
  "whenp b m = (if b then m else ret ())"

text \<open>\<^verbatim>\<open>try { m } catch (exception &e) { h }\<close>: only C++ exceptions are caught.\<close>

definition try_catch :: "('s, 'a) prog \<Rightarrow> (exn \<Rightarrow> ('s, 'a) prog) \<Rightarrow> ('s, 'a) prog" where
  "try_catch m h s = (case m s of
      None \<Rightarrow> None
    | Some (r, t) \<Rightarrow> (case r of
        Inl a \<Rightarrow> (case a of Raise e \<Rightarrow> h e t | _ \<Rightarrow> Some (Inl a, t))
      | Inr x \<Rightarrow> Some (Inr x, t)))"

primrec for_each :: "'a list \<Rightarrow> ('a \<Rightarrow> ('s, unit) prog) \<Rightarrow> ('s, unit) prog" where
  "for_each [] body = ret ()"
| "for_each (x # xs) body = seq (body x) (for_each xs body)"

lemma bnd_assoc: "bnd (bnd m f) h = bnd m (\<lambda>x. bnd (f x) h)"
  by (auto simp: bnd_def fun_eq_iff split: option.splits sum.splits)

lemma bnd_ret: "bnd (ret x) f = f x"
  by (simp add: bnd_def ret_def fun_eq_iff)

text \<open>A program over a part of the state, run on that part.\<close>

definition zoom :: "('s \<Rightarrow> 't) \<Rightarrow> ('t \<Rightarrow> 's \<Rightarrow> 's) \<Rightarrow> ('t, 'a) prog \<Rightarrow> ('s, 'a) prog" where
  "zoom view put m s = (case m (view s) of
      None \<Rightarrow> None
    | Some (r, t) \<Rightarrow> Some (r, put t s))"

text \<open>The four helpers of \<^verbatim>\<open>Exceptions.hpp\<close> that do not read \<^verbatim>\<open>errno\<close>.\<close>

definition ThrowRuntimeIf :: "bool \<Rightarrow> string \<Rightarrow> ('s, unit) prog" where
  "ThrowRuntimeIf expression msg = (if expression then throw (runtime_error msg) else ret ())"

definition ThrowLogicIf :: "bool \<Rightarrow> string \<Rightarrow> ('s, unit) prog" where
  "ThrowLogicIf expression msg = (if expression then throw (logic_error msg) else ret ())"

definition ThrowInvalidArgumentIf :: "bool \<Rightarrow> string \<Rightarrow> ('s, unit) prog" where
  "ThrowInvalidArgumentIf expression msg =
     (if expression then throw (invalid_argument msg) else ret ())"

section \<open>Weakest preconditions\<close>

text \<open>
  \<open>wp m Q E s\<close>: if \<open>m\<close> ends when started in \<open>s\<close>, then it returns a value and a state that
  satisfy \<open>Q\<close>, or completes abruptly with a cause and a state that satisfy \<open>E\<close>. The rules are
  equations, so \<open>simp add: wp\<close> runs a program symbolically. That a program ends is stated
  apart, with \<open>returns\<close>.
\<close>

definition wp ::
  "('s, 'a) prog \<Rightarrow> ('a \<Rightarrow> 's \<Rightarrow> bool) \<Rightarrow> (abrupt \<Rightarrow> 's \<Rightarrow> bool) \<Rightarrow> 's \<Rightarrow> bool" where
  "wp m Q E s = (case m s of
      None \<Rightarrow> True
    | Some (r, t) \<Rightarrow> (case r of Inl a \<Rightarrow> E a t | Inr x \<Rightarrow> Q x t))"

definition returns :: "('s, 'a) prog \<Rightarrow> 's \<Rightarrow> bool" where
  "returns m s = (\<exists>r t. m s = Some (r, t))"

named_theorems wp
named_theorems returns

lemma wpI:
  "(\<And>x t. m s = Some (Inr x, t) \<Longrightarrow> Q x t) \<Longrightarrow> (\<And>a t. m s = Some (Inl a, t) \<Longrightarrow> E a t) \<Longrightarrow>
   wp m Q E s"
  by (auto simp: wp_def split: option.splits sum.splits)

lemma wpD: "wp m Q E s \<Longrightarrow> m s = Some (Inr x, t) \<Longrightarrow> Q x t"
  by (simp add: wp_def)

lemma wpD_abrupt: "wp m Q E s \<Longrightarrow> m s = Some (Inl a, t) \<Longrightarrow> E a t"
  by (simp add: wp_def)

lemma wp_mono:
  "wp m Q E s \<Longrightarrow> (\<And>x t. Q x t \<Longrightarrow> Q' x t) \<Longrightarrow> (\<And>a t. E a t \<Longrightarrow> E' a t) \<Longrightarrow> wp m Q' E' s"
  by (auto simp: wp_def split: option.splits sum.splits)

lemma wp_conj:
  "wp m (\<lambda>x t. Q x t \<and> Q' x t) (\<lambda>a t. E a t \<and> E' a t) s \<longleftrightarrow> wp m Q E s \<and> wp m Q' E' s"
  by (auto simp: wp_def split: option.splits sum.splits)

lemma wp_ret [wp]: "wp (ret x) Q E s = Q x s"
  by (simp add: wp_def ret_def)

lemma wp_halt [wp]: "wp (halt a) Q E s = E a s"
  by (simp add: wp_def halt_def)

lemma wp_throw [wp]: "wp (throw e) Q E s = E (Raise e) s"
  by (simp add: throw_def wp)

lemma wp_get [wp]: "wp (get f) Q E s = Q (f s) s"
  by (simp add: wp_def get_def)

lemma wp_modify [wp]: "wp (modify f) Q E s = Q () (f s)"
  by (simp add: wp_def modify_def)

lemma wp_bnd [wp]: "wp (bnd m f) Q E s = wp m (\<lambda>x t. wp (f x) Q E t) E s"
  by (simp add: wp_def bnd_def split: option.splits prod.splits sum.splits)

lemma wp_seq [wp]: "wp (seq m n) Q E s = wp m (\<lambda>_ t. wp n Q E t) E s"
  by (simp add: seq_def wp)

lemma wp_if [wp]: "wp (if b then m else n) Q E s = (if b then wp m Q E s else wp n Q E s)"
  by simp

lemma wp_whenp [wp]: "wp (whenp b m) Q E s = (if b then wp m Q E s else Q () s)"
  by (simp add: whenp_def wp)

lemma wp_try_catch [wp]:
  "wp (try_catch m h) Q E s =
     wp m Q (\<lambda>a t. case a of Raise e \<Rightarrow> wp (h e) Q E t | _ \<Rightarrow> E a t) s"
  by (simp add: wp_def try_catch_def split: option.splits prod.splits sum.splits abrupt.splits)

lemma wp_zoom [wp]:
  "wp (zoom view put m) Q E s = wp m (\<lambda>x t. Q x (put t s)) (\<lambda>a t. E a (put t s)) (view s)"
  by (simp add: wp_def zoom_def split: option.splits prod.splits sum.splits)

lemma wp_for_each_Nil [wp]: "wp (for_each [] body) Q E s = Q () s"
  by (simp add: wp)

lemma wp_for_each_Cons [wp]:
  "wp (for_each (x # xs) body) Q E s = wp (body x) (\<lambda>_ t. wp (for_each xs body) Q E t) E s"
  by (simp add: wp)

lemma wp_ThrowIf [wp]:
  "wp (ThrowRuntimeIf b msg) Q E s = (if b then E (Raise (runtime_error msg)) s else Q () s)"
  "wp (ThrowLogicIf b msg) Q E s = (if b then E (Raise (logic_error msg)) s else Q () s)"
  "wp (ThrowInvalidArgumentIf b msg) Q E s =
     (if b then E (Raise (invalid_argument msg)) s else Q () s)"
  by (simp_all add: ThrowRuntimeIf_def ThrowLogicIf_def ThrowInvalidArgumentIf_def wp)

section \<open>Programs that return\<close>

lemma returns_basic [returns]:
  "returns (ret x) s" "returns (halt a) s" "returns (throw e) s" "returns (get f) s"
  "returns (modify g) s" "returns (ThrowRuntimeIf b msg) s" "returns (ThrowLogicIf b msg) s"
  "returns (ThrowInvalidArgumentIf b msg) s"
  by (simp_all add: returns_def ret_def halt_def throw_def get_def modify_def ThrowRuntimeIf_def
      ThrowLogicIf_def ThrowInvalidArgumentIf_def)

lemma returns_bnd [returns]:
  "returns m s \<Longrightarrow> (\<And>x t. m s = Some (Inr x, t) \<Longrightarrow> returns (f x) t) \<Longrightarrow> returns (bnd m f) s"
  by (fastforce simp: returns_def bnd_def split: option.splits sum.splits)

lemma returns_seq [returns]:
  "returns m s \<Longrightarrow> (\<And>x t. m s = Some (Inr x, t) \<Longrightarrow> returns n t) \<Longrightarrow> returns (seq m n) s"
  by (simp add: seq_def returns_bnd)

lemma returns_whenp [returns]: "(b \<Longrightarrow> returns m s) \<Longrightarrow> returns (whenp b m) s"
  by (simp add: whenp_def returns)

lemma returns_if [returns]:
  "(b \<Longrightarrow> returns m s) \<Longrightarrow> (\<not> b \<Longrightarrow> returns n s) \<Longrightarrow> returns (if b then m else n) s"
  by simp

lemma returns_try_catch [returns]:
  "returns m s \<Longrightarrow> (\<And>e t. m s = Some (Inl (Raise e), t) \<Longrightarrow> returns (h e) t) \<Longrightarrow>
   returns (try_catch m h) s"
  by (fastforce simp: returns_def try_catch_def split: option.splits sum.splits abrupt.splits)

lemma returns_zoom [returns]: "returns m (view s) \<Longrightarrow> returns (zoom view put m) s"
  by (auto simp: returns_def zoom_def)

lemma returns_for_each [returns]:
  "(\<And>x t. x \<in> set xs \<Longrightarrow> returns (body x) t) \<Longrightarrow> returns (for_each xs body) s"
  by (induction xs arbitrary: s) (auto intro!: returns)

lemma returns_wp: "returns m s \<longleftrightarrow> \<not> wp m (\<lambda>_ _. False) (\<lambda>_ _. False) s"
  by (auto simp: wp_def returns_def split: option.splits sum.splits)

lemma wp_total:
  assumes "returns m s" and "wp m Q E s"
  shows "(\<exists>x t. m s = Some (Inr x, t) \<and> Q x t) \<or> (\<exists>a t. m s = Some (Inl a, t) \<and> E a t)"
proof -
  from assms(1) obtain r t where "m s = Some (r, t)"
    by (auto simp: returns_def)
  with assms(2) show ?thesis
    by (cases r) (auto simp: wp_def)
qed

lemma wp_total_normal:
  "returns m s \<Longrightarrow> wp m Q (\<lambda>_ _. False) s \<Longrightarrow> \<exists>x t. m s = Some (Inr x, t) \<and> Q x t"
  by (auto dest!: wp_total)

section \<open>Loops\<close>

text \<open>
  With these rules \<open>partial_function (option)\<close> accepts a loop whose body is written with the
  combinators above.
\<close>

lemma bnd_mono [partial_function_mono]:
  assumes "mono_option (\<lambda>F. m F s)" and "\<And>x t. mono_option (\<lambda>F. k x F t)"
  shows "mono_option (\<lambda>F. bnd (m F) (\<lambda>x. k x F) s)"
proof (rule monotoneI)
  fix F G :: "'a \<Rightarrow> 'b option"
  assume FG: "fun_ord option_ord F G"
  have m: "option_ord (m F s) (m G s)" and k: "option_ord (k x F t) (k x G t)" for x t
    using assms FG by (auto dest: monotoneD)
  show "option_ord (bnd (m F) (\<lambda>x. k x F) s) (bnd (m G) (\<lambda>x. k x G) s)"
  proof (cases "m F s")
    case None
    then show ?thesis by (simp add: bnd_def flat_ord_def)
  next
    case (Some p)
    with m have "m G s = Some p"
      by (simp add: flat_ord_def)
    with Some k show ?thesis
      by (cases p; cases "fst p") (simp_all add: bnd_def flat_ord_def)
  qed
qed

lemma seq_mono [partial_function_mono]:
  "mono_option (\<lambda>F. m F s) \<Longrightarrow> (\<And>t. mono_option (\<lambda>F. n F t)) \<Longrightarrow>
   mono_option (\<lambda>F. seq (m F) (n F) s)"
  unfolding seq_def by (rule bnd_mono)

lemma if_mono [partial_function_mono]:
  "mono_option (\<lambda>F. m F s) \<Longrightarrow> mono_option (\<lambda>F. n F s) \<Longrightarrow>
   mono_option (\<lambda>F. (if b then m F else n F) s)"
  by (cases b) simp_all

lemma case_option_mono [partial_function_mono]:
  "mono_option (\<lambda>F. m F s) \<Longrightarrow> (\<And>x. mono_option (\<lambda>F. n x F s)) \<Longrightarrow>
   mono_option (\<lambda>F. (case v of None \<Rightarrow> m F | Some x \<Rightarrow> n x F) s)"
  by (cases v) simp_all

section \<open>Contracts\<close>

text \<open>
  An operation obeys a relation \<open>R\<close> when every way it can end, abrupt ways included,
  leads from a state to an \<open>R\<close>-related one. For a preorder this is closed under everything
  programs are composed with; the locale proves that once for all of them.
\<close>

definition obeys :: "('s \<Rightarrow> 's \<Rightarrow> bool) \<Rightarrow> ('s, 'a) prog \<Rightarrow> bool" where
  "obeys R m = (\<forall>s r t. m s = Some (r, t) \<longrightarrow> R s t)"

definition keeps :: "('s \<Rightarrow> bool) \<Rightarrow> 's \<Rightarrow> 's \<Rightarrow> bool" where
  "keeps I s t = (I s \<longrightarrow> I t)"

lemma obeysI: "(\<And>s. wp m (\<lambda>_. R s) (\<lambda>_. R s) s) \<Longrightarrow> obeys R m"
  by (fastforce simp: obeys_def wp_def split: option.splits sum.splits)

lemma obeysD: "obeys R m \<Longrightarrow> m s = Some (r, t) \<Longrightarrow> R s t"
  by (simp add: obeys_def)

lemma obeys_keepsD: "obeys (keeps I) m \<Longrightarrow> m s = Some (r, t) \<Longrightarrow> I s \<Longrightarrow> I t"
  by (auto simp: obeys_def keeps_def)

lemma obeys_wp: "obeys R m \<Longrightarrow> wp m (\<lambda>_. R s) (\<lambda>_. R s) s"
  by (auto intro!: wpI dest: obeysD)

lemma obeys_keeps_wp: "obeys (keeps I) m \<Longrightarrow> I s \<Longrightarrow> wp m (\<lambda>_. I) (\<lambda>_. I) s"
  by (auto intro!: wpI dest: obeys_keepsD)

lemma obeys_keepsI: "(\<And>s. I s \<Longrightarrow> wp m (\<lambda>_. I) (\<lambda>_. I) s) \<Longrightarrow> obeys (keeps I) m"
  by (fastforce simp: obeys_def keeps_def wp_def split: option.splits sum.splits)

locale contract =
  fixes R :: "'s \<Rightarrow> 's \<Rightarrow> bool"
  assumes R_refl: "R s s"
    and R_trans: "R s t \<Longrightarrow> R t u \<Longrightarrow> R s u"
begin

lemma r_ret: "obeys R (ret x)"
  by (simp add: obeys_def ret_def R_refl)

lemma r_halt: "obeys R (halt a)"
  by (simp add: obeys_def halt_def R_refl)

lemma r_throw: "obeys R (throw e)"
  by (simp add: throw_def r_halt)

lemma r_get: "obeys R (get f)"
  by (simp add: obeys_def get_def R_refl)

lemma r_modify: "(\<And>s. R s (f s)) \<Longrightarrow> obeys R (modify f)"
  by (simp add: obeys_def modify_def)

lemma r_bnd: "obeys R m \<Longrightarrow> (\<And>x. obeys R (f x)) \<Longrightarrow> obeys R (bnd m f)"
  unfolding obeys_def bnd_def
  by (fastforce split: option.splits sum.splits intro: R_trans)

lemma r_seq: "obeys R m \<Longrightarrow> obeys R n \<Longrightarrow> obeys R (seq m n)"
  by (simp add: seq_def r_bnd)

lemma r_if: "obeys R m \<Longrightarrow> obeys R n \<Longrightarrow> obeys R (if b then m else n)"
  by simp

lemma r_whenp: "obeys R m \<Longrightarrow> obeys R (whenp b m)"
  by (simp add: whenp_def r_ret)

lemma r_throw_if:
  "obeys R (ThrowRuntimeIf b msg)" "obeys R (ThrowLogicIf b msg)"
  "obeys R (ThrowInvalidArgumentIf b msg)"
  by (simp_all add: ThrowRuntimeIf_def ThrowLogicIf_def ThrowInvalidArgumentIf_def r_throw r_ret)

lemma r_try_catch:
  "obeys R m \<Longrightarrow> (\<And>e. obeys R (h e)) \<Longrightarrow> obeys R (try_catch m h)"
  unfolding obeys_def try_catch_def
  by (fastforce split: option.splits sum.splits abrupt.splits intro: R_trans)

lemma r_for_each: "(\<And>x. obeys R (body x)) \<Longrightarrow> obeys R (for_each xs body)"
  by (induction xs) (simp_all add: r_ret r_seq)

lemmas r_intros = r_ret r_halt r_throw r_get r_bnd r_seq r_if r_whenp r_throw_if r_try_catch
  r_for_each

end

lemma contract_keeps: "contract (keeps I)"
  by unfold_locales (auto simp: keeps_def)

end
