(* ===== verification/Guard.thy ===== *)
theory Guard
  imports Prelude "HOL-Library.Multiset"
begin

text \<open>
  The scope guards of \<^verbatim>\<open>src/src/common/LokiScopeGuard.hpp\<close>: a guard holds a dismissed flag and
  the call it makes when it is destroyed; copying hands the responsibility over to the copy;
  \<^verbatim>\<open>LOKI_ON_BLOCK_EXIT\<close> binds one to the rest of a block. The forms for other numbers of
  parameters and for member functions are in theory \<open>GuardForms\<close>.
\<close>

section \<open>Guards\<close>

record 's guard =
  dismissed :: bool
  Execute :: "('s, unit) prog"

text \<open>A new guard is armed; the parameter is held by value.\<close>

definition MakeGuard0 :: "('s, unit) prog \<Rightarrow> 's guard" where
  "MakeGuard0 f = \<lparr>dismissed = False, Execute = f\<rparr>"

definition MakeGuard1 :: "('p \<Rightarrow> ('s, unit) prog) \<Rightarrow> 'p \<Rightarrow> 's guard" where
  "MakeGuard1 f p1 = \<lparr>dismissed = False, Execute = f p1\<rparr>"

definition Dismiss :: "'s guard \<Rightarrow> 's guard" where
  "Dismiss g = g\<lparr>dismissed := True\<rparr>"

text \<open>The copy constructor: the copy, and what becomes of the original.\<close>

definition guard_copy :: "'s guard \<Rightarrow> 's guard \<times> 's guard" where
  "guard_copy other = (\<lparr>dismissed = dismissed other, Execute = Execute other\<rparr>, Dismiss other)"

text \<open>The destructor runs \<^verbatim>\<open>SafeExecute\<close>, which swallows every exception.\<close>

definition SafeExecute :: "'s guard \<Rightarrow> ('s, unit) prog" where
  "SafeExecute j = whenp (\<not> dismissed j) (try_catch (Execute j) (\<lambda>_. ret ()))"

text \<open>
  \<^verbatim>\<open>LOKI_ON_BLOCK_EXIT\<close>: the guard is destroyed when the block is left, normally or by an
  exception. \<^verbatim>\<open>exit\<close> and its kin leave without unwinding.
\<close>

definition on_block_exit :: "'s guard \<Rightarrow> ('s, 'a) prog \<Rightarrow> ('s, 'a) prog" where
  "on_block_exit g body =
     bnd (try_catch body (\<lambda>e. seq (SafeExecute g) (throw e)))
       (\<lambda>x. seq (SafeExecute g) (ret x))"

section \<open>Laws\<close>

lemma wp_SafeExecute [wp]:
  "wp (SafeExecute g) Q E s =
     (if dismissed g then Q () s
      else wp (Execute g) Q (\<lambda>a t. case a of Raise _ \<Rightarrow> Q () t | _ \<Rightarrow> E a t) s)"
  by (auto simp: SafeExecute_def wp cong: abrupt.case_cong)

lemma wp_on_block_exit [wp]:
  "wp (on_block_exit g body) Q E s =
     wp body (\<lambda>x t. wp (SafeExecute g) (\<lambda>_. Q x) E t)
       (\<lambda>a t. case a of Raise e \<Rightarrow> wp (SafeExecute g) (\<lambda>_. E (Raise e)) E t | _ \<Rightarrow> E a t) s"
  by (simp add: on_block_exit_def wp cong: abrupt.case_cong)

lemma guard_simps [simp]:
  "dismissed (MakeGuard0 f) = False" "Execute (MakeGuard0 f) = f"
  "dismissed (MakeGuard1 h p) = False" "Execute (MakeGuard1 h p) = h p"
  "dismissed (Dismiss g) = True" "Execute (Dismiss g) = Execute g"
  by (simp_all add: MakeGuard0_def MakeGuard1_def Dismiss_def)

lemma guard_copy_simps [simp]: "fst (guard_copy g) = g" "snd (guard_copy g) = Dismiss g"
  by (simp_all add: guard_copy_def)

lemma SafeExecute_dismissed: "dismissed g \<Longrightarrow> SafeExecute g = ret ()"
  by (simp add: SafeExecute_def whenp_def)

lemma returns_SafeExecute [returns]: "(\<And>t. returns (Execute g) t) \<Longrightarrow> returns (SafeExecute g) s"
  by (auto simp: SafeExecute_def intro!: returns)

lemma returns_on_block_exit [returns]:
  "returns body s \<Longrightarrow> (\<And>t. returns (Execute g) t) \<Longrightarrow> returns (on_block_exit g body) s"
  by (simp add: on_block_exit_def returns)

context contract
begin

lemma r_SafeExecute: "obeys R (Execute g) \<Longrightarrow> obeys R (SafeExecute g)"
  by (simp add: SafeExecute_def r_whenp r_try_catch r_ret)

lemma r_on_block_exit:
  "obeys R (Execute g) \<Longrightarrow> obeys R body \<Longrightarrow> obeys R (on_block_exit g body)"
  by (simp add: on_block_exit_def r_bnd r_try_catch r_seq r_SafeExecute r_throw r_ret)

end

text \<open>
  The guards a value passes through when it is copied \<open>n\<close> times, the original first: returning
  the guard from \<^verbatim>\<open>MakeGuard\<close> and binding it makes such a chain, of a length that depends on
  copy elision.
\<close>

primrec guard_chain :: "nat \<Rightarrow> 's guard \<Rightarrow> 's guard list" where
  "guard_chain 0 g = [g]"
| "guard_chain (Suc n) g = snd (guard_copy g) # guard_chain n (fst (guard_copy g))"

lemma ret_seq: "seq (ret x) m = m"
  by (simp add: seq_def bnd_def ret_def fun_eq_iff)

lemma seq_assoc: "seq (seq m n) k = seq m (seq n k)"
  by (auto simp: seq_def bnd_def fun_eq_iff split: option.splits sum.splits)

lemma seq_ret_unit: "seq m (ret ()) = m"
  by (auto simp: seq_def bnd_def ret_def fun_eq_iff split: option.splits sum.splits)

lemma guard_chain_armed:
  "\<exists>hs. mset (guard_chain n g) = add_mset g (mset hs) \<and> (\<forall>h\<in>set hs. dismissed h)"
proof (induction n arbitrary: g)
  case 0
  then show ?case
    by (intro exI [of _ "[]"]) simp
next
  case (Suc n)
  obtain hs where "mset (guard_chain n g) = add_mset g (mset hs)" "\<forall>h\<in>set hs. dismissed h"
    using Suc by blast
  then show ?case
    by (intro exI [of _ "Dismiss g # hs"]) simp
qed

lemma for_each_dismissed: "\<forall>h\<in>set hs. dismissed h \<Longrightarrow> for_each hs SafeExecute = ret ()"
  by (induction hs) (simp_all add: SafeExecute_dismissed ret_seq)

lemma for_each_append: "for_each (xs @ ys) f = seq (for_each xs f) (for_each ys f)"
  by (induction xs) (simp_all add: ret_seq seq_assoc)

text \<open>
  C31: a scope guard that is handed over by copying executes exactly once. However often it was
  copied, and in whatever order the copies are destroyed, the destructors together do what the
  original guard alone would have done.
\<close>

theorem guard_executes_once:
  assumes "mset gs = mset (guard_chain n g)"
  shows "for_each gs SafeExecute = SafeExecute g"
proof -
  obtain hs where hs: "mset gs = add_mset g (mset hs)" "\<forall>h\<in>set hs. dismissed h"
    using guard_chain_armed [of n g] assms by auto
  then have "g \<in> set gs"
    by (metis set_mset_mset union_single_eq_member)
  then obtain xs ys where gs: "gs = xs @ g # ys"
    by (meson split_list)
  with hs have "mset hs = mset (xs @ ys)"
    by simp
  then have "set hs = set (xs @ ys)"
    by (rule mset_eq_setD)
  with hs have "\<forall>h\<in>set xs. dismissed h" "\<forall>h\<in>set ys. dismissed h"
    by auto
  then show ?thesis
    by (simp add: gs for_each_append for_each_dismissed ret_seq seq_ret_unit)
qed

theorem guard_executes_once_witness:
  "for_each [MakeGuard0 (modify Suc), Dismiss (MakeGuard0 (modify Suc))] SafeExecute 7 = Some (Inr (), 8)"
proof -
  have "for_each [MakeGuard0 (modify Suc), Dismiss (MakeGuard0 (modify Suc))] SafeExecute
      = SafeExecute (MakeGuard0 (modify Suc))"
    by (rule guard_executes_once [where n = 1]) simp
  then show ?thesis
    by (simp add: SafeExecute_def whenp_def try_catch_def modify_def)
qed

end
