(* ===== verification/GuardForms.thy ===== *)
theory GuardForms
  imports Guard
begin

text \<open>
  The other forms of scope guards in \<^verbatim>\<open>src/src/common/LokiScopeGuard.hpp\<close>, for functions of two to five
  parameters and for member functions, and the reference wrapper of
  \<^verbatim>\<open>src/src/common/LokiRefToValue.hpp\<close> with which a parameter is passed by reference. The program
  uses the form with one parameter; what the forms share is when a parameter is read.
\<close>

section \<open>References\<close>

text \<open>
  A C++ reference: how the object it denotes is read from the state and written to it.
  \<open>RefToValue\<close> transports one by value; copying it and converting it back yield the same reference.
\<close>

record ('s, 'o) RefToValue =
  ref_read :: "'s \<Rightarrow> 'o"
  ref_write :: "'o \<Rightarrow> 's \<Rightarrow> 's"

definition RefToValue_copy :: "('s, 'o) RefToValue \<Rightarrow> ('s, 'o) RefToValue" where
  "RefToValue_copy rhs = \<lparr>ref_read = ref_read rhs, ref_write = ref_write rhs\<rparr>"

definition ByRef :: "('s \<Rightarrow> 'o) \<Rightarrow> ('o \<Rightarrow> 's \<Rightarrow> 's) \<Rightarrow> ('s, 'o) RefToValue" where
  "ByRef rd wr = RefToValue_copy \<lparr>ref_read = rd, ref_write = wr\<rparr>"

text \<open>\<^verbatim>\<open>operator T&\<close>, where the function reads its parameter.\<close>

definition deref :: "('s, 'o) RefToValue \<Rightarrow> ('s, 'o) prog" where
  "deref r = get (ref_read r)"

lemma RefToValue_copy_id [simp]: "RefToValue_copy r = r"
  by (simp add: RefToValue_copy_def)

section \<open>Guards of functions\<close>

definition MakeGuard2 :: "('p \<Rightarrow> 'q \<Rightarrow> ('s, unit) prog) \<Rightarrow> 'p \<Rightarrow> 'q \<Rightarrow> 's guard" where
  "MakeGuard2 f p1 p2 = \<lparr>dismissed = False, Execute = f p1 p2\<rparr>"

definition MakeGuard3 :: "('p \<Rightarrow> 'q \<Rightarrow> 'r \<Rightarrow> ('s, unit) prog) \<Rightarrow> 'p \<Rightarrow> 'q \<Rightarrow> 'r \<Rightarrow> 's guard" where
  "MakeGuard3 f p1 p2 p3 = \<lparr>dismissed = False, Execute = f p1 p2 p3\<rparr>"

definition MakeGuard4 ::
  "('p \<Rightarrow> 'q \<Rightarrow> 'r \<Rightarrow> 't \<Rightarrow> ('s, unit) prog) \<Rightarrow> 'p \<Rightarrow> 'q \<Rightarrow> 'r \<Rightarrow> 't \<Rightarrow> 's guard"
where
  "MakeGuard4 f p1 p2 p3 p4 = \<lparr>dismissed = False, Execute = f p1 p2 p3 p4\<rparr>"

definition MakeGuard5 ::
  "('p \<Rightarrow> 'q \<Rightarrow> 'r \<Rightarrow> 't \<Rightarrow> 'u \<Rightarrow> ('s, unit) prog) \<Rightarrow> 'p \<Rightarrow> 'q \<Rightarrow> 'r \<Rightarrow> 't \<Rightarrow> 'u \<Rightarrow> 's guard"
where
  "MakeGuard5 f p1 p2 p3 p4 p5 = \<lparr>dismissed = False, Execute = f p1 p2 p3 p4 p5\<rparr>"

section \<open>Guards of member functions\<close>

text \<open>
  The guard holds the object by reference; a member function is a program on the object, which
  runs on the object as it is then.
\<close>

definition member :: "('s, 'o) RefToValue \<Rightarrow> ('o, 'a) prog \<Rightarrow> ('s, 'a) prog" where
  "member obj f = zoom (ref_read obj) (ref_write obj) f"

definition MakeObjGuard0 :: "('s, 'o) RefToValue \<Rightarrow> ('o, unit) prog \<Rightarrow> 's guard" where
  "MakeObjGuard0 obj memFun = \<lparr>dismissed = False, Execute = member obj memFun\<rparr>"

definition MakeObjGuard1 ::
  "('s, 'o) RefToValue \<Rightarrow> ('p \<Rightarrow> ('o, unit) prog) \<Rightarrow> 'p \<Rightarrow> 's guard"
where
  "MakeObjGuard1 obj memFun p1 = \<lparr>dismissed = False, Execute = member obj (memFun p1)\<rparr>"

definition MakeObjGuard2 ::
  "('s, 'o) RefToValue \<Rightarrow> ('p \<Rightarrow> 'q \<Rightarrow> ('o, unit) prog) \<Rightarrow> 'p \<Rightarrow> 'q \<Rightarrow> 's guard"
where
  "MakeObjGuard2 obj memFun p1 p2 = \<lparr>dismissed = False, Execute = member obj (memFun p1 p2)\<rparr>"

definition MakeObjGuard3 ::
  "('s, 'o) RefToValue \<Rightarrow> ('p \<Rightarrow> 'q \<Rightarrow> 'r \<Rightarrow> ('o, unit) prog) \<Rightarrow> 'p \<Rightarrow> 'q \<Rightarrow> 'r \<Rightarrow> 's guard"
where
  "MakeObjGuard3 obj memFun p1 p2 p3 = \<lparr>dismissed = False, Execute = member obj (memFun p1 p2 p3)\<rparr>"

text \<open>
  The overloads of \<^verbatim>\<open>MakeGuard\<close> for member functions, which take the object last but for the parameters: by
  reference, or by pointer. \<open>None\<close> is the null pointer, which the second form follows.
\<close>

definition MakeGuard_ref0 :: "('o, unit) prog \<Rightarrow> ('s, 'o) RefToValue \<Rightarrow> 's guard" where
  "MakeGuard_ref0 memFun obj = MakeObjGuard0 obj memFun"

definition MakeGuard_ref1 ::
  "('p \<Rightarrow> ('o, unit) prog) \<Rightarrow> ('s, 'o) RefToValue \<Rightarrow> 'p \<Rightarrow> 's guard"
where
  "MakeGuard_ref1 memFun obj p1 = MakeObjGuard1 obj memFun p1"

definition MakeGuard_ref2 ::
  "('p \<Rightarrow> 'q \<Rightarrow> ('o, unit) prog) \<Rightarrow> ('s, 'o) RefToValue \<Rightarrow> 'p \<Rightarrow> 'q \<Rightarrow> 's guard"
where
  "MakeGuard_ref2 memFun obj p1 p2 = MakeObjGuard2 obj memFun p1 p2"

definition MakeGuard_ref3 ::
  "('p \<Rightarrow> 'q \<Rightarrow> 'r \<Rightarrow> ('o, unit) prog) \<Rightarrow> ('s, 'o) RefToValue \<Rightarrow> 'p \<Rightarrow> 'q \<Rightarrow> 'r \<Rightarrow> 's guard"
where
  "MakeGuard_ref3 memFun obj p1 p2 p3 = MakeObjGuard3 obj memFun p1 p2 p3"

definition pointed :: "('s, 'o) RefToValue option \<Rightarrow> ('s, ('s, 'o) RefToValue) prog" where
  "pointed obj = (case obj of None \<Rightarrow> halt Undefined | Some r \<Rightarrow> ret r)"

definition MakeGuard_ptr0 :: "('o, unit) prog \<Rightarrow> ('s, 'o) RefToValue option \<Rightarrow> ('s, 's guard) prog" where
  "MakeGuard_ptr0 memFun obj = bnd (pointed obj) (\<lambda>r. ret (MakeObjGuard0 r memFun))"

definition MakeGuard_ptr1 ::
  "('p \<Rightarrow> ('o, unit) prog) \<Rightarrow> ('s, 'o) RefToValue option \<Rightarrow> 'p \<Rightarrow> ('s, 's guard) prog"
where
  "MakeGuard_ptr1 memFun obj p1 = bnd (pointed obj) (\<lambda>r. ret (MakeObjGuard1 r memFun p1))"

definition MakeGuard_ptr2 ::
  "('p \<Rightarrow> 'q \<Rightarrow> ('o, unit) prog) \<Rightarrow> ('s, 'o) RefToValue option \<Rightarrow> 'p \<Rightarrow> 'q \<Rightarrow> ('s, 's guard) prog"
where
  "MakeGuard_ptr2 memFun obj p1 p2 = bnd (pointed obj) (\<lambda>r. ret (MakeObjGuard2 r memFun p1 p2))"

definition MakeGuard_ptr3 ::
  "('p \<Rightarrow> 'q \<Rightarrow> 'r \<Rightarrow> ('o, unit) prog) \<Rightarrow> ('s, 'o) RefToValue option \<Rightarrow> 'p \<Rightarrow> 'q \<Rightarrow> 'r \<Rightarrow> ('s, 's guard) prog"
where
  "MakeGuard_ptr3 memFun obj p1 p2 p3 = bnd (pointed obj) (\<lambda>r. ret (MakeObjGuard3 r memFun p1 p2 p3))"

text \<open>\<^verbatim>\<open>LOKI_ON_BLOCK_EXIT_OBJ\<close>: the block macro for member functions; it names \<^verbatim>\<open>MakeObjGuard\<close>.\<close>

definition on_block_exit_obj ::
  "('s, 'o) RefToValue \<Rightarrow> ('p \<Rightarrow> ('o, unit) prog) \<Rightarrow> 'p \<Rightarrow> ('s, 'a) prog \<Rightarrow> ('s, 'a) prog"
where
  "on_block_exit_obj obj memFun p1 body = on_block_exit (MakeObjGuard1 obj memFun p1) body"

section \<open>When a parameter is read\<close>

text \<open>
  How a block ends whose guard calls \<open>m\<close>, when its body ended with \<open>o\<close> in the state \<open>t\<close>: the call
  runs in \<open>t\<close>, its exception is dropped, and the outcome of the body stands.
\<close>

definition left_by :: "'a outcome \<Rightarrow> ('s, unit) prog \<Rightarrow> 's \<Rightarrow> ('a outcome \<times> 's) option" where
  "left_by b m t = (case m t of
      Some (Inl (Raise _), u) \<Rightarrow> Some (b, u)
    | Some (Inl a, u) \<Rightarrow> Some (Inl a, u)
    | Some (Inr _, u) \<Rightarrow> Some (b, u)
    | None \<Rightarrow> None)"

definition unwinds :: "'a outcome \<Rightarrow> bool" where
  "unwinds b \<longleftrightarrow> (case b of Inr _ \<Rightarrow> True | Inl (Raise _) \<Rightarrow> True | _ \<Rightarrow> False)"

lemma on_block_exit_left:
  "body s = Some (b, t) \<Longrightarrow> unwinds b \<Longrightarrow> \<not> dismissed g \<Longrightarrow>
   on_block_exit g body s = left_by b (Execute g) t"
  by (auto simp: on_block_exit_def unwinds_def left_by_def SafeExecute_def whenp_def try_catch_def bnd_def seq_def
      ret_def throw_def halt_def split: sum.splits abrupt.splits option.splits)

lemmas guard_forms = MakeGuard0_def MakeGuard1_def MakeGuard2_def MakeGuard3_def MakeGuard4_def MakeGuard5_def
  MakeObjGuard0_def MakeObjGuard1_def MakeObjGuard2_def MakeObjGuard3_def on_block_exit_obj_def member_def
  MakeGuard_ref0_def MakeGuard_ref1_def MakeGuard_ref2_def MakeGuard_ref3_def pointed_def
  MakeGuard_ptr0_def MakeGuard_ptr1_def MakeGuard_ptr2_def MakeGuard_ptr3_def



end
