(* ===== verification/CLib.thy ===== *)
theory CLib
  imports Prelude "HOL-Library.Word"
begin

text \<open>
  The C and C++ library functions the sources compute with: conversion to \<^verbatim>\<open>int\<close>,
  \<^verbatim>\<open>std::to_string\<close>, \<^verbatim>\<open>atoi\<close>, \<^verbatim>\<open>c_str\<close>, \<^verbatim>\<open>find_first_of\<close>. The naming interface
  \<open>naming\<close> states what the manager relies on when it names a file after a process and reads
  the process number back from the file name; \<open>to_string\<close> and \<open>atoi\<close> provide it.
\<close>

section \<open>Machine integers\<close>

text \<open>Conversion to a 32-bit \<^verbatim>\<open>int\<close>, and the range in which it changes nothing.\<close>

definition cint :: "int \<Rightarrow> int" where
  "cint x = sint (word_of_int x :: 32 word)"

definition int32 :: "int \<Rightarrow> bool" where
  "int32 x \<longleftrightarrow> - (2 ^ 31) \<le> x \<and> x < 2 ^ 31"

lemma cint_id [simp]: "int32 x \<Longrightarrow> cint x = x"
  by (simp add: cint_def int32_def signed_of_int signed_take_bit_int_eq_self)

text \<open>Addition of two \<^verbatim>\<open>int\<close>s: undefined behaviour when the sum is out of range.\<close>

definition add_int :: "int \<Rightarrow> int \<Rightarrow> ('s, int) prog" where
  "add_int a b = (if int32 (a + b) then ret (a + b) else halt Undefined)"

lemma wp_add_int [wp]:
  "wp (add_int a b) Q E s = (if int32 (a + b) then Q (a + b) s else E Undefined s)"
  by (simp add: add_int_def wp)

section \<open>Decimal text\<close>

definition digit_char :: "nat \<Rightarrow> char" where
  "digit_char d = char_of (48 + d)"

definition digit_value :: "char \<Rightarrow> nat" where
  "digit_value c = of_char c - 48"

definition is_digit :: "char \<Rightarrow> bool" where
  "is_digit c \<longleftrightarrow> 48 \<le> (of_char c :: nat) \<and> (of_char c :: nat) \<le> 57"

definition is_space :: "char \<Rightarrow> bool" where
  "is_space c \<longleftrightarrow> (of_char c :: nat) = 32 \<or> (9 \<le> (of_char c :: nat) \<and> (of_char c :: nat) \<le> 13)"

fun decimal :: "nat \<Rightarrow> string" where
  "decimal n = (if n < 10 then [digit_char n] else decimal (n div 10) @ [digit_char (n mod 10)])"

declare decimal.simps [simp del]

definition to_string :: "int \<Rightarrow> string" where
  "to_string i = (if i < 0 then CHR ''-'' # decimal (nat (- i)) else decimal (nat i))"

definition digits_value :: "string \<Rightarrow> nat" where
  "digits_value ds = foldl (\<lambda>a c. 10 * a + digit_value c) 0 ds"

text \<open>\<^verbatim>\<open>strtol\<close> in base 10 saturates at the bounds of \<^verbatim>\<open>long\<close>; \<^verbatim>\<open>atoi\<close> converts it to \<^verbatim>\<open>int\<close>.\<close>

definition strtol10 :: "string \<Rightarrow> int" where
  "strtol10 str = (let t = dropWhile is_space str;
      neg = (case t of c # _ \<Rightarrow> c = CHR ''-'' | [] \<Rightarrow> False);
      u = (case t of c # cs \<Rightarrow> if c = CHR ''-'' \<or> c = CHR ''+'' then cs else t | [] \<Rightarrow> []);
      v = int (digits_value (takeWhile is_digit u))
    in max (- (2 ^ 63)) (min (2 ^ 63 - 1) (if neg then - v else v)))"

definition atoi :: "string \<Rightarrow> int" where
  "atoi str = cint (strtol10 str)"

text \<open>What a C function sees of a \<^verbatim>\<open>std::string\<close>: the bytes before the first NUL.\<close>

definition c_str :: "string \<Rightarrow> string" where
  "c_str s = takeWhile (\<lambda>c. c \<noteq> CHR 0x00) s"

primrec find_first_of :: "char \<Rightarrow> string \<Rightarrow> nat option" where
  "find_first_of c [] = None"
| "find_first_of c (x # xs) = (if x = c then Some 0 else map_option Suc (find_first_of c xs))"

lemma find_first_of_Some:
  "find_first_of c s = Some p \<Longrightarrow>
     p < length s \<and> s ! p = c \<and> c \<notin> set (take p s) \<and> s = take p s @ c # drop (p + 1) s"
  by (induction s arbitrary: p) (auto split: if_splits)

lemma find_first_of_None: "find_first_of c s = None \<longleftrightarrow> c \<notin> set s"
  by (induction s) auto

section \<open>Reading a number back\<close>

lemma of_char_digit [simp]: "d < 10 \<Longrightarrow> (of_char (digit_char d) :: nat) = 48 + d"
  by (simp add: digit_char_def)

lemma digit_char_props [simp]:
  "d < 10 \<Longrightarrow> is_digit (digit_char d)" "d < 10 \<Longrightarrow> \<not> is_space (digit_char d)"
  "d < 10 \<Longrightarrow> digit_value (digit_char d) = d"
  by (simp_all add: is_digit_def is_space_def digit_value_def)

lemma decimal_induct:
  assumes "\<And>d. d < 10 \<Longrightarrow> P [digit_char d] d"
    and "\<And>n. 10 \<le> n \<Longrightarrow> P (decimal (n div 10)) (n div 10) \<Longrightarrow>
       P (decimal (n div 10) @ [digit_char (n mod 10)]) n"
  shows "P (decimal n) n"
proof (induction n rule: decimal.induct)
  case (1 n)
  show ?case
    using 1 assms by (cases "n < 10") (simp_all add: decimal.simps [of n])
qed

lemma decimal_not_Nil [simp]: "decimal n \<noteq> []"
  by (simp add: decimal.simps [of n])

lemma decimal_digits: "\<forall>c\<in>set (decimal n). is_digit c"
  by (rule decimal_induct) auto

lemma digits_value_decimal: "digits_value (decimal n) = n"
proof (rule decimal_induct [of "\<lambda>ds n. digits_value ds = n"])
  fix n :: nat
  assume "digits_value (decimal (n div 10)) = n div 10"
  then show "digits_value (decimal (n div 10) @ [digit_char (n mod 10)]) = n"
    by (simp add: digits_value_def)
qed (simp add: digits_value_def)

lemma is_digit_not_space: "is_digit c \<Longrightarrow> \<not> is_space c"
  by (auto simp: is_digit_def is_space_def)

lemma is_digit_not_sign: "is_digit c \<Longrightarrow> c \<noteq> CHR ''-'' \<and> c \<noteq> CHR ''+''"
  by (auto simp: is_digit_def)

lemma dropWhile_decimal: "dropWhile is_space (decimal n) = decimal n"
  using decimal_digits [of n] is_digit_not_space
  by (cases "decimal n") auto

lemma takeWhile_decimal: "takeWhile is_digit (decimal n) = decimal n"
  using decimal_digits [of n] by simp

lemma strtol10_decimal: "int n < 2 ^ 63 \<Longrightarrow> strtol10 (decimal n) = int n"
proof -
  assume n: "int n < 2 ^ 63"
  obtain c cs where d: "decimal n = c # cs"
    by (cases "decimal n") auto
  then have c: "is_digit c" "\<forall>x\<in>set cs. is_digit x"
    using decimal_digits [of n] by simp_all
  have v: "digits_value (c # cs) = n"
    using digits_value_decimal [of n] d by simp
  have "takeWhile is_digit (c # cs) = c # cs"
    using c by simp
  then have "strtol10 (c # cs) = max (- (2 ^ 63)) (min (2 ^ 63 - 1) (int (digits_value (c # cs))))"
    using is_digit_not_sign [OF c(1)] is_digit_not_space [OF c(1)] by (simp add: strtol10_def Let_def)
  then show ?thesis
    using n d v by simp
qed

lemma strtol10_minus: "int n \<le> 2 ^ 63 \<Longrightarrow> strtol10 (CHR ''-'' # decimal n) = - int n"
  by (simp add: strtol10_def Let_def is_space_def takeWhile_decimal digits_value_decimal)

lemma atoi_to_string: "int32 n \<Longrightarrow> atoi (to_string n) = n"
proof (cases "n < 0")
  case True
  assume n: "int32 n"
  then have "strtol10 (CHR ''-'' # decimal (nat (- n))) = n"
    using True by (subst strtol10_minus) (auto simp: int32_def)
  then show ?thesis
    using n True by (simp add: atoi_def to_string_def)
next
  case False
  assume n: "int32 n"
  then have "strtol10 (decimal (nat n)) = n"
    using False by (subst strtol10_decimal) (auto simp: int32_def)
  then show ?thesis
    using n False by (simp add: atoi_def to_string_def)
qed

text \<open>Distinct numbers have distinct texts, beyond the range of \<^verbatim>\<open>int\<close> too.\<close>

lemma to_string_inj: "to_string m = to_string n \<longleftrightarrow> m = n"
proof
  assume eq: "to_string m = to_string n"
  have neg: "decimal k \<noteq> CHR ''-'' # ds" for k ds
    using decimal_digits [of k] is_digit_not_sign by fastforce
  have "decimal j = decimal k \<Longrightarrow> j = k" for j k
    by (metis digits_value_decimal)
  then show "m = n"
    using eq neg neg [symmetric] by (fastforce simp: to_string_def split: if_splits)
qed simp

lemma to_string_chars: "c \<in> set (to_string n) \<Longrightarrow> is_digit c \<or> c = CHR ''-''"
  using decimal_digits by (auto simp: to_string_def split: if_splits)

lemma c_str_id: "CHR 0x00 \<notin> set s \<Longrightarrow> c_str s = s"
  unfolding c_str_def by (rule takeWhile_eq_all_conv [THEN iffD2]) auto

lemma to_string_no_nul: "CHR 0x00 \<notin> set (to_string n)"
  using to_string_chars by (fastforce simp: is_digit_def)

lemma c_str_append: "CHR 0x00 \<notin> set s \<Longrightarrow> c_str (s @ t) = s @ c_str t"
  unfolding c_str_def by (rule takeWhile_append2) auto

section \<open>The naming interface\<close>

text \<open>
  A component that names objects relies on reading each name back as the object it was made
  from, within the range of the objects it names.
\<close>

locale naming =
  fixes name_of :: "'a \<Rightarrow> string" and object_of :: "string \<Rightarrow> 'a" and valid :: "'a \<Rightarrow> bool"
  assumes read_back: "valid x \<Longrightarrow> object_of (name_of x) = x"
begin

lemma names_differ: "valid x \<Longrightarrow> valid y \<Longrightarrow> name_of x = name_of y \<longleftrightarrow> x = y"
  by (metis read_back)

lemma names_inj: "inj_on name_of {x. valid x}"
  by (auto intro!: inj_onI simp: names_differ)

lemma read_all_back: "(\<forall>x\<in>set xs. valid x) \<Longrightarrow> map (object_of \<circ> name_of) xs = xs"
  by (induction xs) (simp_all add: read_back)

lemma prefixed_names_differ:
  "valid x \<Longrightarrow> valid y \<Longrightarrow> dir @ name_of x = dir @ name_of y \<longleftrightarrow> x = y"
  by (simp add: names_differ)

end

interpretation pid_names: naming to_string atoi int32
  by unfold_locales (rule atoi_to_string)

end
