(* ===== verification/Proto.thy ===== *)
theory Proto
  imports Prelude
begin

text \<open>
  The messages of \<^verbatim>\<open>src/proto/proto3/srun.proto\<close> (the proto2 file declares the same fields).
  A field that is itself a message has presence, so it is an option; reading an absent one
  gives the default instance, as the generated getter does. The generated code, with the wire
  format, is outside the sources: encoding and decoding are parameters of the environment
  (theory \<open>Sys\<close>).
\<close>

text \<open>
  Enumerations of proto3 are open. For the method and the state an unknown number is kept (the \<^verbatim>\<open>default\<close> case of
  the manager's switch); an unknown output mode behaves as \<open>IGN\<close> everywhere.
\<close>

datatype outmode = IGN | MSG | FILE

datatype rstate = NORMAL | TIMEOUT | ABNORMAL | BADARGS | UNKNOWN_STATE int

datatype msgmethod = EXE | SYN | ACK | LIST | STOP | UNKNOWN int

record request =
  rq_args :: "string list"
  rq_model :: string
  rq_timeout :: int
  rq_user :: string
  rq_chroot :: string
  rq_outmode :: outmode
  rq_errmode :: outmode
  rq_outfile :: string
  rq_errfile :: string
  rq_network :: bool
  rq_backend :: bool
  rq_nice :: int
  rq_memlimit :: string
  rq_memswlimit :: string
  rq_envs :: "string list"

record response =
  rs_stat :: rstate
  rs_retval :: int
  rs_outstr :: string
  rs_errstr :: string

record runproc =
  rp_pid :: int
  rp_since :: int
  rp_request :: "request option"

record message =
  ms_method :: msgmethod
  ms_response :: "response option"
  ms_request :: "request option"
  ms_runlist :: "runproc list"

definition request0 :: request where
  "request0 = \<lparr>rq_args = [], rq_model = [], rq_timeout = 0, rq_user = [], rq_chroot = [],
     rq_outmode = IGN, rq_errmode = IGN, rq_outfile = [], rq_errfile = [], rq_network = False,
     rq_backend = False, rq_nice = 0, rq_memlimit = [], rq_memswlimit = [], rq_envs = []\<rparr>"

definition response0 :: response where
  "response0 = \<lparr>rs_stat = NORMAL, rs_retval = 0, rs_outstr = [], rs_errstr = []\<rparr>"

definition message0 :: message where
  "message0 = \<lparr>ms_method = EXE, ms_response = None, ms_request = None, ms_runlist = []\<rparr>"

text \<open>The getters of submessages.\<close>

definition the_request :: "message \<Rightarrow> request" where
  "the_request m = (case ms_request m of None \<Rightarrow> request0 | Some r \<Rightarrow> r)"

definition the_response :: "message \<Rightarrow> response" where
  "the_response m = (case ms_response m of None \<Rightarrow> response0 | Some r \<Rightarrow> r)"

definition the_proc_request :: "runproc \<Rightarrow> request" where
  "the_proc_request p = (case rp_request p of None \<Rightarrow> request0 | Some r \<Rightarrow> r)"

end
