(* ===== verification/Sys.thy ===== *)
theory Sys
  imports CLib Proto Guard
begin

text \<open>
  The boundary of the program. Everything the sources call and do not define (the kernel, boost
  filesystem, the C runtime's files, the generated protobuf code) is the parameter \<open>os\<close>: each
  answer is an arbitrary function of the calls made so far and of the call, so a theorem for
  every \<open>os\<close> covers every behaviour the outside can show. Each call is recorded, newest first,
  in \<open>hist\<close>; what a run did is read off that record. What the documentation of an outside
  function promises is a named predicate on \<open>os\<close>, used as a hypothesis where it is needed.
\<close>

section \<open>Calls and answers\<close>

datatype oflag = O_WRONLY | O_RDWR | O_TRUNC | O_CREAT | O_CLOEXEC

datatype lockop = LOCK_SH | LOCK_EX | LOCK_UN

datatype epollop = EPOLL_CTL_ADD | EPOLL_CTL_DEL

text \<open>A wait status as \<^verbatim>\<open>WIFEXITED\<close>, \<^verbatim>\<open>WEXITSTATUS\<close> and \<^verbatim>\<open>WIFSIGNALED\<close> read it.\<close>

datatype wstatus = Exited int | Signaled int | OtherStatus

text \<open>
  The calls of the client and of the start of the daemon that open no descriptor and do not touch
  processes; \<open>Cout\<close> and \<open>Cerr\<close> are output to the standard streams.
\<close>

datatype (plugins only: code size) hostcall =
    Connect int string | Umask int | Time | Cout string | Cerr string
  | Daemonize | Getpid | Umount string | Mount string string | Setmntent string | Getmntent int
  | SockBind int string | Chmod string | Listen int int

datatype (plugins only: code size) call =
    Close int | Open string "oflag list" | Pipe | Dup2 int int
  | Read int nat | Write int string | Lseek int | FcntlNonblock int
  | EpollCreate | EpollCtl int epollop int | EpollWait int nat int
  | TimerfdCreate | TimerfdSettime int int
  | Kill int int | Sleep int | WaitPid | Getppid | Signals | Sigaction int
  | Flock int lockop | Unlink string | Rmdir string
  | Exists string | IsDirectory string | IsRegularFile string
  | CreateDirectories string | ListDir string | LastWriteTime string | UniquePath string
  | Fopen string string | Fwrite int string | Fclose int
  | Fseek int | Ftell int | Rewind int | Fread int nat | Ferror int
  | Clone bool | Getpwnam string | Setgid int | Setuid int | Chdir string
  | Pdeathsig int | Nice int | Setenv string string | Execv string "string list"
  | ShutdownProtobuf | LoadKeyFile string
  | Socket bool | Poll int | Creat string | Accept int | Fork | Host hostcall

datatype answer =
    AUnit | AInt int | ABool "bool option" | ABytes "string option"
  | ANames "string list option" | AFds "int list option" | APipe int int int
  | AWait int wstatus | APasswd "(int \<times> int) option" | AText string
  | AMnt "(string \<times> string) option"

type_synonym event = "call \<times> answer"

text \<open>
  The outside. \<open>None\<close> is failure: of \<^verbatim>\<open>read\<close> (\<open>bytes_of\<close>), of \<^verbatim>\<open>epoll_wait\<close> (\<open>fds_of\<close>), an
  exception of boost filesystem (\<open>bool_of\<close>, \<open>names_of\<close>), no such user (\<open>passwd_of\<close>), the end of
  the table of mounts (\<open>mnt_of\<close>). \<open>residue\<close> is what a failing decoder leaves in its message.
\<close>

record os =
  int_of :: "event list \<Rightarrow> call \<Rightarrow> int"
  errno_of :: "event list \<Rightarrow> call \<Rightarrow> int"
  bool_of :: "event list \<Rightarrow> call \<Rightarrow> bool option"
  bytes_of :: "event list \<Rightarrow> call \<Rightarrow> string option"
  names_of :: "event list \<Rightarrow> call \<Rightarrow> string list option"
  fds_of :: "event list \<Rightarrow> call \<Rightarrow> int list option"
  pipe_of :: "event list \<Rightarrow> int \<times> int"
  wait_of :: "event list \<Rightarrow> int \<times> wstatus"
  passwd_of :: "event list \<Rightarrow> string \<Rightarrow> (int \<times> int) option"
  text_of :: "event list \<Rightarrow> call \<Rightarrow> string"
  mnt_of :: "event list \<Rightarrow> int \<Rightarrow> (string \<times> string) option"
  stem_of :: "string \<Rightarrow> string"
  serialize :: "message \<Rightarrow> string option"
  parse :: "string \<Rightarrow> message option"
  residue :: "string \<Rightarrow> message"

record sys =
  hist :: "event list"
  errno :: int

section \<open>Primitive calls\<close>

definition record_call :: "call \<Rightarrow> answer \<Rightarrow> 'z sys_scheme \<Rightarrow> 'z sys_scheme" where
  "record_call c a s = s\<lparr>hist := (c, a) # hist s\<rparr>"

text \<open>A call whose answer the code does not look at.\<close>

definition sys_do :: "call \<Rightarrow> ('z sys_scheme, unit) prog" where
  "sys_do c = modify (record_call c AUnit)"

text \<open>
  A call with an integer answer. Failure is \<open>- 1\<close> (the null stream of \<^verbatim>\<open>fopen\<close> too). Calls may
  leave anything in \<^verbatim>\<open>errno\<close>.
\<close>

definition sys_int :: "os \<Rightarrow> call \<Rightarrow> ('z sys_scheme, int) prog" where
  "sys_int os c s = (let n = int_of os (hist s) c in
     Some (Inr n, s\<lparr>hist := (c, AInt n) # hist s,
                    errno := errno_of os (hist s) c\<rparr>))"

definition sys_bool :: "os \<Rightarrow> call \<Rightarrow> ('z sys_scheme, bool) prog" where
  "sys_bool os c s = (let b = bool_of os (hist s) c in
     Some (case b of None \<Rightarrow> Inl (Raise filesystem_error) | Some v \<Rightarrow> Inr v,
           s\<lparr>hist := (c, ABool b) # hist s\<rparr>))"

definition sys_names :: "os \<Rightarrow> call \<Rightarrow> ('z sys_scheme, string list) prog" where
  "sys_names os c s = (let b = names_of os (hist s) c in
     Some (case b of None \<Rightarrow> Inl (Raise filesystem_error) | Some v \<Rightarrow> Inr v,
           s\<lparr>hist := (c, ANames b) # hist s\<rparr>))"

text \<open>\<^verbatim>\<open>read\<close> and \<^verbatim>\<open>fread\<close> deliver at most the number of bytes asked for.\<close>

definition sys_read :: "os \<Rightarrow> int \<Rightarrow> nat \<Rightarrow> ('z sys_scheme, string option) prog" where
  "sys_read os fd n s = (let d = map_option (take n) (bytes_of os (hist s) (Read fd n)) in
     Some (Inr d, s\<lparr>hist := (Read fd n, ABytes d) # hist s,
                    errno := errno_of os (hist s) (Read fd n)\<rparr>))"

definition sys_fread :: "os \<Rightarrow> int \<Rightarrow> nat \<Rightarrow> ('z sys_scheme, string) prog" where
  "sys_fread os stream n s =
     (let d = (case bytes_of os (hist s) (Fread stream n) of None \<Rightarrow> [] | Some d \<Rightarrow> take n d) in
      Some (Inr d, s\<lparr>hist := (Fread stream n, ABytes (Some d)) # hist s\<rparr>))"

definition sys_pipe :: "os \<Rightarrow> ('z sys_scheme, int \<times> int \<times> int) prog" where
  "sys_pipe os s = (let n = int_of os (hist s) Pipe; (a, b) = pipe_of os (hist s) in
     Some (Inr (n, a, b), s\<lparr>hist := (Pipe, APipe n a b) # hist s,
                            errno := errno_of os (hist s) Pipe\<rparr>))"

definition sys_epoll_wait :: "os \<Rightarrow> int \<Rightarrow> nat \<Rightarrow> int \<Rightarrow> ('z sys_scheme, int list option) prog" where
  "sys_epoll_wait os epfd maxevents timeout s =
     (let c = EpollWait epfd maxevents timeout; d = map_option (take maxevents) (fds_of os (hist s) c) in
      Some (Inr d, s\<lparr>hist := (c, AFds d) # hist s,
                     errno := errno_of os (hist s) c\<rparr>))"

definition sys_waitpid :: "os \<Rightarrow> ('z sys_scheme, int \<times> wstatus) prog" where
  "sys_waitpid os s = (let (p, st) = wait_of os (hist s) in
     Some (Inr (p, st), s\<lparr>hist := (WaitPid, AWait p st) # hist s\<rparr>))"

definition sys_getpwnam :: "os \<Rightarrow> string \<Rightarrow> ('z sys_scheme, (int \<times> int) option) prog" where
  "sys_getpwnam os user s = (let d = passwd_of os (hist s) user in
     Some (Inr d, s\<lparr>hist := (Getpwnam user, APasswd d) # hist s,
                    errno := errno_of os (hist s) (Getpwnam user)\<rparr>))"

text \<open>
  Asking which processes have sent SIGTERM since it was last asked: the model runs the signal
  handler here, just before the code reads the variable the handler writes.
\<close>

definition sys_signals :: "os \<Rightarrow> ('z sys_scheme, int list) prog" where
  "sys_signals os s = (let d = fds_of os (hist s) Signals in
     Some (Inr (case d of None \<Rightarrow> [] | Some ps \<Rightarrow> ps), s\<lparr>hist := (Signals, AFds d) # hist s\<rparr>))"

definition sys_text :: "os \<Rightarrow> call \<Rightarrow> ('z sys_scheme, string) prog" where
  "sys_text os c s = (let d = text_of os (hist s) c in
     Some (Inr d, s\<lparr>hist := (c, AText d) # hist s\<rparr>))"

definition sys_getmntent :: "os \<Rightarrow> int \<Rightarrow> ('z sys_scheme, (string \<times> string) option) prog" where
  "sys_getmntent os stream s = (let d = mnt_of os (hist s) stream in
     Some (Inr d, s\<lparr>hist := (Host (Getmntent stream), AMnt d) # hist s\<rparr>))"

text \<open>\<^verbatim>\<open>ThrowCAPIExceptionIf\<close>: the exception captures \<^verbatim>\<open>errno\<close> when it is constructed.\<close>

definition ThrowCAPIExceptionIf :: "bool \<Rightarrow> string \<Rightarrow> ('z sys_scheme, unit) prog" where
  "ThrowCAPIExceptionIf expression msg =
     (if expression then bnd (get errno) (\<lambda>e. throw (CAPIException msg e)) else ret ())"

lemmas sys_defs = sys_do_def sys_int_def sys_bool_def sys_names_def sys_read_def sys_fread_def
  sys_pipe_def sys_epoll_wait_def sys_waitpid_def sys_getpwnam_def sys_signals_def sys_text_def
  sys_getmntent_def

text \<open>Running a program on concrete values.\<close>

lemmas run_defs = bnd_def seq_def get_def modify_def ret_def throw_def halt_def whenp_def try_catch_def sys_defs record_call_def
  ThrowRuntimeIf_def ThrowLogicIf_def ThrowCAPIExceptionIf_def Let_def

lemma wp_sys_do [wp]: "wp (sys_do c) Q E s = Q () (s\<lparr>hist := (c, AUnit) # hist s\<rparr>)"
  by (simp add: sys_do_def record_call_def wp)

lemma wp_sys_int [wp]:
  "wp (sys_int os c) Q E s = Q (int_of os (hist s) c)
     (s\<lparr>hist := (c, AInt (int_of os (hist s) c)) # hist s,
        errno := errno_of os (hist s) c\<rparr>)"
  by (simp add: wp_def sys_int_def Let_def)

lemma wp_sys_bool [wp]:
  "wp (sys_bool os c) Q E s =
     (case bool_of os (hist s) c of
        None \<Rightarrow> E (Raise filesystem_error) (s\<lparr>hist := (c, ABool None) # hist s\<rparr>)
      | Some v \<Rightarrow> Q v (s\<lparr>hist := (c, ABool (Some v)) # hist s\<rparr>))"
  by (simp add: wp_def sys_bool_def Let_def split: option.splits)

lemma wp_sys_names [wp]:
  "wp (sys_names os c) Q E s =
     (case names_of os (hist s) c of
        None \<Rightarrow> E (Raise filesystem_error) (s\<lparr>hist := (c, ANames None) # hist s\<rparr>)
      | Some v \<Rightarrow> Q v (s\<lparr>hist := (c, ANames (Some v)) # hist s\<rparr>))"
  by (simp add: wp_def sys_names_def Let_def split: option.splits)

lemma wp_sys_read [wp]:
  "wp (sys_read os fd n) Q E s =
     (let d = map_option (take n) (bytes_of os (hist s) (Read fd n)) in
      Q d (s\<lparr>hist := (Read fd n, ABytes d) # hist s,
                   errno := errno_of os (hist s) (Read fd n)\<rparr>))"
  by (simp add: wp_def sys_read_def Let_def)

lemma wp_sys_fread [wp]:
  "wp (sys_fread os stream n) Q E s =
     (let d = (case bytes_of os (hist s) (Fread stream n) of None \<Rightarrow> [] | Some d \<Rightarrow> take n d) in
      Q d (s\<lparr>hist := (Fread stream n, ABytes (Some d)) # hist s\<rparr>))"
  by (simp add: wp_def sys_fread_def Let_def)

lemma wp_sys_pipe [wp]:
  "wp (sys_pipe os) Q E s =
     (let n = int_of os (hist s) Pipe; a = fst (pipe_of os (hist s)); b = snd (pipe_of os (hist s)) in
      Q (n, a, b) (s\<lparr>hist := (Pipe, APipe n a b) # hist s,
                           errno := errno_of os (hist s) Pipe\<rparr>))"
  by (simp add: wp_def sys_pipe_def Let_def split: prod.splits)

lemma wp_sys_epoll_wait [wp]:
  "wp (sys_epoll_wait os epfd k tmo) Q E s =
     (let d = map_option (take k) (fds_of os (hist s) (EpollWait epfd k tmo)) in
      Q d (s\<lparr>hist := (EpollWait epfd k tmo, AFds d) # hist s,
        errno := errno_of os (hist s) (EpollWait epfd k tmo)\<rparr>))"
  by (simp add: wp_def sys_epoll_wait_def Let_def)

lemma wp_sys_waitpid [wp]:
  "wp (sys_waitpid os) Q E s =
     Q (wait_of os (hist s))
       (s\<lparr>hist := (WaitPid, AWait (fst (wait_of os (hist s))) (snd (wait_of os (hist s)))) # hist s\<rparr>)"
  by (simp add: wp_def sys_waitpid_def Let_def split: prod.splits)

lemma wp_sys_getpwnam [wp]:
  "wp (sys_getpwnam os user) Q E s =
     (let d = passwd_of os (hist s) user in
      Q d (s\<lparr>hist := (Getpwnam user, APasswd d) # hist s,
                   errno := errno_of os (hist s) (Getpwnam user)\<rparr>))"
  by (simp add: wp_def sys_getpwnam_def Let_def)

lemma wp_sys_signals [wp]:
  "wp (sys_signals os) Q E s =
     (let d = fds_of os (hist s) Signals in
      Q (case d of None \<Rightarrow> [] | Some ps \<Rightarrow> ps) (s\<lparr>hist := (Signals, AFds d) # hist s\<rparr>))"
  by (simp add: wp_def sys_signals_def Let_def)

lemma wp_sys_text [wp]:
  "wp (sys_text os c) Q E s =
     Q (text_of os (hist s) c) (s\<lparr>hist := (c, AText (text_of os (hist s) c)) # hist s\<rparr>)"
  by (simp add: wp_def sys_text_def Let_def)

lemma wp_sys_getmntent [wp]:
  "wp (sys_getmntent os st) Q E s =
     Q (mnt_of os (hist s) st) (s\<lparr>hist := (Host (Getmntent st), AMnt (mnt_of os (hist s) st)) # hist s\<rparr>)"
  by (simp add: wp_def sys_getmntent_def Let_def)

lemma wp_ThrowCAPIExceptionIf [wp]:
  "wp (ThrowCAPIExceptionIf b msg) Q E s =
     (if b then E (Raise (CAPIException msg (errno s))) s else Q () s)"
  by (simp add: ThrowCAPIExceptionIf_def wp)

lemma returns_sys [returns]:
  "returns (sys_do c) s" "returns (sys_int os c) s" "returns (sys_bool os c) s"
  "returns (sys_names os c) s" "returns (sys_read os fd n) s" "returns (sys_fread os st n) s"
  "returns (sys_pipe os) s" "returns (sys_epoll_wait os fd n tmo) s" "returns (sys_waitpid os) s"
  "returns (sys_getpwnam os u) s" "returns (sys_signals os) s" "returns (sys_text os c) s"
  "returns (ThrowCAPIExceptionIf b msg) s" "returns (sys_getmntent os st) s"
  by (simp_all add: returns_def sys_defs Let_def modify_def ThrowCAPIExceptionIf_def bnd_def get_def
      throw_def halt_def ret_def split: prod.splits)

section \<open>The record only grows\<close>

definition grows :: "'z sys_scheme \<Rightarrow> 'z sys_scheme \<Rightarrow> bool" where
  "grows s t \<longleftrightarrow> (\<exists>es. hist t = es @ hist s)"

lemma growsI: "hist t = es @ hist s \<Longrightarrow> grows s t"
  by (auto simp: grows_def)

interpretation growth: contract grows
proof unfold_locales
  fix s t u :: "'z sys_scheme"
  show "grows s s" by (simp add: grows_def)
  show "grows s t \<Longrightarrow> grows t u \<Longrightarrow> grows s u"
    by (auto simp: grows_def)
qed

named_theorems grow

lemma grow_sys [grow]:
  "obeys grows (sys_do c)" "obeys grows (sys_int os c)" "obeys grows (sys_bool os c)"
  "obeys grows (sys_names os c)" "obeys grows (sys_read os fd n)" "obeys grows (sys_fread os st n)"
  "obeys grows (sys_pipe os)" "obeys grows (sys_epoll_wait os fd n tmo)"
  "obeys grows (sys_waitpid os)" "obeys grows (sys_getpwnam os u)" "obeys grows (sys_signals os)"
  "obeys grows (sys_text os c)" "obeys grows (ThrowCAPIExceptionIf b msg)" "obeys grows (sys_getmntent os st)"
  by (auto intro!: obeysI simp: wp grows_def Let_def split: option.splits)

lemmas grow_intros [grow] = growth.r_intros

section \<open>Reading the record\<close>

text \<open>The advisory lock: the last \<^verbatim>\<open>flock\<close> of the record decides.\<close>

fun lock_state :: "event list \<Rightarrow> lockop" where
  "lock_state [] = LOCK_UN"
| "lock_state (e # h) = (case fst e of Flock _ op \<Rightarrow> op | _ \<Rightarrow> lock_state h)"

text \<open>The descriptors the record opened and has not closed.\<close>

definition opened_by :: "event \<Rightarrow> int set" where
  "opened_by e = (case e of
      (Open _ _, AInt n) \<Rightarrow> {n} - {- 1}
    | (EpollCreate, AInt n) \<Rightarrow> {n} - {- 1}
    | (TimerfdCreate, AInt n) \<Rightarrow> {n} - {- 1}
    | (Socket _, AInt n) \<Rightarrow> {n} - {- 1}
    | (Creat _, AInt n) \<Rightarrow> {n} - {- 1}
    | (Accept _, AInt n) \<Rightarrow> {n} - {- 1}
    | (Pipe, APipe n a b) \<Rightarrow> (if n = - 1 then {} else {a, b})
    | _ \<Rightarrow> {})"

fun open_fds :: "int set \<Rightarrow> event list \<Rightarrow> int set" where
  "open_fds inherited [] = inherited"
| "open_fds inherited (e # h) = (case fst e of
      Close fd \<Rightarrow> open_fds inherited h - {fd}
    | _ \<Rightarrow> open_fds inherited h \<union> opened_by e)"

text \<open>No descriptor is closed that is not open at that moment.\<close>

fun closes_ok :: "int set \<Rightarrow> event list \<Rightarrow> bool" where
  "closes_ok inherited [] = True"
| "closes_ok inherited (e # h) =
     ((case fst e of Close fd \<Rightarrow> fd \<in> open_fds inherited h | _ \<Rightarrow> True) \<and> closes_ok inherited h)"

text \<open>
  What the manual pages promise of descriptors: a new one is not negative and is not one the
  process already has open; the two ends of a pipe differ.
\<close>

definition fresh_fds :: "int set \<Rightarrow> os \<Rightarrow> bool" where
  "fresh_fds inherited os \<longleftrightarrow>
     (\<forall>h c. int_of os h c \<noteq> - 1 \<longrightarrow> (case c of
        Open _ _ \<Rightarrow> 0 \<le> int_of os h c \<and> int_of os h c \<notin> open_fds inherited h
      | EpollCreate \<Rightarrow> 0 \<le> int_of os h c \<and> int_of os h c \<notin> open_fds inherited h
      | TimerfdCreate \<Rightarrow> 0 \<le> int_of os h c \<and> int_of os h c \<notin> open_fds inherited h
      | Socket _ \<Rightarrow> 0 \<le> int_of os h c \<and> int_of os h c \<notin> open_fds inherited h
      | Creat _ \<Rightarrow> 0 \<le> int_of os h c \<and> int_of os h c \<notin> open_fds inherited h
      | Accept _ \<Rightarrow> 0 \<le> int_of os h c \<and> int_of os h c \<notin> open_fds inherited h
      | Pipe \<Rightarrow> 0 \<le> fst (pipe_of os h) \<and> 0 \<le> snd (pipe_of os h) \<and>
          fst (pipe_of os h) \<noteq> snd (pipe_of os h) \<and>
          fst (pipe_of os h) \<notin> open_fds inherited h \<and> snd (pipe_of os h) \<notin> open_fds inherited h
      | _ \<Rightarrow> True))"

text \<open>\<^verbatim>\<open>clone\<close> returns to the parent the number of the child, or \<open>- 1\<close>.\<close>

definition clone_pids :: "os \<Rightarrow> bool" where
  "clone_pids os \<longleftrightarrow> (\<forall>h net. int_of os h (Clone net) = - 1 \<or> 0 < int_of os h (Clone net))"

text \<open>What the generated code promises: a message that is encoded decodes to itself.\<close>

definition codec_ok :: "os \<Rightarrow> bool" where
  "codec_ok os \<longleftrightarrow> (\<forall>m d. serialize os m = Some d \<longrightarrow> parse os d = Some m)"

section \<open>A concrete outside\<close>

text \<open>
  An outside in which every call succeeds: integer calls answer 0, files exist and are empty, a
  new descriptor is bigger than all in the record, \<^verbatim>\<open>clone\<close> gives process 100. Examples change
  what they need of it.
\<close>

fun next_fd :: "event list \<Rightarrow> int" where
  "next_fd [] = 3"
| "next_fd (e # h) = max (next_fd h)
     (case snd e of AInt n \<Rightarrow> n + 1 | APipe n a b \<Rightarrow> max a b + 1 | _ \<Rightarrow> 0)"

definition calm_int :: "event list \<Rightarrow> call \<Rightarrow> int" where
  "calm_int h c = (case c of
      Open _ _ \<Rightarrow> next_fd h
    | EpollCreate \<Rightarrow> next_fd h
    | TimerfdCreate \<Rightarrow> next_fd h
    | Socket _ \<Rightarrow> next_fd h
    | Creat _ \<Rightarrow> next_fd h
    | Accept _ \<Rightarrow> next_fd h
    | Poll _ \<Rightarrow> 1
    | Fork \<Rightarrow> 100
    | Fwrite _ d \<Rightarrow> int (length d)
    | Write _ d \<Rightarrow> int (length d)
    | Clone _ \<Rightarrow> 100
    | _ \<Rightarrow> 0)"

definition calm :: os where
  "calm = \<lparr>int_of = calm_int, errno_of = (\<lambda>_ _. 0), bool_of = (\<lambda>_ _. Some True),
     bytes_of = (\<lambda>_ _. Some []), names_of = (\<lambda>_ _. Some []), fds_of = (\<lambda>_ _. Some []),
     pipe_of = (\<lambda>h. (next_fd h, next_fd h + 1)),
     wait_of = (\<lambda>_. (0, OtherStatus)), passwd_of = (\<lambda>_ _. Some (65534, 65534)),
     text_of = (\<lambda>_ _. []), mnt_of = (\<lambda>_ _. None), stem_of = (\<lambda>p. p), serialize = (\<lambda>_. Some ''m''),
     parse = (\<lambda>_. Some message0), residue = (\<lambda>_. message0)\<rparr>"

lemma calm_simps [simp]:
  "int_of calm = calm_int" "errno_of calm h c = 0" "bool_of calm h c = Some True"
  "bytes_of calm h c = Some []" "names_of calm h c = Some []" "fds_of calm h c = Some []"
  "pipe_of calm h = (next_fd h, next_fd h + 1)"
  "wait_of calm h = (0, OtherStatus)" "passwd_of calm h u = Some (65534, 65534)"
  "text_of calm h c = []" "stem_of calm p = p" "serialize calm m = Some ''m''"
  "parse calm d = Some message0" "mnt_of calm h st = None" "residue calm d = message0"
  by (simp_all add: calm_def)

lemma calm_int_simps [simp]:
  "calm_int h (Open p f) = next_fd h" "calm_int h EpollCreate = next_fd h"
  "calm_int h TimerfdCreate = next_fd h" "calm_int h (Fwrite st d) = int (length d)"
  "calm_int h (Write fd d) = int (length d)" "calm_int h (Clone n) = 100" "calm_int h Pipe = 0"
  "calm_int h (EpollCtl e x fd) = 0" "calm_int h (Fopen p m) = 0" "calm_int h (Setgid g) = 0"
  "calm_int h (Setuid g) = 0" "calm_int h (Chdir d) = 0" "calm_int h (TimerfdSettime fd t) = 0"
  "calm_int h (Lseek fd) = 0" "calm_int h Getppid = 0" "calm_int h (Rmdir d) = 0"
  "calm_int h (Ftell st) = 0" "calm_int h (Ferror st) = 0" "calm_int h (Execv p a) = 0"
  "calm_int h (Socket b) = next_fd h" "calm_int h (Creat p) = next_fd h" "calm_int h (Accept fd) = next_fd h"
  "calm_int h (Poll fd) = 1" "calm_int h Fork = 100" "calm_int h (Host c) = 0"
  by (simp_all add: calm_int_def)

lemma opened_below: "fd \<in> opened_by e \<Longrightarrow> fd < next_fd (e # h)"
  by (cases e) (auto simp: opened_by_def split: call.split_asm answer.split_asm if_split_asm)

lemma next_fd_fresh: "inh \<subseteq> {0..<3} \<Longrightarrow> fd \<in> open_fds inh h \<Longrightarrow> fd < next_fd h"
proof (induction h)
  case (Cons e h)
  have "open_fds inh (e # h) \<subseteq> open_fds inh h \<union> opened_by e"
    by (cases "fst e") auto
  then show ?case
    using Cons opened_below [of fd e h] by fastforce
qed auto

lemma next_fd_positive: "3 \<le> next_fd h"
  by (induction h) auto

lemma calm_fresh: "inh \<subseteq> {0..<3} \<Longrightarrow> fresh_fds inh calm"
proof -
  assume inh: "inh \<subseteq> {0..<3}"
  have "0 \<le> next_fd h" "0 \<le> next_fd h + 1" "next_fd h \<notin> open_fds inh h" "next_fd h + 1 \<notin> open_fds inh h" for h
    using next_fd_positive [of h] next_fd_fresh [OF inh, of "next_fd h" h]
      next_fd_fresh [OF inh, of "next_fd h + 1" h] by auto
  then show ?thesis
    by (simp add: fresh_fds_def split: call.split)
qed

lemma calm_clone_pids: "clone_pids calm"
  by (simp add: clone_pids_def)

end
