(* ===== verification/Utils.thy ===== *)
theory Utils
  imports Sys
begin

text \<open>
  \<^verbatim>\<open>src/src/utils.cpp\<close>: closing a descriptor variable, writing and reading whole files, a
  fresh path in a directory.
\<close>

section \<open>Operations\<close>

text \<open>\<^verbatim>\<open>closefd(int &fd)\<close> returns the new value of the variable it is given.\<close>

definition closefd :: "int \<Rightarrow> ('z sys_scheme, int) prog" where
  "closefd fd = (if fd \<noteq> - 1 then seq (sys_do (Close fd)) (ret (- 1)) else ret fd)"

definition write_file :: "os \<Rightarrow> string \<Rightarrow> string \<Rightarrow> ('z sys_scheme, unit) prog" where
  "write_file os path data =
     bnd (sys_int os (Fopen (c_str path) ''w'')) (\<lambda>stream.
     seq (ThrowCAPIExceptionIf (stream = - 1) (''fopen, w, '' @ path))
     (on_block_exit (MakeGuard1 (\<lambda>st. sys_do (Fclose st)) stream)
       (bnd (sys_int os (Fwrite stream data)) (\<lambda>n.
        ThrowCAPIExceptionIf (n \<noteq> int (length data)) ''fwrite''))))"

text \<open>
  \<^verbatim>\<open>read_file\<close> sizes the buffer by \<^verbatim>\<open>ftell\<close>; a negative size, taken as \<^verbatim>\<open>size_t\<close>, is more than a
  string can have. Bytes \<^verbatim>\<open>fread\<close> does not deliver stay NUL.
\<close>

definition read_file :: "os \<Rightarrow> string \<Rightarrow> ('z sys_scheme, string) prog" where
  "read_file os path =
     bnd (sys_int os (Fopen (c_str path) ''r'')) (\<lambda>stream.
     seq (ThrowCAPIExceptionIf (stream = - 1) (''fopen, r, '' @ path))
     (on_block_exit (MakeGuard1 (\<lambda>st. sys_do (Fclose st)) stream)
       (seq (sys_do (Fseek stream))
       (bnd (sys_int os (Ftell stream)) (\<lambda>size.
        if size < 0 then throw length_error
        else seq (sys_do (Rewind stream))
          (bnd (sys_fread os stream (nat size)) (\<lambda>d.
           bnd (sys_int os (Ferror stream)) (\<lambda>e.
           seq (ThrowCAPIExceptionIf (0 \<noteq> e) ''fread'')
             (ret (d @ replicate (nat size - length d) CHR 0x00))))))))))"

definition unique_path_in_dir :: "os \<Rightarrow> string \<Rightarrow> ('z sys_scheme, string) prog" where
  "unique_path_in_dir os dir =
     bnd (sys_bool os (IsDirectory dir)) (\<lambda>isdir.
     seq (ThrowLogicIf (\<not> isdir) (''unique_path_in_dir::is_directory('' @ dir @ '')''))
     (if dir = [] then halt Undefined
      else let unique = (if last dir \<noteq> CHR ''/'' then dir @ ''/%%%%%%'' else dir @ ''%%%%%%'')
           in sys_text os (UniquePath unique)))"

section \<open>Laws\<close>

lemma wp_closefd [wp]:
  "wp (closefd fd) Q E s =
     (if fd = - 1 then Q (- 1) s else Q (- 1) (s\<lparr>hist := (Close fd, AUnit) # hist s\<rparr>))"
  by (simp add: closefd_def wp)

lemma closefd_result: "closefd fd s = Some (r, t) \<Longrightarrow> r = Inr (- 1)"
  by (auto simp: closefd_def seq_def bnd_def sys_do_def modify_def ret_def split: if_splits)

lemma returns_utils [returns]:
  "returns (closefd fd) s" "returns (write_file os p d) s" "returns (read_file os p) s"
  "returns (unique_path_in_dir os dir) s"
  by (auto simp: closefd_def write_file_def read_file_def unique_path_in_dir_def Let_def
      intro!: returns)

lemmas r_guarded [grow] = growth.r_on_block_exit growth.r_SafeExecute

lemma grow_utils [grow]:
  "obeys grows (closefd fd)" "obeys grows (write_file os p d)" "obeys grows (read_file os p)"
  "obeys grows (unique_path_in_dir os dir)"
  by (auto simp: closefd_def write_file_def read_file_def unique_path_in_dir_def Let_def
      intro!: grow)

text \<open>The events one file operation adds, on every way it can end.\<close>

lemma write_file_events:
  fixes path data
  defines "fo \<equiv> Fopen (c_str path) ''w''"
  shows "wp (write_file os path data)
     (\<lambda>_ t. \<exists>stream. stream \<noteq> - 1 \<and> hist t =
        [(Fclose stream, AUnit), (Fwrite stream data, AInt (int (length data))), (fo, AInt stream)] @ hist s)
     (\<lambda>a t. (\<exists>e. a = Raise (CAPIException (''fopen, w, '' @ path) e) \<and> hist t = (fo, AInt (- 1)) # hist s) \<or>
        (\<exists>e stream n. a = Raise (CAPIException ''fwrite'' e) \<and> stream \<noteq> - 1 \<and> n \<noteq> int (length data) \<and> hist t =
           [(Fclose stream, AUnit), (Fwrite stream data, AInt n), (fo, AInt stream)] @ hist s)) s"
  by (auto simp: write_file_def fo_def wp)

text \<open>
  C33: \<^verbatim>\<open>write_file\<close> always comes to an end; it ends normally exactly when the whole data went out in
  its one \<^verbatim>\<open>fwrite\<close>, it throws otherwise, and a stream it opened it has closed, once and last, on
  every way out.
\<close>

theorem write_file_outcome:
  "\<exists>r t stream n. write_file os path data s = Some (r, t) \<and>
     (stream = - 1 \<and> hist t = (Fopen (c_str path) ''w'', AInt (- 1)) # hist s \<and>
        (\<exists>e. r = Inl (Raise (CAPIException (''fopen, w, '' @ path) e))) \<or>
      stream \<noteq> - 1 \<and> hist t = [(Fclose stream, AUnit), (Fwrite stream data, AInt n),
          (Fopen (c_str path) ''w'', AInt stream)] @ hist s \<and>
        (if n = int (length data) then r = Inr () else \<exists>e. r = Inl (Raise (CAPIException ''fwrite'' e))))"
proof -
  have "returns (write_file os path data) s"
    by (rule returns)
  from wp_total [OF this write_file_events] show ?thesis
    by (elim disjE exE conjE) (auto simp: not_sym)
qed

lemma read_file_events:
  fixes path
  defines "fo \<equiv> Fopen (c_str path) ''r''"
  shows "wp (read_file os path)
     (\<lambda>d t. \<exists>stream size b. stream \<noteq> - 1 \<and> 0 \<le> size \<and> length b \<le> nat size \<and>
        d = b @ replicate (nat size - length b) CHR 0x00 \<and>
        hist t = [(Fclose stream, AUnit), (Ferror stream, AInt 0), (Fread stream (nat size), ABytes (Some b)),
          (Rewind stream, AUnit), (Ftell stream, AInt size), (Fseek stream, AUnit), (fo, AInt stream)] @ hist s)
     (\<lambda>a t. (\<exists>e. a = Raise (CAPIException (''fopen, r, '' @ path) e) \<and> hist t = (fo, AInt (- 1)) # hist s) \<or>
        (\<exists>e stream es. a \<in> {Raise length_error, Raise (CAPIException ''fread'' e)} \<and> stream \<noteq> - 1 \<and>
          hist t = (Fclose stream, AUnit) # es @ (fo, AInt stream) # hist s)) s"
proof (cases "int_of os (hist s) fo = - 1")
  case True
  then show ?thesis
    by (simp add: read_file_def wp fo_def)
next
  case False
  let ?st = "int_of os (hist s) fo"
  let ?h = "(Fseek ?st, AUnit) # (fo, AInt ?st) # hist s"
  let ?n = "int_of os ?h (Ftell ?st)"
  let ?h2 = "(Rewind ?st, AUnit) # (Ftell ?st, AInt ?n) # ?h"
  define b where "b = (case bytes_of os ?h2 (Fread ?st (nat ?n)) of None \<Rightarrow> [] | Some d \<Rightarrow> take (nat ?n) d)"
  have b: "length b \<le> nat ?n"
    by (simp add: b_def split: option.split)
  show ?thesis
    using False b unfolding read_file_def
    by (simp add: wp Let_def fo_def [symmetric] b_def [symmetric])
qed

text \<open>
  \<^verbatim>\<open>read_file\<close> always comes to an end. A result has exactly the size the file reported: the
  bytes \<^verbatim>\<open>fread\<close> delivered, filled up with NUL bytes; and a stream it opened it has closed, last, on
  every way out, errors included.
\<close>

lemma read_file_outcome:
  "\<exists>r t es stream. read_file os path s = Some (r, t) \<and>
     hist t = es @ (Fopen (c_str path) ''r'', AInt stream) # hist s \<and>
     (if stream = - 1 then es = [] else hd es = (Fclose stream, AUnit) \<and> es \<noteq> []) \<and>
     (case r of
        Inl a \<Rightarrow> \<exists>e. a = Raise e
      | Inr d \<Rightarrow> \<exists>size b. (Ftell stream, AInt size) \<in> set es \<and>
          (Fread stream (nat size), ABytes (Some b)) \<in> set es \<and> length d = nat size \<and>
          d = b @ replicate (nat size - length b) CHR 0x00)"
proof -
  have "returns (read_file os path) s"
    by (rule returns)
  from wp_total [OF this read_file_events] show ?thesis
  proof (elim disjE exE conjE)
    fix d t stream size b
    assume "read_file os path s = Some (Inr d, t)" and "stream \<noteq> - 1" "0 \<le> size" "length b \<le> nat size"
      "d = b @ replicate (nat size - length b) CHR 0x00"
      "hist t = [(Fclose stream, AUnit), (Ferror stream, AInt 0), (Fread stream (nat size), ABytes (Some b)),
          (Rewind stream, AUnit), (Ftell stream, AInt size), (Fseek stream, AUnit),
          (Fopen (c_str path) ''r'', AInt stream)] @ hist s"
    then show ?thesis
      by (intro exI [of _ "Inr d"] exI [of _ t] exI [of _ "[(Fclose stream, AUnit), (Ferror stream, AInt 0),
          (Fread stream (nat size), ABytes (Some b)), (Rewind stream, AUnit), (Ftell stream, AInt size),
          (Fseek stream, AUnit)]"] exI [of _ stream])
        (auto intro!: exI [of _ size] exI [of _ b])
  next
    fix a t e
    assume "read_file os path s = Some (Inl a, t)" "a = Raise (CAPIException (''fopen, r, '' @ path) e)"
      "hist t = (Fopen (c_str path) ''r'', AInt (- 1)) # hist s"
    then show ?thesis
      by (intro exI [of _ "Inl a"] exI [of _ t] exI [of _ "[]"] exI [of _ "- 1"]) simp
  next
    fix a t e stream es
    assume "read_file os path s = Some (Inl a, t)" "stream \<noteq> - 1"
      "a \<in> {Raise length_error, Raise (CAPIException ''fread'' e)}"
      "hist t = (Fclose stream, AUnit) # es @ (Fopen (c_str path) ''r'', AInt stream) # hist s"
    then show ?thesis
      by (intro exI [of _ "Inl a"] exI [of _ t] exI [of _ "(Fclose stream, AUnit) # es"] exI [of _ stream]) auto
  qed
qed

end
