(* ===== verification/Globals.thy ===== *)
theory Globals
  imports Prelude
begin

text \<open>
  The paths and sizes of \<^verbatim>\<open>src/src/global.h\<close>.
\<close>

definition BUFSIZE :: nat where
  "BUFSIZE = 1024"

definition CGMemoryRoot :: string where
  "CGMemoryRoot = ''/sys/fs/cgroup/memory/srund''"

definition pidfile :: string where
  "pidfile = ''/var/run/srund/srund.pid''"

definition sockfile :: string where
  "sockfile = ''/var/run/srund/srund.sock''"

definition lockfile :: string where
  "lockfile = ''/var/run/srund/srund.lock''"

definition tmpfs :: string where
  "tmpfs = ''/var/cache/srund.tmpfs''"

definition find_paths :: "string list" where
  "find_paths = [''/usr/local/bin/'', ''/usr/bin/'', ''/bin/'', ''/usr/local/sbin/'',
     ''/usr/sbin/'', ''/sbin/'']"

definition confpath :: string where
  "confpath = ''/etc/srund/srund.conf''"

definition confdir :: string where
  "confdir = ''/etc/srund/srund.d''"

lemma find_paths_absolute: "p \<in> set find_paths \<Longrightarrow> \<exists>r. p = CHR ''/'' # r"
  by (auto simp: find_paths_def)

end
