(* ===== verification/Config.thy ===== *)
theory Config
  imports Utils Globals "HOL-Library.Char_ord" "HOL-Library.List_Lexorder"
begin

text \<open>
  \<^verbatim>\<open>src/src/config.cpp\<close>: the key files the daemon reads at its start, kept in a \<^verbatim>\<open>std::map\<close> from
  path to key file, and the filling of a request from the group its \<^verbatim>\<open>model\<close> names. The key-file
  functions of glib are the parameter \<open>glib\<close>; a lookup that sets the \<^verbatim>\<open>GError\<close> is \<open>None\<close>.
\<close>

section \<open>The glib functions used\<close>

record 'k glib =
  kf_load :: "event list \<Rightarrow> string \<Rightarrow> 'k option"
  kf_has_group :: "'k \<Rightarrow> string \<Rightarrow> bool"
  kf_int :: "'k \<Rightarrow> string \<Rightarrow> string \<Rightarrow> int option"
  kf_str :: "'k \<Rightarrow> string \<Rightarrow> string \<Rightarrow> string option"
  kf_bool :: "'k \<Rightarrow> string \<Rightarrow> string \<Rightarrow> bool option"

definition load_key_file :: "'k glib \<Rightarrow> string \<Rightarrow> ('z sys_scheme, 'k option) prog" where
  "load_key_file g path = bnd (get hist) (\<lambda>h.
     seq (sys_do (LoadKeyFile (c_str path))) (ret (kf_load g h (c_str path))))"

section \<open>std::map as the sources use it\<close>

text \<open>
  \<^verbatim>\<open>insert\<close> leaves an existing entry alone; iteration is in the order of the keys, which for
  strings is lexicographic by byte.
\<close>

fun map_insert :: "string \<Rightarrow> 'v \<Rightarrow> (string \<times> 'v) list \<Rightarrow> (string \<times> 'v) list" where
  "map_insert k v [] = [(k, v)]"
| "map_insert k v ((k', v') # m) =
     (if k < k' then (k, v) # (k', v') # m
      else if k = k' then (k', v') # m
      else (k', v') # map_insert k v m)"

definition map_ok :: "(string \<times> 'v) list \<Rightarrow> bool" where
  "map_ok m \<longleftrightarrow> sorted (map fst m) \<and> distinct (map fst m)"

section \<open>Construction\<close>

primrec load_dir ::
  "os \<Rightarrow> 'k glib \<Rightarrow> string list \<Rightarrow> (string \<times> 'k) list \<Rightarrow> ('z sys_scheme, (string \<times> 'k) list) prog"
where
  "load_dir os g [] m = ret m"
| "load_dir os g (p # ps) m =
     bnd (sys_bool os (IsRegularFile p)) (\<lambda>regular.
     if \<not> regular then load_dir os g ps m
     else bnd (load_key_file g p) (\<lambda>kf. case kf of
         None \<Rightarrow> load_dir os g ps m
       | Some k \<Rightarrow> load_dir os g ps (map_insert p k m)))"

definition Config :: "os \<Rightarrow> 'k glib \<Rightarrow> ('z sys_scheme, (string \<times> 'k) list) prog" where
  "Config os g =
     bnd (sys_bool os (Exists confpath)) (\<lambda>there.
     seq (ThrowLogicIf (\<not> there) ''Default config file lost'')
     (bnd (sys_bool os (Exists confpath)) (\<lambda>there2.
      bnd (if there2
           then bnd (load_key_file g confpath) (\<lambda>kf. case kf of
                  None \<Rightarrow> ret []
                | Some k \<Rightarrow> ret (map_insert confpath k []))
           else ret []) (\<lambda>m.
      bnd (sys_bool os (IsDirectory confdir)) (\<lambda>isdir.
      if \<not> isdir then ret m
      else bnd (sys_names os (ListDir confdir)) (\<lambda>ps. load_dir os g ps m))))))"

section \<open>Filling a request\<close>

definition set_outmode :: "string \<Rightarrow> outmode \<Rightarrow> outmode" where
  "set_outmode gstr old = (if gstr = ''IGN'' then IGN else if gstr = ''MSG'' then MSG
     else if gstr = ''FILE'' then FILE else old)"

text \<open>
  The loop over \<^verbatim>\<open>env1\<close>, \<^verbatim>\<open>env2\<close>, ... as it is written: \<^verbatim>\<open>n\<close> is not changed in the loop. \<open>None\<close>
  is a loop that does not end.
\<close>

partial_function (option) env_loop ::
  "'k glib \<Rightarrow> 'k \<Rightarrow> string \<Rightarrow> int \<Rightarrow> request \<Rightarrow> request option" where
  "env_loop g keyfile grp n rq = (case kf_str g keyfile grp (''env'' @ to_string n) of
      None \<Rightarrow> Some rq
    | Some gstr \<Rightarrow> env_loop g keyfile grp n (rq\<lparr>rq_envs := rq_envs rq @ [gstr]\<rparr>))"

text \<open>The field is set when the lookup succeeds.\<close>

definition if_set :: "'a option \<Rightarrow> ('a \<Rightarrow> request \<Rightarrow> request) \<Rightarrow> request \<Rightarrow> request" where
  "if_set found upd rq = (case found of None \<Rightarrow> rq | Some v \<Rightarrow> upd v rq)"

definition fillRequest :: "'k glib \<Rightarrow> 'k \<Rightarrow> string \<Rightarrow> request \<Rightarrow> request option" where
  "fillRequest g keyfile name rq0 =
     (let grp = c_str name;
          int_key = kf_int g keyfile grp;
          str_key = kf_str g keyfile grp;
          bool_key = kf_bool g keyfile grp;
          rq1 = if_set (int_key ''timeout'') (\<lambda>v r. r\<lparr>rq_timeout := v\<rparr>) rq0;
          rq2 = if_set (str_key ''user'') (\<lambda>v r. r\<lparr>rq_user := v\<rparr>) rq1;
          rq3 = if_set (str_key ''chroot'') (\<lambda>v r. r\<lparr>rq_chroot := v\<rparr>) rq2;
          rq4 = if_set (str_key ''outmode'')
                  (\<lambda>v r. r\<lparr>rq_outmode := set_outmode v (rq_outmode r)\<rparr>) rq3;
          rq5 = if_set (str_key ''errmode'')
                  (\<lambda>v r. r\<lparr>rq_errmode := set_outmode v (rq_errmode r)\<rparr>) rq4;
          rq6 = if_set (str_key ''outfile'') (\<lambda>v r. r\<lparr>rq_outfile := v\<rparr>) rq5;
          rq7 = if_set (str_key ''errfile'') (\<lambda>v r. r\<lparr>rq_errfile := v\<rparr>) rq6;
          rq8 = if_set (bool_key ''network'') (\<lambda>v r. r\<lparr>rq_network := v\<rparr>) rq7;
          rq9 = if_set (bool_key ''backend'') (\<lambda>v r. r\<lparr>rq_backend := v\<rparr>) rq8;
          rq10 = if_set (int_key ''nice'') (\<lambda>v r. r\<lparr>rq_nice := v\<rparr>) rq9;
          rq11 = if_set (str_key ''memlimit'') (\<lambda>v r. r\<lparr>rq_memlimit := v\<rparr>) rq10;
          rq12 = if_set (str_key ''memswlimit'') (\<lambda>v r. r\<lparr>rq_memswlimit := v\<rparr>) rq11
      in env_loop g keyfile grp 1 rq12)"

definition loadRequest :: "'k glib \<Rightarrow> (string \<times> 'k) list \<Rightarrow> request \<Rightarrow> (bool \<times> request) option" where
  "loadRequest g keyfiles rq =
     (if rq_model rq = [] then Some (True, rq)
      else case find (\<lambda>kf. kf_has_group g (snd kf) (c_str (rq_model rq))) keyfiles of
        Some kf \<Rightarrow> map_option (Pair True) (fillRequest g (snd kf) (rq_model rq) rq)
      | None \<Rightarrow> Some (False, rq))"

definition loadRequest_file ::
  "'k glib \<Rightarrow> string \<Rightarrow> request \<Rightarrow> 'z sys_scheme \<Rightarrow> ((bool \<times> request) outcome \<times> 'z sys_scheme) option"
where
  "loadRequest_file g file rq =
     (if rq_model rq = [] then ret (True, rq)
      else bnd (load_key_file g file) (\<lambda>kf. case kf of
          None \<Rightarrow> ret (False, rq)
        | Some k \<Rightarrow> (\<lambda>s. case fillRequest g k (rq_model rq) rq of
              None \<Rightarrow> None
            | Some rq' \<Rightarrow> ret (True, rq') s)))"

section \<open>The map interface\<close>

text \<open>
  What the constructor and the search rely on: inserting keeps the map well formed and adds an
  entry only where there was none. Then the first insertion of each key is the one found.
\<close>

locale insert_only_map =
  fixes ins :: "'a \<Rightarrow> 'v \<Rightarrow> 'm \<Rightarrow> 'm" and lookup :: "'m \<Rightarrow> 'a \<rightharpoonup> 'v" and ok :: "'m \<Rightarrow> bool"
  assumes ins_ok: "ok m \<Longrightarrow> ok (ins k v m)"
    and lookup_ins: "ok m \<Longrightarrow> lookup (ins k v m) = (if lookup m k = None then (lookup m)(k \<mapsto> v) else lookup m)"
begin

lemma lookup_kept: "ok m \<Longrightarrow> lookup m k = Some v \<Longrightarrow> lookup (ins k' v' m) k = Some v"
  by (auto simp: lookup_ins)

lemma ins_all_ok: "ok m \<Longrightarrow> ok (fold (\<lambda>(k, v). ins k v) xs m)"
  by (induction xs arbitrary: m) (auto simp: ins_ok)

lemma lookup_ins_all:
  "ok m \<Longrightarrow> lookup (fold (\<lambda>(k, v). ins k v) xs m) = map_of xs ++ lookup m"
  by (induction xs arbitrary: m)
    (auto simp: ins_ok lookup_ins map_add_def fun_eq_iff split: option.splits)

lemma dom_ins: "ok m \<Longrightarrow> dom (lookup (ins k v m)) = insert k (dom (lookup m))"
  by (auto simp: lookup_ins split: if_splits)

end

lemma map_insert_keys: "set (map fst (map_insert k v m)) = insert k (set (map fst m))"
  by (induction k v m rule: map_insert.induct) auto

lemma map_insert_ok: "map_ok m \<Longrightarrow> map_ok (map_insert k v m)"
proof (induction k v m rule: map_insert.induct)
  case (2 k v k' v' m)
  have keys: "fst ` set (map_insert k v m) = insert k (fst ` set m)"
    using map_insert_keys [of k v m] by simp
  from 2 show ?case
    by (auto simp: map_ok_def keys)
qed (simp add: map_ok_def)

lemma map_of_map_insert:
  "map_ok m \<Longrightarrow> map_of (map_insert k v m) = (if map_of m k = None then (map_of m)(k \<mapsto> v) else map_of m)"
proof (induction k v m rule: map_insert.induct)
  case (2 k v k' v' m)
  show ?case
  proof (cases "k < k'")
    case True
    with "2.prems" have "k \<notin> insert k' (set (map fst m))"
      by (auto simp: map_ok_def)
    then show ?thesis
      using True by (simp add: map_of_eq_None_iff)
  next
    case False
    with 2 show ?thesis
      by (auto simp: map_ok_def)
  qed
qed simp

interpretation keymap: insert_only_map map_insert map_of map_ok
  by unfold_locales (auto simp: map_insert_ok map_of_map_insert)

section \<open>What construction gives\<close>

definition extended :: "string set \<Rightarrow> (string \<times> 'k) list \<Rightarrow> (string \<times> 'k) list \<Rightarrow> bool" where
  "extended ps m m' \<longleftrightarrow>
     map_ok m' \<and> fst ` set m' \<subseteq> fst ` set m \<union> ps \<and> map_of m \<subseteq>\<^sub>m map_of m'"

lemma extended_refl: "map_ok m \<Longrightarrow> extended ps m m"
  by (simp add: extended_def)

lemma extended_skip: "extended ps m m' \<Longrightarrow> extended (insert p ps) m m'"
  by (auto simp: extended_def)

lemma extended_insert:
  assumes "map_ok m" and "extended ps (map_insert p k m) m'"
  shows "extended (insert p ps) m m'"
proof -
  have "fst ` set (map_insert p k m) = insert p (fst ` set m)"
    using map_insert_keys [of p k m] by simp
  moreover have "map_of m \<subseteq>\<^sub>m map_of (map_insert p k m)"
    using assms(1) by (auto simp: map_le_def keymap.lookup_ins)
  ultimately show ?thesis
    using assms(2) by (auto simp: extended_def intro: map_le_trans)
qed

lemma load_dir_spec:
  fixes s :: "'z sys_scheme"
  shows "map_ok m \<Longrightarrow> wp (load_dir os g ps m) (\<lambda>m' _. extended (set ps) m m') (\<lambda>_ _. True) s"
proof (induction ps arbitrary: m s)
  case (Cons p ps)
  have skip: "wp (load_dir os g ps m) (\<lambda>m' _. extended (insert p (set ps)) m m') (\<lambda>_ _. True) u" for u :: "'z sys_scheme"
    by (rule wp_mono [OF Cons.IH [OF Cons.prems]]) (simp_all add: extended_skip)
  have add: "wp (load_dir os g ps (map_insert p k m)) (\<lambda>m' _. extended (insert p (set ps)) m m')
      (\<lambda>_ _. True) u" for k and u :: "'z sys_scheme"
    by (rule wp_mono [OF Cons.IH [OF map_insert_ok [OF Cons.prems]]])
      (simp_all add: extended_insert [OF Cons.prems])
  show ?case
    by (simp add: load_key_file_def wp skip add split: option.split)
qed (simp add: wp extended_refl)

text \<open>\<^verbatim>\<open>directory_iterator\<close> yields paths below the directory it is given.\<close>

definition dir_paths :: "os \<Rightarrow> bool" where
  "dir_paths os \<longleftrightarrow> (\<forall>h d ps. names_of os h (ListDir d) = Some ps \<longrightarrow> (\<forall>p\<in>set ps. \<exists>n. p = d @ ''/'' @ n))"

lemma confpath_before_confdir: "confpath < confdir @ ''/'' @ n"
  by (simp add: confpath_def confdir_def)

text \<open>The map of key files, with no key below that of the main file.\<close>

definition main_first :: "(string \<times> 'k) list \<Rightarrow> bool" where
  "main_first m \<longleftrightarrow> map_ok m \<and> (\<forall>k\<in>fst ` set m. confpath \<le> k)"

lemma Config_wp:
  fixes s :: "'z sys_scheme" and g :: "'k glib"
  assumes "dir_paths os"
  shows "wp (Config os g) (\<lambda>m _. main_first m) (\<lambda>_ _. True) s"
proof -
  have ok: "map_ok ([] :: (string \<times> 'k) list)" "map_ok [(confpath, k)]"
    "main_first ([] :: (string \<times> 'k) list)" "main_first [(confpath, k)]" for k :: 'k
    by (simp_all add: main_first_def map_ok_def)
  have dir: "wp (load_dir os g ps m) (\<lambda>m _. main_first m)
      (\<lambda>_ _. True) t"
    if ps: "names_of os h (ListDir confdir) = Some ps" and m: "map_ok m" "fst ` set m \<subseteq> {confpath}"
    for h ps m and t :: "'z sys_scheme"
  proof (rule wp_mono [OF load_dir_spec [OF m(1)]])
    fix m' :: "(string \<times> 'k) list"
    assume m': "extended (set ps) m m'"
    have "confpath \<le> p" if p: "p \<in> set ps" for p
    proof -
      obtain n where "p = confdir @ ''/'' @ n"
        using assms ps p unfolding dir_paths_def by blast
      then show ?thesis
        using confpath_before_confdir [of n] by (simp only: less_imp_le)
    qed
    note below = this
    have sub: "fst ` set m' \<subseteq> {confpath} \<union> set ps"
      using m' m(2) unfolding extended_def by blast
    have "\<forall>k\<in>fst ` set m'. confpath \<le> k"
    proof
      fix k assume "k \<in> fst ` set m'"
      with sub have "k = confpath \<or> k \<in> set ps"
        by blast
      then show "confpath \<le> k"
        by (elim disjE) (simp_all add: below)
    qed
    with m' show "main_first m'"
      by (simp add: main_first_def extended_def)
  qed simp
  show ?thesis
    by (auto simp: Config_def load_key_file_def wp ok split: option.splits intro!: dir)
qed

lemma sorted_head:
  assumes "map_ok m" and "\<forall>k'\<in>fst ` set m. k \<le> k'" and "map_of m k = Some v"
  shows "\<exists>rest. m = (k, v) # rest"
proof (cases m)
  case (Cons e rest)
  from assms(3) have "k \<in> fst ` set m"
    by (auto dest: map_of_SomeD intro: image_eqI [of _ _ "(k, v)"])
  then have "fst e \<le> k"
    using assms(1) Cons by (auto simp: map_ok_def)
  moreover have "k \<le> fst e"
    using assms(2) Cons by simp
  ultimately show ?thesis
    using assms(3) Cons by (cases e) simp
qed (use assms in simp)

section \<open>What filling a request does\<close>

lemma env_loop_absent:
  "env_loop g k grp n rq = Some rq' \<Longrightarrow> kf_str g k grp (''env'' @ to_string n) = None"
  by (rule env_loop.raw_induct [where P = "\<lambda>g k grp n rq _.
        kf_str g k grp (''env'' @ to_string n) = None", rotated]) (auto split: option.splits)

lemma env_loop_run: "env_loop g k grp n rq = (case kf_str g k grp (''env'' @ to_string n) of
    None \<Rightarrow> Some rq | Some _ \<Rightarrow> None)"
proof (cases "kf_str g k grp (''env'' @ to_string n)")
  case (Some v)
  then have "env_loop g k grp n rq \<noteq> Some rq'" for rq'
    by (auto dest: env_loop_absent)
  then show ?thesis
    using Some by (cases "env_loop g k grp n rq") auto
qed (simp add: env_loop.simps)

definition pick :: "'a \<Rightarrow> 'a option \<Rightarrow> 'a" where
  "pick old found = (case found of None \<Rightarrow> old | Some v \<Rightarrow> v)"

definition pick_mode :: "outmode \<Rightarrow> string option \<Rightarrow> outmode" where
  "pick_mode old found = (case found of None \<Rightarrow> old | Some v \<Rightarrow> set_outmode v old)"

text \<open>
  The request that \<^verbatim>\<open>etc/srund.conf\<close> promises for a group without environment keys: a key that is
  set replaces the field, a key that is not set leaves it.
\<close>

definition overlay :: "'k glib \<Rightarrow> 'k \<Rightarrow> string \<Rightarrow> request \<Rightarrow> request" where
  "overlay g k grp rq = \<lparr>
     rq_args = rq_args rq,
     rq_model = rq_model rq,
     rq_timeout = pick (rq_timeout rq) (kf_int g k grp ''timeout''),
     rq_user = pick (rq_user rq) (kf_str g k grp ''user''),
     rq_chroot = pick (rq_chroot rq) (kf_str g k grp ''chroot''),
     rq_outmode = pick_mode (rq_outmode rq) (kf_str g k grp ''outmode''),
     rq_errmode = pick_mode (rq_errmode rq) (kf_str g k grp ''errmode''),
     rq_outfile = pick (rq_outfile rq) (kf_str g k grp ''outfile''),
     rq_errfile = pick (rq_errfile rq) (kf_str g k grp ''errfile''),
     rq_network = pick (rq_network rq) (kf_bool g k grp ''network''),
     rq_backend = pick (rq_backend rq) (kf_bool g k grp ''backend''),
     rq_nice = pick (rq_nice rq) (kf_int g k grp ''nice''),
     rq_memlimit = pick (rq_memlimit rq) (kf_str g k grp ''memlimit''),
     rq_memswlimit = pick (rq_memswlimit rq) (kf_str g k grp ''memswlimit''),
     rq_envs = rq_envs rq\<rparr>"

lemma if_set_fields:
  "if_set o1 (\<lambda>v r. r\<lparr>rq_timeout := v\<rparr>) rq = rq_timeout_update (\<lambda>old. pick old o1) rq"
  "if_set o2 (\<lambda>v r. r\<lparr>rq_user := v\<rparr>) rq = rq_user_update (\<lambda>old. pick old o2) rq"
  "if_set o2 (\<lambda>v r. r\<lparr>rq_chroot := v\<rparr>) rq = rq_chroot_update (\<lambda>old. pick old o2) rq"
  "if_set o2 (\<lambda>v r. r\<lparr>rq_outmode := set_outmode v (rq_outmode r)\<rparr>) rq =
     rq_outmode_update (\<lambda>old. pick_mode old o2) rq"
  "if_set o2 (\<lambda>v r. r\<lparr>rq_errmode := set_outmode v (rq_errmode r)\<rparr>) rq =
     rq_errmode_update (\<lambda>old. pick_mode old o2) rq"
  "if_set o2 (\<lambda>v r. r\<lparr>rq_outfile := v\<rparr>) rq = rq_outfile_update (\<lambda>old. pick old o2) rq"
  "if_set o2 (\<lambda>v r. r\<lparr>rq_errfile := v\<rparr>) rq = rq_errfile_update (\<lambda>old. pick old o2) rq"
  "if_set o3 (\<lambda>v r. r\<lparr>rq_network := v\<rparr>) rq = rq_network_update (\<lambda>old. pick old o3) rq"
  "if_set o3 (\<lambda>v r. r\<lparr>rq_backend := v\<rparr>) rq = rq_backend_update (\<lambda>old. pick old o3) rq"
  "if_set o1 (\<lambda>v r. r\<lparr>rq_nice := v\<rparr>) rq = rq_nice_update (\<lambda>old. pick old o1) rq"
  "if_set o2 (\<lambda>v r. r\<lparr>rq_memlimit := v\<rparr>) rq = rq_memlimit_update (\<lambda>old. pick old o2) rq"
  "if_set o2 (\<lambda>v r. r\<lparr>rq_memswlimit := v\<rparr>) rq = rq_memswlimit_update (\<lambda>old. pick old o2) rq"
  by (cases o1; cases o2; cases o3; simp add: if_set_def pick_def pick_mode_def)+

lemma to_string_1: "to_string 1 = ''1''"
  by code_simp

text \<open>
  C25: filling a request from a group replaces exactly the fields whose key is set (an output mode
  that is none of the three names leaves the mode) and leaves every other field, the arguments,
  the model and the environment alone; and it never returns when the group has a key
  \<^verbatim>\<open>env1\<close>, because the loop over the environment keys does not advance its counter.
\<close>

theorem fillRequest_overlay:
  "fillRequest g k name rq =
     (if kf_str g k (c_str name) ''env1'' = None then Some (overlay g k (c_str name) rq) else None)"
proof -
  have "fillRequest g k name rq = env_loop g k (c_str name) 1 (overlay g k (c_str name) rq)"
    unfolding fillRequest_def if_set_fields by (cases rq) (simp add: Let_def overlay_def)
  then show ?thesis
    by (auto simp: env_loop_run to_string_1 split: option.splits)
qed

text \<open>
  C26: the main configuration file has precedence: whatever other key files the daemon found, a
  request whose group the main file has is filled from the main file.
\<close>

theorem loadRequest_main_file:
  assumes "dir_paths os" and "Config os g s = Some (Inr keyfiles, t)"
    and "map_of keyfiles confpath = Some k" and "kf_has_group g k (c_str (rq_model rq))"
    and "rq_model rq \<noteq> []"
  shows "loadRequest g keyfiles rq = map_option (Pair True) (fillRequest g k (rq_model rq) rq)"
proof -
  from wpD [OF Config_wp [OF assms(1)] assms(2)]
  have "map_ok keyfiles" "\<forall>k\<in>fst ` set keyfiles. confpath \<le> k"
    by (simp_all add: main_first_def)
  from sorted_head [OF this assms(3)]
  obtain rest where "keyfiles = (confpath, k) # rest" ..
  then show ?thesis
    using assms(4,5) by (simp add: loadRequest_def)
qed

text \<open>Witness: one main file, whose only group has a timeout.\<close>

definition one_group :: "nat glib" where
  "one_group = \<lparr>kf_load = (\<lambda>_ _. Some 1), kf_has_group = (\<lambda>_ grp. grp = ''g''),
     kf_int = (\<lambda>_ _ key. if key = ''timeout'' then Some 5 else None),
     kf_str = (\<lambda>_ _ _. None), kf_bool = (\<lambda>_ _ _. None)\<rparr>"

theorem loadRequest_main_file_witness:
  "loadRequest one_group [(confpath, 1)] (request0\<lparr>rq_model := ''g''\<rparr>) =
     map_option (Pair True) (fillRequest one_group 1 ''g'' (request0\<lparr>rq_model := ''g''\<rparr>))"
proof -
  let ?s = "\<lparr>hist = [], errno = 0\<rparr>"
  have "dir_paths calm"
    by (simp add: dir_paths_def)
  moreover have "\<exists>t. Config calm one_group ?s = Some (Inr [(confpath, 1)], t)"
    by (simp add: Config_def bnd_def seq_def sys_bool_def ThrowLogicIf_def ret_def Let_def
        load_key_file_def get_def sys_do_def modify_def one_group_def sys_names_def)
  ultimately show ?thesis
    using loadRequest_main_file [where keyfiles = "[(confpath, 1)]" and g = one_group and k = 1
        and rq = "request0\<lparr>rq_model := ''g''\<rparr>" and os = calm and s = ?s]
    by (auto simp: one_group_def c_str_def)
qed

end
