(* ===== verification/Output.thy ===== *)
theory Output
  imports Config
begin

text \<open>
  \<^verbatim>\<open>src/src/output.cpp\<close>: one of the two outputs (stdout, stderr) of the command. It is ignored,
  collected in memory to be sent back, or copied to a file. The operations run on the record
  extended by the output object, which the manager embeds into its own state.
\<close>

section \<open>State\<close>

record outp =
  mode :: outmode
  pipefd0 :: int
  pipefd1 :: int
  redirect_to :: string
  redirect_fd :: int
  over :: bool
  str :: string

record ost = sys +
  obj :: outp

definition Output :: outp where
  "Output = \<lparr>mode = IGN, pipefd0 = - 1, pipefd1 = - 1, redirect_to = [], redirect_fd = - 1,
     over = False, str = []\<rparr>"

definition upd :: "(outp \<Rightarrow> outp) \<Rightarrow> (ost, unit) prog" where
  "upd f = modify (\<lambda>s. s\<lparr>obj := f (obj s)\<rparr>)"

definition fld :: "(outp \<Rightarrow> 'a) \<Rightarrow> (ost, 'a) prog" where
  "fld f = get (\<lambda>s. f (obj s))"

lemma wp_upd [wp]: "wp (upd f) Q E s = Q () (s\<lparr>obj := f (obj s)\<rparr>)"
  by (simp add: upd_def wp)

lemma wp_fld [wp]: "wp (fld f) Q E s = Q (f (obj s)) s"
  by (simp add: fld_def wp)

section \<open>Operations\<close>

definition close_pipe0 :: "(ost, unit) prog" where
  "close_pipe0 = bnd (fld pipefd0) (\<lambda>fd. bnd (closefd fd) (\<lambda>v. upd (\<lambda>o'. o'\<lparr>pipefd0 := v\<rparr>)))"

definition close_pipe1 :: "(ost, unit) prog" where
  "close_pipe1 = bnd (fld pipefd1) (\<lambda>fd. bnd (closefd fd) (\<lambda>v. upd (\<lambda>o'. o'\<lparr>pipefd1 := v\<rparr>)))"

definition close_redirect :: "(ost, unit) prog" where
  "close_redirect =
     bnd (fld redirect_fd) (\<lambda>fd. bnd (closefd fd) (\<lambda>v. upd (\<lambda>o'. o'\<lparr>redirect_fd := v\<rparr>)))"

text \<open>The destructor.\<close>

definition destroy :: "(ost, unit) prog" where
  "destroy = seq close_pipe0 (seq close_pipe1 close_redirect)"

text \<open>\<^verbatim>\<open>pipe(pipefd)\<close> writes the array only when it succeeds.\<close>

definition make_pipe :: "os \<Rightarrow> (ost, unit) prog" where
  "make_pipe os = bnd (sys_pipe os) (\<lambda>(n, a, b).
     seq (whenp (n \<noteq> - 1) (upd (\<lambda>o'. o'\<lparr>pipefd0 := a, pipefd1 := b\<rparr>)))
       (ThrowCAPIExceptionIf (- 1 = n) ''pipe''))"

definition load :: "os \<Rightarrow> outmode \<Rightarrow> string \<Rightarrow> bool \<Rightarrow> (ost, unit) prog" where
  "load os m path backend =
     seq (upd (\<lambda>o'. o'\<lparr>mode := m\<rparr>))
     (seq (upd (\<lambda>o'. o'\<lparr>redirect_to := path\<rparr>))
       (case m of
          MSG \<Rightarrow> whenp (\<not> backend) (make_pipe os)
        | FILE \<Rightarrow> bnd (sys_bool os (Exists path)) (\<lambda>there.
            seq (ThrowRuntimeIf (\<not> there) ''redirect_to path doesn't exist.'') (make_pipe os))
        | IGN \<Rightarrow> ret ()))"

definition dup :: "os \<Rightarrow> int \<Rightarrow> (ost, unit) prog" where
  "dup os fd =
     bnd (fld pipefd0) (\<lambda>p0.
     bnd (if p0 \<noteq> - 1 then seq close_pipe0 (fld pipefd1)
          else sys_int os (Open ''/dev/null'' [O_WRONLY])) (\<lambda>target_fd.
     seq (sys_do (Dup2 target_fd fd))
       (bnd (closefd target_fd) (\<lambda>_. ret ()))))"

definition bind :: "os \<Rightarrow> int \<Rightarrow> (ost, unit) prog" where
  "bind os epollfd =
     bnd (fld pipefd0) (\<lambda>p0.
     if p0 \<noteq> - 1 then
       bnd (fld mode) (\<lambda>m.
       bnd (fld redirect_to) (\<lambda>path.
       seq (whenp (m = FILE)
             (bnd (sys_int os (Open (c_str path) [O_WRONLY, O_TRUNC])) (\<lambda>fd.
              seq (upd (\<lambda>o'. o'\<lparr>redirect_fd := fd\<rparr>))
                (ThrowCAPIExceptionIf (- 1 = fd) (''open '' @ path)))))
       (seq close_pipe1
       (seq (sys_do (FcntlNonblock p0))
       (bnd (sys_int os (EpollCtl epollfd EPOLL_CTL_ADD p0)) (\<lambda>n.
        ThrowCAPIExceptionIf (- 1 = n) ''epoll_ctl''))))))
     else upd (\<lambda>o'. o'\<lparr>over := True\<rparr>))"

text \<open>
  The two reading loops of \<^verbatim>\<open>receive\<close>, with the running total of bytes read; the result is
  whether the limit was hit, and the total.
\<close>

partial_function (option) msg_loop :: "os \<Rightarrow> int \<Rightarrow> (ost, bool \<times> int) prog" where
  "msg_loop os tot s =
     bnd (fld pipefd0) (\<lambda>fd. bnd (sys_read os fd BUFSIZE) (\<lambda>r. case r of
         None \<Rightarrow> ret (False, tot)
       | Some buffer \<Rightarrow>
           if buffer = [] then ret (False, tot)
           else bnd (add_int tot (int (length buffer))) (\<lambda>tot'. bnd (fld str) (\<lambda>old.
             if 2 ^ 23 \<le> length old then ret (True, tot')
             else seq (upd (\<lambda>o'. o'\<lparr>str := str o' @ buffer\<rparr>)) (msg_loop os tot'))))) s"

text \<open>
  The file loop asks for the offset and compares it as the source does:
  \<^verbatim>\<open>offset == -1 && offset >= (1 << 25)\<close>.
\<close>

definition file_overlimit :: "int \<Rightarrow> bool" where
  "file_overlimit offset \<longleftrightarrow> offset = - 1 \<and> offset \<ge> 2 ^ 25"

partial_function (option) file_loop :: "os \<Rightarrow> int \<Rightarrow> (ost, bool \<times> int) prog" where
  "file_loop os tot s =
     bnd (fld pipefd0) (\<lambda>fd. bnd (sys_read os fd BUFSIZE) (\<lambda>r. case r of
         None \<Rightarrow> ret (False, tot)
       | Some buffer \<Rightarrow>
           if buffer = [] then ret (False, tot)
           else bnd (add_int tot (int (length buffer))) (\<lambda>tot'.
             bnd (fld redirect_fd) (\<lambda>rfd. bnd (sys_int os (Lseek rfd)) (\<lambda>offset.
             if file_overlimit offset then ret (True, tot')
             else seq (sys_do (Write rfd buffer)) (file_loop os tot')))))) s"

definition receive :: "os \<Rightarrow> int \<Rightarrow> (ost, unit) prog" where
  "receive os epollfd =
     bnd (fld mode) (\<lambda>m.
     bnd (if m = MSG then msg_loop os 0 else if m = FILE then file_loop os 0 else ret (False, 0))
       (\<lambda>(overlimit, read_total_size).
     whenp (overlimit \<or> read_total_size \<le> 0)
       (seq (upd (\<lambda>o'. o'\<lparr>over := True\<rparr>))
       (bnd (fld pipefd0) (\<lambda>p0.
        seq (sys_do (EpollCtl epollfd EPOLL_CTL_DEL p0))
        (seq close_pipe0 close_redirect))))))"

section \<open>The loops, one iteration at a time\<close>

definition read_answer :: "os \<Rightarrow> ost \<Rightarrow> string option" where
  "read_answer os s = map_option (take BUFSIZE) (bytes_of os (hist s) (Read (pipefd0 (obj s)) BUFSIZE))"

definition after_read :: "os \<Rightarrow> ost \<Rightarrow> ost" where
  "after_read os s = s\<lparr>hist := (Read (pipefd0 (obj s)) BUFSIZE, ABytes (read_answer os s)) # hist s,
     errno := errno_of os (hist s) (Read (pipefd0 (obj s)) BUFSIZE)\<rparr>"

definition after_append :: "os \<Rightarrow> string \<Rightarrow> ost \<Rightarrow> ost" where
  "after_append os buffer s = (after_read os s)\<lparr>obj := (obj s)\<lparr>str := str (obj s) @ buffer\<rparr>\<rparr>"

definition after_write :: "os \<Rightarrow> string \<Rightarrow> ost \<Rightarrow> ost" where
  "after_write os buffer s = (let u = after_read os s; rfd = redirect_fd (obj s) in
     u\<lparr>errno := errno_of os (hist u) (Lseek rfd),
       hist := (Write rfd buffer, AUnit) # (Lseek rfd, AInt (int_of os (hist u) (Lseek rfd))) # hist u\<rparr>)"

lemma after_simps [simp]:
  "obj (after_read os s) = obj s" "obj (after_write os b s) = obj s"
  "obj (after_append os b s) = (obj s)\<lparr>str := str (obj s) @ b\<rparr>"
  "hist (after_read os s) = (Read (pipefd0 (obj s)) BUFSIZE, ABytes (read_answer os s)) # hist s"
  "hist (after_append os b s) = hist (after_read os s)"
  by (simp_all add: after_read_def after_append_def after_write_def Let_def)

lemma read_answer_length: "read_answer os s = Some b \<Longrightarrow> length b \<le> BUFSIZE"
  by (auto simp: read_answer_def)

lemma msg_loop_wp:
  "wp (msg_loop os tot) Q E s = (case read_answer os s of
       None \<Rightarrow> Q (False, tot) (after_read os s)
     | Some b \<Rightarrow>
         if b = [] then Q (False, tot) (after_read os s)
         else if \<not> int32 (tot + int (length b)) then E Undefined (after_read os s)
         else if 2 ^ 23 \<le> length (str (obj s)) then Q (True, tot + int (length b)) (after_read os s)
         else wp (msg_loop os (tot + int (length b))) Q E (after_append os b s))"
proof -
  have eq: "wp (msg_loop os tot) Q E s = wp (bnd (fld pipefd0) (\<lambda>fd. bnd (sys_read os fd BUFSIZE) (\<lambda>r. case r of
         None \<Rightarrow> ret (False, tot)
       | Some buffer \<Rightarrow>
           if buffer = [] then ret (False, tot)
           else bnd (add_int tot (int (length buffer))) (\<lambda>tot'. bnd (fld str) (\<lambda>old.
             if 2 ^ 23 \<le> length old then ret (True, tot')
             else seq (upd (\<lambda>o'. o'\<lparr>str := str o' @ buffer\<rparr>)) (msg_loop os tot')))))) Q E s"
    unfolding wp_def by (subst msg_loop.simps) (rule refl)
  show ?thesis
    unfolding eq by (cases "read_answer os s")
      (simp_all add: wp Let_def read_answer_def [symmetric] after_read_def after_append_def
        del: case_map_option)
qed

lemma file_loop_wp:
  "wp (file_loop os tot) Q E s = (case read_answer os s of
       None \<Rightarrow> Q (False, tot) (after_read os s)
     | Some b \<Rightarrow>
         if b = [] then Q (False, tot) (after_read os s)
         else if \<not> int32 (tot + int (length b)) then E Undefined (after_read os s)
         else wp (file_loop os (tot + int (length b))) Q E (after_write os b s))"
proof -
  have never: "\<not> file_overlimit n" for n
    by (simp add: file_overlimit_def)
  have eq: "wp (file_loop os tot) Q E s = wp (bnd (fld pipefd0) (\<lambda>fd. bnd (sys_read os fd BUFSIZE) (\<lambda>r. case r of
         None \<Rightarrow> ret (False, tot)
       | Some buffer \<Rightarrow>
           if buffer = [] then ret (False, tot)
           else bnd (add_int tot (int (length buffer))) (\<lambda>tot'.
             bnd (fld redirect_fd) (\<lambda>rfd. bnd (sys_int os (Lseek rfd)) (\<lambda>offset.
             if file_overlimit offset then ret (True, tot')
             else seq (sys_do (Write rfd buffer)) (file_loop os tot'))))))) Q E s"
    unfolding wp_def by (subst file_loop.simps) (rule refl)
  show ?thesis
    unfolding eq by (cases "read_answer os s")
      (simp_all add: wp Let_def read_answer_def [symmetric] after_read_def after_write_def never
        del: case_map_option)
qed

text \<open>
  Induction over the iterations: each one of the memory loop makes the collected text longer,
  each one of the file loop makes the total bigger.
\<close>

lemma msg_loop_induct:
  assumes "\<And>tot s. (\<And>b. read_answer os s = Some b \<Longrightarrow> b \<noteq> [] \<Longrightarrow> int32 (tot + int (length b)) \<Longrightarrow>
      length (str (obj s)) < 2 ^ 23 \<Longrightarrow> P (tot + int (length b)) (after_append os b s)) \<Longrightarrow> P tot s"
  shows "P tot s"
proof (induction "2 ^ 23 - length (str (obj s))" arbitrary: tot s rule: less_induct)
  case less
  show ?case
  proof (rule assms)
    fix b
    assume "read_answer os s = Some b" "b \<noteq> []" "length (str (obj s)) < 2 ^ 23"
    then show "P (tot + int (length b)) (after_append os b s)"
      by (intro less) (auto simp: diff_less_mono2)
  qed
qed

lemma file_loop_induct:
  assumes "\<And>tot s. (\<And>b. read_answer os s = Some b \<Longrightarrow> b \<noteq> [] \<Longrightarrow> int32 (tot + int (length b)) \<Longrightarrow>
      P (tot + int (length b)) (after_write os b s)) \<Longrightarrow> P tot s"
  shows "P tot s"
proof (induction "nat (2 ^ 31 - tot)" arbitrary: tot s rule: less_induct)
  case less
  show ?case
    by (rule assms, rule less) (auto simp: int32_def)
qed

lemma returns_loops [returns]: "returns (msg_loop os tot) s" "returns (file_loop os tot) s"
proof -
  show "returns (msg_loop os tot) s"
    by (induction tot s rule: msg_loop_induct [of os])
      (simp add: returns_wp msg_loop_wp [of os] split: option.splits)
  show "returns (file_loop os tot) s"
    by (induction tot s rule: file_loop_induct [of os])
      (simp add: returns_wp file_loop_wp [of os] split: option.splits)
qed

lemma returns_outputs [returns]:
  "returns destroy s" "returns (load os m path b) s" "returns (dup os fd) s" "returns (bind os ep) s"
  "returns (receive os ep) s"
  by (auto simp: destroy_def load_def make_pipe_def dup_def bind_def receive_def close_pipe0_def close_pipe1_def
      close_redirect_def upd_def fld_def intro!: returns split: outmode.split prod.split)

section \<open>What is read, what is written\<close>

text \<open>The bytes a stretch of the record read from a descriptor or wrote to one, oldest first.\<close>

definition read_bytes :: "int \<Rightarrow> event \<Rightarrow> string" where
  "read_bytes fd e = (case fst e of
      Read fd' _ \<Rightarrow> (case snd e of
          ABytes d \<Rightarrow> (if fd' = fd then (case d of None \<Rightarrow> [] | Some b \<Rightarrow> b) else [])
        | _ \<Rightarrow> [])
    | _ \<Rightarrow> [])"

definition written_bytes :: "int \<Rightarrow> event \<Rightarrow> string" where
  "written_bytes fd e = (case fst e of Write fd' d \<Rightarrow> (if fd' = fd then d else []) | _ \<Rightarrow> [])"

definition reads_from :: "int \<Rightarrow> event list \<Rightarrow> string" where
  "reads_from fd es = concat (map (read_bytes fd) (rev es))"

definition writes_to :: "int \<Rightarrow> event list \<Rightarrow> string" where
  "writes_to fd es = concat (map (written_bytes fd) (rev es))"

lemma traffic_simps [simp]:
  "reads_from fd [] = []" "reads_from fd (e # es) = reads_from fd es @ read_bytes fd e"
  "reads_from fd (es @ es') = reads_from fd es' @ reads_from fd es"
  "writes_to fd [] = []" "writes_to fd (e # es) = writes_to fd es @ written_bytes fd e"
  "writes_to fd (es @ es') = writes_to fd es' @ writes_to fd es"
  by (simp_all add: reads_from_def writes_to_def)

lemma bytes_simps [simp]:
  "read_bytes fd (Read fd n, ABytes (Some b)) = b" "read_bytes fd (Read fd n, ABytes None) = []"
  "read_bytes fd (Write fd' b, a) = []" "read_bytes fd (Lseek fd', a) = []"
  "read_bytes fd (EpollCtl e x fd', a) = []" "read_bytes fd (Close fd', a) = []"
  "written_bytes fd (Read fd' n, a) = []" "written_bytes fd (Write fd b, a) = b"
  "written_bytes fd (Lseek fd', a) = []" "written_bytes fd (EpollCtl e x fd', a) = []"
  "written_bytes fd (Close fd', a) = []"
  by (simp_all add: read_bytes_def written_bytes_def)

text \<open>
  The loop over memory: what it reads is what it appends, but for a last piece that is read and
  dropped once 8 MiB are collected.
\<close>

definition collected :: "ost \<Rightarrow> bool \<Rightarrow> int \<Rightarrow> int \<Rightarrow> ost \<Rightarrow> bool" where
  "collected s ov tot tot' t \<longleftrightarrow> (\<exists>es kept lost. hist t = es @ hist s \<and>
     reads_from (pipefd0 (obj s)) es = kept @ lost \<and>
     obj t = (obj s)\<lparr>str := str (obj s) @ kept\<rparr> \<and>
     (ov \<longleftrightarrow> lost \<noteq> []) \<and> (ov \<longrightarrow> 2 ^ 23 \<le> length (str (obj t))) \<and>
     length (str (obj t)) \<le> max (length (str (obj s))) (2 ^ 23 - 1 + BUFSIZE) \<and>
     tot' = tot + int (length kept) + int (length lost))"

lemma collectedI:
  "hist t = es @ hist s \<Longrightarrow> reads_from (pipefd0 (obj s)) es = kept @ lost \<Longrightarrow>
   obj t = (obj s)\<lparr>str := str (obj s) @ kept\<rparr> \<Longrightarrow> ov \<longleftrightarrow> lost \<noteq> [] \<Longrightarrow>
   (ov \<Longrightarrow> 2 ^ 23 \<le> length (str (obj s)) + length kept) \<Longrightarrow>
   length (str (obj s)) + length kept \<le> max (length (str (obj s))) (2 ^ 23 - 1 + BUFSIZE) \<Longrightarrow>
   tot' = tot + int (length kept) + int (length lost) \<Longrightarrow> collected s ov tot tot' t"
  unfolding collected_def by (intro exI [of _ es] exI [of _ kept] exI [of _ lost]) simp

lemma collected_more:
  assumes "read_answer os s = Some b" and "length (str (obj s)) < 2 ^ 23"
    and "collected (after_append os b s) ov (tot + int (length b)) tot' t"
  shows "collected s ov tot tot' t"
proof -
  have b: "length (str (obj s)) + length b \<le> 2 ^ 23 - 1 + BUFSIZE"
    using assms(2) read_answer_length [OF assms(1)] by linarith
  obtain es kept lost where c: "hist t = es @ hist (after_append os b s)"
    "reads_from (pipefd0 (obj (after_append os b s))) es = kept @ lost"
    "obj t = (obj (after_append os b s))\<lparr>str := str (obj (after_append os b s)) @ kept\<rparr>"
    "ov \<longleftrightarrow> lost \<noteq> []" "ov \<longrightarrow> 2 ^ 23 \<le> length (str (obj t))"
    "length (str (obj t)) \<le> max (length (str (obj (after_append os b s)))) (2 ^ 23 - 1 + BUFSIZE)"
    "tot' = tot + int (length b) + int (length kept) + int (length lost)"
    using assms(3) unfolding collected_def by blast
  show ?thesis
    by (rule collectedI [of _ "es @ [(Read (pipefd0 (obj s)) BUFSIZE, ABytes (Some b))]" _ "b @ kept" lost])
      (use c b assms(1) in simp_all)
qed

definition small_total :: "int \<Rightarrow> ost \<Rightarrow> bool" where
  "small_total tot s \<longleftrightarrow> 0 \<le> tot \<and> tot \<le> 2 ^ 24 + 1024 \<and>
     (length (str (obj s)) < 2 ^ 23 \<longrightarrow> tot + (2 ^ 23 - int (length (str (obj s)))) \<le> 2 ^ 24)"

lemma small_total_more:
  assumes "small_total tot s" and "read_answer os s = Some b" and "length (str (obj s)) < 2 ^ 23"
  shows "small_total (tot + int (length b)) (after_append os b s)"
  using assms read_answer_length [OF assms(2)] by (auto simp: small_total_def BUFSIZE_def)

lemma small_total_int32:
  "small_total tot s \<Longrightarrow> read_answer os s = Some b \<Longrightarrow> int32 (tot + int (length b))"
  using read_answer_length [of os s b] by (auto simp: small_total_def int32_def BUFSIZE_def)

lemma msg_loop_collects:
  "small_total tot s \<Longrightarrow>
     wp (msg_loop os tot) (\<lambda>(ov, tot') t. collected s ov tot tot' t) (\<lambda>_ _. False) s"
proof (induction tot s rule: msg_loop_induct [of os])
  case (1 tot s)
  show ?case
  proof (cases "read_answer os s")
    case None
    then show ?thesis
      by (subst msg_loop_wp) (auto simp: collected_def intro: exI [of _ "[_]"])
  next
    case (Some b)
    have stop: "collected s False tot tot (after_read os s)" if "b = []"
      using that Some by (auto simp: collected_def intro: exI [of _ "[_]"])
    have limit: "collected s True tot (tot + int (length b)) (after_read os s)"
      if "b \<noteq> []" "2 ^ 23 \<le> length (str (obj s))"
      using that Some by
        (intro collectedI [of _ "[(Read (pipefd0 (obj s)) BUFSIZE, ABytes (Some b))]" _ "[]" b])
          simp_all
    have more: "wp (msg_loop os (tot + int (length b))) (\<lambda>(ov, tot') t. collected s ov tot tot' t)
        (\<lambda>_ _. False) (after_append os b s)" if "b \<noteq> []" "length (str (obj s)) < 2 ^ 23"
      using that Some 1 small_total_int32 [OF 1(2) Some] small_total_more [OF 1(2) Some]
      by (intro wp_mono [OF "1.IH"]) (auto intro: collected_more)
    show ?thesis
      using Some stop limit more small_total_int32 [OF 1(2) Some]
      by (subst msg_loop_wp) auto
  qed
qed

text \<open>
  The loop over the file: everything read is written, in order; it is never cut short. If more
  than \<^verbatim>\<open>INT_MAX\<close> bytes are read in one call, the running total overflows.
\<close>

definition copied :: "ost \<Rightarrow> int \<Rightarrow> int \<Rightarrow> ost \<Rightarrow> bool" where
  "copied s tot tot' t \<longleftrightarrow> (\<exists>es. hist t = es @ hist s \<and> obj t = obj s \<and>
     writes_to (redirect_fd (obj s)) es = reads_from (pipefd0 (obj s)) es \<and>
     tot' = tot + int (length (reads_from (pipefd0 (obj s)) es)))"

definition overflowed :: "ost \<Rightarrow> int \<Rightarrow> ost \<Rightarrow> bool" where
  "overflowed s tot t \<longleftrightarrow> (\<exists>es. hist t = es @ hist s \<and> obj t = obj s \<and>
     \<not> int32 (tot + int (length (reads_from (pipefd0 (obj s)) es))))"

lemma after_write_hist:
  "read_answer os s = Some b \<Longrightarrow> \<exists>n. hist (after_write os b s) =
     [(Write (redirect_fd (obj s)) b, AUnit), (Lseek (redirect_fd (obj s)), AInt n),
      (Read (pipefd0 (obj s)) BUFSIZE, ABytes (Some b))] @ hist s"
  by (simp add: after_write_def Let_def)

lemma file_more:
  assumes "read_answer os s = Some b"
  shows "copied (after_write os b s) (tot + int (length b)) tot' t \<Longrightarrow> copied s tot tot' t"
    and "overflowed (after_write os b s) (tot + int (length b)) t \<Longrightarrow> overflowed s tot t"
proof -
  obtain n where h: "hist (after_write os b s) =
     [(Write (redirect_fd (obj s)) b, AUnit), (Lseek (redirect_fd (obj s)), AInt n),
      (Read (pipefd0 (obj s)) BUFSIZE, ABytes (Some b))] @ hist s"
    using after_write_hist [OF assms] by blast
  then have h': "es @ hist (after_write os b s) =
     (es @ [(Write (redirect_fd (obj s)) b, AUnit), (Lseek (redirect_fd (obj s)), AInt n),
      (Read (pipefd0 (obj s)) BUFSIZE, ABytes (Some b))]) @ hist s" for es
    by simp
  show "copied s tot tot' t" if "copied (after_write os b s) (tot + int (length b)) tot' t"
    using that unfolding copied_def h' by (elim exE) (rule exI, auto)
  show "overflowed s tot t" if "overflowed (after_write os b s) (tot + int (length b)) t"
    using that unfolding overflowed_def h' by (elim exE) (rule exI, auto simp: ac_simps)
qed

lemma file_loop_copies:
  "wp (file_loop os tot) (\<lambda>(ov, tot') t. \<not> ov \<and> copied s tot tot' t)
     (\<lambda>a t. a = Undefined \<and> overflowed s tot t) s"
proof (induction tot s rule: file_loop_induct [of os])
  case (1 tot s)
  show ?case
  proof (cases "read_answer os s")
    case None
    then show ?thesis
      by (subst file_loop_wp) (auto simp: copied_def intro: exI [of _ "[_]"])
  next
    case (Some b)
    have stop: "copied s tot tot (after_read os s)" if "b = []"
      using that Some by (auto simp: copied_def intro: exI [of _ "[_]"])
    have over: "overflowed s tot (after_read os s)" if "\<not> int32 (tot + int (length b))"
      using that Some by (auto simp: overflowed_def intro: exI [of _ "[_]"])
    have more: "wp (file_loop os (tot + int (length b))) (\<lambda>(ov, tot') t. \<not> ov \<and> copied s tot tot' t)
        (\<lambda>a t. a = Undefined \<and> overflowed s tot t) (after_write os b s)"
      if "b \<noteq> []" "int32 (tot + int (length b))"
      using that Some by (intro wp_mono [OF "1"]) (auto intro: file_more)
    show ?thesis
      using Some stop over more by (subst file_loop_wp) auto
  qed
qed

section \<open>Receiving\<close>

lemma receive_wp:
  "wp (receive os epfd) Q E s =
     wp (if mode (obj s) = MSG then msg_loop os 0 else if mode (obj s) = FILE then file_loop os 0
         else ret (False, 0))
       (\<lambda>(ov, tot) t. if ov \<or> tot \<le> 0
          then wp (seq (sys_do (EpollCtl epfd EPOLL_CTL_DEL (pipefd0 (obj t)))) (seq close_pipe0 close_redirect))
                 Q E (t\<lparr>obj := (obj t)\<lparr>over := True\<rparr>\<rparr>)
          else Q () t) E s"
  by (simp add: receive_def wp case_prod_unfold cong: if_cong)

lemma returns_receive [returns]: "returns (receive os epfd) s"
  by (auto simp: receive_def close_pipe0_def close_redirect_def upd_def fld_def
      split: prod.splits intro!: returns)

lemma close_wp [wp]:
  "wp close_pipe0 Q E s = Q () (s\<lparr>hist := (if pipefd0 (obj s) = - 1 then [] else
      [(Close (pipefd0 (obj s)), AUnit)]) @ hist s, obj := (obj s)\<lparr>pipefd0 := - 1\<rparr>\<rparr>)"
  "wp close_pipe1 Q E s = Q () (s\<lparr>hist := (if pipefd1 (obj s) = - 1 then [] else
      [(Close (pipefd1 (obj s)), AUnit)]) @ hist s, obj := (obj s)\<lparr>pipefd1 := - 1\<rparr>\<rparr>)"
  "wp close_redirect Q E s = Q () (s\<lparr>hist := (if redirect_fd (obj s) = - 1 then [] else
      [(Close (redirect_fd (obj s)), AUnit)]) @ hist s, obj := (obj s)\<lparr>redirect_fd := - 1\<rparr>\<rparr>)"
  by (simp_all add: close_pipe0_def close_pipe1_def close_redirect_def wp)

lemma finish_wp:
  assumes "\<And>t es. hist t = es @ hist s \<Longrightarrow> (\<And>fd. reads_from fd es = [] \<and> writes_to fd es = []) \<Longrightarrow>
     obj t = (obj s)\<lparr>pipefd0 := - 1, redirect_fd := - 1\<rparr> \<Longrightarrow> Q () t"
  shows "wp (seq (sys_do (EpollCtl epfd x fd)) (seq close_pipe0 close_redirect)) Q E s"
  unfolding wp
  by (rule assms [where es = "(if redirect_fd (obj s) = - 1 then [] else [(Close (redirect_fd (obj s)), AUnit)]) @
      (if pipefd0 (obj s) = - 1 then [] else [(Close (pipefd0 (obj s)), AUnit)]) @
      [(EpollCtl epfd x fd, AUnit)]"]) simp_all

text \<open>What follows the reading loop in \<^verbatim>\<open>receive\<close>, and what it leaves.\<close>

definition finish_reading :: "int \<Rightarrow> (ost \<Rightarrow> bool) \<Rightarrow> (abrupt \<Rightarrow> ost \<Rightarrow> bool) \<Rightarrow> bool \<Rightarrow> int \<Rightarrow> ost \<Rightarrow> bool" where
  "finish_reading epfd Q E ov tot t \<longleftrightarrow> (if ov \<or> tot \<le> 0
      then wp (seq (sys_do (EpollCtl epfd EPOLL_CTL_DEL (pipefd0 (obj t)))) (seq close_pipe0 close_redirect))
             (\<lambda>_. Q) E (t\<lparr>obj := (obj t)\<lparr>over := True\<rparr>\<rparr>)
      else Q t)"

definition memory_post :: "ost \<Rightarrow> ost \<Rightarrow> bool" where
  "memory_post s t \<longleftrightarrow> (\<exists>es kept lost. hist t = es @ hist s \<and>
     reads_from (pipefd0 (obj s)) es = kept @ lost \<and> str (obj t) = str (obj s) @ kept \<and>
     (lost \<noteq> [] \<longrightarrow> 2 ^ 23 \<le> length (str (obj t))) \<and>
     length (str (obj t)) \<le> max (length (str (obj s))) (2 ^ 23 - 1 + BUFSIZE) \<and>
     (over (obj t) \<longleftrightarrow> over (obj s) \<or> kept = [] \<or> lost \<noteq> []))"

lemma memory_finish:
  assumes "collected s ov 0 tot t"
  shows "finish_reading epfd (memory_post s) (\<lambda>_ _. False) ov tot t"
proof -
  obtain es kept lost where *: "hist t = es @ hist s"
    "reads_from (pipefd0 (obj s)) es = kept @ lost" "obj t = (obj s)\<lparr>str := str (obj s) @ kept\<rparr>"
    "ov \<longleftrightarrow> lost \<noteq> []" "ov \<longrightarrow> 2 ^ 23 \<le> length (str (obj t))"
    "length (str (obj t)) \<le> max (length (str (obj s))) (2 ^ 23 - 1 + BUFSIZE)"
    "tot = 0 + int (length kept) + int (length lost)"
    using assms unfolding collected_def by blast
  have post: "memory_post s u" if "hist u = es' @ hist t" "reads_from (pipefd0 (obj s)) es' = []"
    "str (obj u) = str (obj t)" "over (obj u) \<longleftrightarrow> over (obj s) \<or> kept = [] \<or> lost \<noteq> []" for u es'
    unfolding memory_post_def using * that
    by (intro exI [of _ "es' @ es"] exI [of _ kept] exI [of _ lost]) simp
  show ?thesis
  proof (cases "ov \<or> tot \<le> 0")
    case True
    then have "kept = [] \<or> lost \<noteq> []"
      using * by auto
    then show ?thesis
      using True by (auto simp: finish_reading_def intro!: finish_wp post)
  next
    case False
    then show ?thesis
      using * by (auto simp: finish_reading_def intro!: post [of _ "[]"])
  qed
qed

text \<open>
  C27: receiving in memory mode always returns, and normally; everything read from the pipe is
  appended to the collected text in order, except one last piece that is dropped once 8 MiB are
  collected; the text never exceeds 8 MiB by a buffer or more; and the output is over exactly
  when nothing was read or a piece was dropped.
\<close>

theorem receive_memory:
  assumes "mode (obj s) = MSG"
  shows "\<exists>t es kept lost. receive os epfd s = Some (Inr (), t) \<and> hist t = es @ hist s \<and>
     reads_from (pipefd0 (obj s)) es = kept @ lost \<and> str (obj t) = str (obj s) @ kept \<and>
     (lost \<noteq> [] \<longrightarrow> 2 ^ 23 \<le> length (str (obj t))) \<and>
     length (str (obj t)) \<le> max (length (str (obj s))) (2 ^ 23 - 1 + BUFSIZE) \<and>
     (over (obj t) \<longleftrightarrow> over (obj s) \<or> kept = [] \<or> lost \<noteq> [])"
proof -
  have "small_total 0 s"
    by (simp add: small_total_def)
  then have "wp (receive os epfd) (\<lambda>_. memory_post s) (\<lambda>_ _. False) s"
    unfolding receive_wp using assms
    by (auto intro!: wp_mono [OF msg_loop_collects] dest: memory_finish simp: finish_reading_def)
  from wp_total_normal [OF returns_receive this] show ?thesis
    by (auto simp: memory_post_def)
qed

definition file_post :: "ost \<Rightarrow> ost \<Rightarrow> bool" where
  "file_post s t \<longleftrightarrow> (\<exists>es. hist t = es @ hist s \<and>
     writes_to (redirect_fd (obj s)) es = reads_from (pipefd0 (obj s)) es \<and> str (obj t) = str (obj s) \<and>
     (over (obj t) \<longleftrightarrow> over (obj s) \<or> reads_from (pipefd0 (obj s)) es = []))"

lemma file_finish:
  assumes "\<not> ov" and "copied s 0 tot t"
  shows "finish_reading epfd (file_post s) E ov tot t"
proof -
  let ?got = "reads_from (pipefd0 (obj s))"
  obtain es where *: "\<not> ov" "hist t = es @ hist s" "obj t = obj s"
    "writes_to (redirect_fd (obj s)) es = ?got es" "tot = int (length (?got es))"
    using assms by (auto simp: copied_def)
  have post: "file_post s u" if "hist u = es' @ hist t" "?got es' = [] \<and> writes_to (redirect_fd (obj s)) es' = []"
    "str (obj u) = str (obj s)" "over (obj u) \<longleftrightarrow> over (obj s) \<or> ?got es = []" for u es'
    unfolding file_post_def using * that by (intro exI [of _ "es' @ es"]) simp
  show ?thesis
  proof (cases "ov \<or> tot \<le> 0")
    case True
    then have "?got es = []"
      using * by auto
    then show ?thesis
      using True * by (auto simp: finish_reading_def intro!: finish_wp post)
  next
    case False
    then show ?thesis
      using * by (auto simp: finish_reading_def intro!: post [of _ "[]"])
  qed
qed

text \<open>
  C28: receiving in file mode copies without limit. When it ends normally everything read from the
  pipe was written to the file, in order, and the output is over exactly when nothing was read,
  however much has been copied. The one other way it ends is that the running total of bytes read,
  an \<^verbatim>\<open>int\<close>, overflows.
\<close>

theorem receive_file:
  assumes "mode (obj s) = FILE"
  shows "\<exists>r t es. receive os epfd s = Some (r, t) \<and> hist t = es @ hist s \<and>
     (r = Inr () \<and> writes_to (redirect_fd (obj s)) es = reads_from (pipefd0 (obj s)) es \<and>
        str (obj t) = str (obj s) \<and>
        (over (obj t) \<longleftrightarrow> over (obj s) \<or> reads_from (pipefd0 (obj s)) es = []) \<or>
      r = Inl Undefined \<and> 2 ^ 31 \<le> length (reads_from (pipefd0 (obj s)) es))"
proof -
  let ?bad = "\<lambda>a t. a = Undefined \<and> (\<exists>es. hist t = es @ hist s \<and> 2 ^ 31 \<le> length (reads_from (pipefd0 (obj s)) es))"
  have "wp (file_loop os 0) (\<lambda>(ov, tot). finish_reading epfd (file_post s) ?bad ov tot) ?bad s"
    by (rule wp_mono [OF file_loop_copies]) (auto intro: file_finish simp: overflowed_def int32_def)
  then have "wp (receive os epfd) (\<lambda>_. file_post s) ?bad s"
    using assms by (auto simp: receive_wp finish_reading_def elim!: wp_mono split: if_splits)
  from wp_total [OF returns_receive this] show ?thesis
    by (auto simp: file_post_def)
qed

text \<open>
  C29: the 32 MiB limit on a file output is never applied: the test on the offset is
  unsatisfiable, so a command that is never caught up with drives the reading loop into signed
  overflow, whatever the offsets are.
\<close>

theorem receive_file_unlimited:
  assumes "mode (obj s) = FILE"
    and "\<forall>h. \<exists>b. bytes_of os h (Read (pipefd0 (obj s)) BUFSIZE) = Some b \<and> b \<noteq> []"
  shows "(\<forall>offset. \<not> file_overlimit offset) \<and> (\<exists>t. receive os epfd s = Some (Inl Undefined, t))"
proof -
  have data: "\<exists>b. read_answer os u = Some b \<and> b \<noteq> []" if "pipefd0 (obj u) = pipefd0 (obj s)" for u
    using assms(2) [rule_format, of "hist u"] that by (auto simp: read_answer_def BUFSIZE_def)
  have "pipefd0 (obj u) = pipefd0 (obj s) \<Longrightarrow>
      wp (file_loop os tot) (\<lambda>_ _. False) (\<lambda>a _. a = Undefined) u" for tot u
  proof (induction tot u rule: file_loop_induct [of os])
    case (1 tot u)
    then obtain b where "read_answer os u = Some b" "b \<noteq> []"
      using data by blast
    with 1 show ?case
      by (subst file_loop_wp) simp
  qed
  from this [of s 0] have "wp (receive os epfd) (\<lambda>_ _. False) (\<lambda>a _. a = Undefined) s"
    unfolding receive_wp using assms(1) by (auto elim!: wp_mono)
  from wp_total [OF returns_receive this] show ?thesis
    by (auto simp: file_overlimit_def)
qed

text \<open>Witnesses: an output bound to pipe 5, and an outside whose pipes always have a byte.\<close>

definition bound_output :: "outmode \<Rightarrow> ost" where
  "bound_output m = \<lparr>hist = [], errno = 0,
     obj = Output\<lparr>mode := m, pipefd0 := 5, redirect_fd := (if m = FILE then 6 else - 1)\<rparr>\<rparr>"

definition chatty :: os where
  "chatty = calm\<lparr>bytes_of := (\<lambda>_ _. Some ''x'')\<rparr>"

theorem receive_memory_witness:
  "\<exists>t es kept lost. receive chatty 9 (bound_output MSG) = Some (Inr (), t) \<and> hist t = es \<and>
     reads_from 5 es = kept @ lost \<and> str (obj t) = kept \<and> length kept \<le> 2 ^ 23 - 1 + BUFSIZE \<and>
     (over (obj t) \<longleftrightarrow> kept = [] \<or> lost \<noteq> [])"
  using receive_memory [of "bound_output MSG" chatty 9]
  by (simp add: bound_output_def Output_def) blast

theorem receive_file_witness:
  "\<exists>r t es. receive chatty 9 (bound_output FILE) = Some (r, t) \<and> hist t = es \<and>
     (r = Inr () \<and> writes_to 6 es = reads_from 5 es \<or> r = Inl Undefined \<and> 2 ^ 31 \<le> length (reads_from 5 es))"
  using receive_file [of "bound_output FILE" chatty 9]
  by (auto simp: bound_output_def Output_def)

theorem receive_file_unlimited_witness:
  "\<exists>t. receive chatty 9 (bound_output FILE) = Some (Inl Undefined, t)"
proof -
  have "mode (obj (bound_output FILE)) = FILE"
    by (simp add: bound_output_def)
  moreover have "\<forall>h. \<exists>b. bytes_of chatty h (Read (pipefd0 (obj (bound_output FILE))) BUFSIZE) = Some b \<and> b \<noteq> []"
    by (simp add: chatty_def)
  ultimately show ?thesis
    using receive_file_unlimited [of "bound_output FILE" chatty 9] by blast
qed

end
