(* ===== verification/Fds.thy ===== *)
theory Fds
  imports Sys
begin

text \<open>
  The discipline of descriptors. An owner holds descriptors in variables, with \<open>- 1\<close> for none; a
  step is tidy when it keeps the variables pointing to distinct open descriptors, closes nothing
  that is not open, and leaves the descriptors of others as they were. Tidiness is a contract in
  the sense of \<open>Prelude\<close>, so it passes from the operations to everything composed of them.
\<close>

section \<open>Ownership\<close>

definition held :: "int list \<Rightarrow> int set" where
  "held vars = set vars - {- 1}"

definition fd_ok :: "int set \<Rightarrow> int list \<Rightarrow> event list \<Rightarrow> bool" where
  "fd_ok inherited vars h \<longleftrightarrow>
     held vars \<subseteq> open_fds inherited h \<and> distinct (filter (\<lambda>x. x \<noteq> - 1) vars) \<and> closes_ok inherited h"

definition others :: "int set \<Rightarrow> int list \<Rightarrow> event list \<Rightarrow> int set" where
  "others inherited vars h = open_fds inherited h - held vars"

definition tidy ::
  "int set \<Rightarrow> ('z sys_scheme \<Rightarrow> int list) \<Rightarrow> 'z sys_scheme \<Rightarrow> 'z sys_scheme \<Rightarrow> bool" where
  "tidy inherited vars s t \<longleftrightarrow> (fd_ok inherited (vars s) (hist s) \<longrightarrow>
     fd_ok inherited (vars t) (hist t) \<and>
     others inherited (vars t) (hist t) = others inherited (vars s) (hist s))"

interpretation tidiness: contract "tidy inherited vars" for inherited vars
  by unfold_locales (auto simp: tidy_def)

lemma tidyI:
  "(fd_ok inh (vars s) (hist s) \<Longrightarrow> fd_ok inh (vars t) (hist t)) \<Longrightarrow>
   (fd_ok inh (vars s) (hist s) \<Longrightarrow>
     others inh (vars t) (hist t) = others inh (vars s) (hist s)) \<Longrightarrow> tidy inh vars s t"
  by (auto simp: tidy_def)

section \<open>Events that do not touch descriptors\<close>

definition quiet :: "event \<Rightarrow> bool" where
  "quiet e \<longleftrightarrow> (case fst e of Close _ \<Rightarrow> False | _ \<Rightarrow> opened_by e = {})"

lemma quiet_open_fds: "quiet e \<Longrightarrow> open_fds inh (e # h) = open_fds inh h"
  by (cases "fst e") (auto simp: quiet_def)

lemma quiet_closes_ok: "quiet e \<Longrightarrow> closes_ok inh (e # h) = closes_ok inh h"
  by (cases "fst e") (auto simp: quiet_def)

lemma quiet_list:
  "\<forall>e\<in>set es. quiet e \<Longrightarrow> open_fds inh (es @ h) = open_fds inh h \<and> closes_ok inh (es @ h) = closes_ok inh h"
  by (induction es) (simp_all add: quiet_open_fds quiet_closes_ok del: open_fds.simps closes_ok.simps)

text \<open>A stretch of quiet events that leaves the variables alone is tidy.\<close>

definition quiet_run :: "('z sys_scheme \<Rightarrow> int list) \<Rightarrow> 'z sys_scheme \<Rightarrow> 'z sys_scheme \<Rightarrow> bool" where
  "quiet_run vars s t \<longleftrightarrow> vars t = vars s \<and> (\<exists>es. hist t = es @ hist s \<and> (\<forall>e\<in>set es. quiet e))"

interpretation quietness: contract "quiet_run vars" for vars
proof unfold_locales
  fix s t u :: "'a sys_scheme"
  show "quiet_run vars s s"
    by (simp add: quiet_run_def)
  assume "quiet_run vars s t" and "quiet_run vars t u"
  then obtain es es' where "vars u = vars s" "hist t = es @ hist s" "hist u = es' @ hist t"
      "\<forall>e\<in>set es. quiet e" "\<forall>e\<in>set es'. quiet e"
    unfolding quiet_run_def by metis
  then show "quiet_run vars s u"
    unfolding quiet_run_def by (intro conjI exI [of _ "es' @ es"]) auto
qed

lemma quiet_run_tidy: "quiet_run vars s t \<Longrightarrow> tidy inh vars s t"
  by (auto simp: quiet_run_def tidy_def fd_ok_def others_def quiet_list)

lemma obeys_quiet_tidy: "obeys (quiet_run vars) m \<Longrightarrow> obeys (tidy inh vars) m"
  by (auto simp: obeys_def quiet_run_tidy)

section \<open>Events that do\<close>

lemma close_ok:
  assumes "fd_ok inh vars h" and "fd \<in> held vars" and "held vars' = held vars - {fd}"
    and "distinct (filter (\<lambda>x. x \<noteq> - 1) vars')"
  shows "fd_ok inh vars' ((Close fd, a) # h)" "others inh vars' ((Close fd, a) # h) = others inh vars h"
  using assms by (auto simp: fd_ok_def others_def)

lemma open_ok:
  assumes "fd_ok inh vars h" and "opened_by (c, a) = new" and "\<forall>fd. c \<noteq> Close fd"
    and "new \<inter> open_fds inh h = {}" and "held vars' = held vars \<union> new"
    and "distinct (filter (\<lambda>x. x \<noteq> - 1) vars')"
  shows "fd_ok inh vars' ((c, a) # h)" "others inh vars' ((c, a) # h) = others inh vars h"
  using assms by (cases c; auto simp: fd_ok_def others_def)+

lemma held_Cons [simp]: "held [] = {}" "held (x # xs) = (if x = - 1 then held xs else insert x (held xs))"
  by (auto simp: held_def)

lemma held_filter: "x \<in> held xs \<longleftrightarrow> x \<in> set xs \<and> x \<noteq> - 1"
  by (simp add: held_def)

lemma fresh_pipe:
  "fresh_fds inh os \<Longrightarrow> int_of os h Pipe \<noteq> - 1 \<Longrightarrow>
     0 \<le> fst (pipe_of os h) \<and> 0 \<le> snd (pipe_of os h) \<and> fst (pipe_of os h) \<noteq> snd (pipe_of os h) \<and>
     fst (pipe_of os h) \<notin> open_fds inh h \<and> snd (pipe_of os h) \<notin> open_fds inh h"
  unfolding fresh_fds_def by (elim allE [of _ h] allE [of _ Pipe]) simp

lemma fresh_open:
  "fresh_fds inh os \<Longrightarrow> int_of os h (Open p f) \<noteq> - 1 \<Longrightarrow>
     0 \<le> int_of os h (Open p f) \<and> int_of os h (Open p f) \<notin> open_fds inh h"
  unfolding fresh_fds_def by (elim allE [of _ h] allE [of _ "Open p f"]) simp

lemma fresh_epoll:
  "fresh_fds inh os \<Longrightarrow> int_of os h EpollCreate \<noteq> - 1 \<Longrightarrow>
     0 \<le> int_of os h EpollCreate \<and> int_of os h EpollCreate \<notin> open_fds inh h"
  unfolding fresh_fds_def by (elim allE [of _ h] allE [of _ EpollCreate]) simp

lemma fresh_timer:
  "fresh_fds inh os \<Longrightarrow> int_of os h TimerfdCreate \<noteq> - 1 \<Longrightarrow>
     0 \<le> int_of os h TimerfdCreate \<and> int_of os h TimerfdCreate \<notin> open_fds inh h"
  unfolding fresh_fds_def by (elim allE [of _ h] allE [of _ TimerfdCreate]) simp

lemma fresh_socket:
  "fresh_fds inh os \<Longrightarrow> int_of os h (Socket b) \<noteq> - 1 \<Longrightarrow>
     0 \<le> int_of os h (Socket b) \<and> int_of os h (Socket b) \<notin> open_fds inh h"
  unfolding fresh_fds_def by (elim allE [of _ h] allE [of _ "Socket b"]) simp

lemma fresh_creat:
  "fresh_fds inh os \<Longrightarrow> int_of os h (Creat p) \<noteq> - 1 \<Longrightarrow>
     0 \<le> int_of os h (Creat p) \<and> int_of os h (Creat p) \<notin> open_fds inh h"
  unfolding fresh_fds_def by (elim allE [of _ h] allE [of _ "Creat p"]) simp

lemma fresh_accept:
  "fresh_fds inh os \<Longrightarrow> int_of os h (Accept fd) \<noteq> - 1 \<Longrightarrow>
     0 \<le> int_of os h (Accept fd) \<and> int_of os h (Accept fd) \<notin> open_fds inh h"
  unfolding fresh_fds_def by (elim allE [of _ h] allE [of _ "Accept fd"]) simp

end
