(* ===== verification/OutputLife.thy ===== *)
theory OutputLife
  imports Output Fds
begin

text \<open>
  The descriptors of an output: its two pipe ends and the file it copies to, from its construction
  through \<^verbatim>\<open>load\<close>, \<^verbatim>\<open>bind\<close> and \<^verbatim>\<open>receive\<close> to its destructor.
\<close>

section \<open>Descriptors\<close>

definition fds_of_output :: "outp \<Rightarrow> int list" where
  "fds_of_output o' = [pipefd0 o', pipefd1 o', redirect_fd o']"

definition ovars :: "ost \<Rightarrow> int list" where
  "ovars s = fds_of_output (obj s)"

lemmas ovars_defs = ovars_def fds_of_output_def

lemma tidy_close [intro]:
  "obeys (tidy inh ovars) close_pipe0" "obeys (tidy inh ovars) close_pipe1"
  "obeys (tidy inh ovars) close_redirect"
  by (auto intro!: obeysI tidyI simp: wp ovars_defs fd_ok_def others_def)

lemma quiet_loops: "obeys (quiet_run ovars) (msg_loop os tot)" "obeys (quiet_run ovars) (file_loop os tot)"
proof -
  have "wp (msg_loop os tot) (\<lambda>_. quiet_run ovars s) (\<lambda>_. quiet_run ovars s) u" if "quiet_run ovars s u" for s u tot
    using that
  proof (induction tot u rule: msg_loop_induct [of os])
    case (1 tot u)
    have "quiet_run ovars u (after_read os u)" "quiet_run ovars u (after_append os b u)" for b
      by (auto simp: quiet_run_def ovars_defs quiet_def opened_by_def intro: exI [of _ "[_]"])
    then have "quiet_run ovars s (after_read os u)" "quiet_run ovars s (after_append os b u)" for b
      using 1(2) by (blast intro: quietness.R_trans)+
    then show ?case
      using 1 by (subst msg_loop_wp) (auto split: option.splits)
  qed
  then show "obeys (quiet_run ovars) (msg_loop os tot)"
    by (auto intro!: obeysI quietness.R_refl)
  have "wp (file_loop os tot) (\<lambda>_. quiet_run ovars s) (\<lambda>_. quiet_run ovars s) u" if "quiet_run ovars s u" for s u tot
    using that
  proof (induction tot u rule: file_loop_induct [of os])
    case (1 tot u)
    have "quiet_run ovars u (after_read os u)"
      by (auto simp: quiet_run_def ovars_defs quiet_def opened_by_def intro: exI [of _ "[_]"])
    moreover have "quiet_run ovars u (after_write os b u)" if "read_answer os u = Some b" for b
      unfolding quiet_run_def
      by (rule conjI [OF _ exE [OF after_write_hist [OF that]]])
        (simp add: ovars_defs, rule exI, erule conjI, simp add: quiet_def opened_by_def)
    ultimately have "quiet_run ovars s (after_read os u)"
      "\<And>b. read_answer os u = Some b \<Longrightarrow> quiet_run ovars s (after_write os b u)"
      using 1(2) by (blast intro: quietness.R_trans)+
    then show ?case
      using 1 by (subst file_loop_wp) (auto split: option.splits)
  qed
  then show "obeys (quiet_run ovars) (file_loop os tot)"
    by (auto intro!: obeysI quietness.R_refl)
qed

lemma tidy_upd: "(\<And>s. ovars (s\<lparr>obj := f (obj s)\<rparr>) = ovars s) \<Longrightarrow> obeys (tidy inh ovars) (upd f)"
  by (auto intro!: obeysI tidyI simp: wp)

lemma tidy_fld: "obeys (tidy inh ovars) (fld f)"
  by (auto intro!: obeysI tidyI simp: wp)

lemma tidy_quiet_do: "quiet (c, AUnit) \<Longrightarrow> obeys (tidy inh ovars) (sys_do c)"
  by (rule obeys_quiet_tidy) (auto intro!: obeysI exI [of _ "[_]"] simp: wp quiet_run_def ovars_defs)

lemma tidy_receive: "obeys (tidy inh ovars) (receive os epfd)"
  unfolding receive_def
  by (auto intro!: tidiness.r_intros tidy_fld tidy_upd tidy_quiet_do tidy_close
      quiet_loops [THEN obeys_quiet_tidy] simp: ovars_defs quiet_def opened_by_def split: prod.split)

text \<open>
  The life of an output inside the process that owns it: constructed, loaded, bound, then received
  from any number of times, while the rest of the process opens and closes descriptors of its own
  (\<open>B\<close> are the descriptors of the rest).
\<close>

datatype phase = Fresh | Loaded | Bound | Failed

inductive life :: "os \<Rightarrow> int set \<Rightarrow> int \<Rightarrow> phase \<Rightarrow> int set \<Rightarrow> ost \<Rightarrow> bool" for os inh epfd where
  life_fresh: "obj s = Output \<Longrightarrow> closes_ok inh (hist s) \<Longrightarrow>
     life os inh epfd Fresh (open_fds inh (hist s)) s"
| life_load: "life os inh epfd Fresh B s \<Longrightarrow> load os m path backend s = Some (Inr (), t) \<Longrightarrow>
     life os inh epfd Loaded B t"
| life_load_throws: "life os inh epfd Fresh B s \<Longrightarrow> load os m path backend s = Some (Inl a, t) \<Longrightarrow>
     life os inh epfd Failed B t"
| life_bind: "life os inh epfd Loaded B s \<Longrightarrow> bind os epfd s = Some (Inr (), t) \<Longrightarrow>
     life os inh epfd Bound B t"
| life_bind_throws: "life os inh epfd Loaded B s \<Longrightarrow> bind os epfd s = Some (Inl a, t) \<Longrightarrow>
     life os inh epfd Failed B t"
| life_receive: "life os inh epfd Bound B s \<Longrightarrow> receive os epfd s = Some (Inr (), t) \<Longrightarrow>
     life os inh epfd Bound B t"
| life_receive_ends: "life os inh epfd Bound B s \<Longrightarrow> receive os epfd s = Some (Inl a, t) \<Longrightarrow>
     life os inh epfd Failed B t"
| life_rest: "life os inh epfd p B s \<Longrightarrow> obj t = obj s \<Longrightarrow> fd_ok inh (ovars t) (hist t) \<Longrightarrow>
     life os inh epfd p (others inh (ovars t) (hist t)) t"

definition phase_ok :: "phase \<Rightarrow> outp \<Rightarrow> bool" where
  "phase_ok p o' \<longleftrightarrow> (case p of
      Fresh \<Rightarrow> pipefd0 o' = - 1 \<and> pipefd1 o' = - 1 \<and> redirect_fd o' = - 1 \<and> \<not> over o'
    | Loaded \<Rightarrow> (pipefd0 o' = - 1 \<longleftrightarrow> pipefd1 o' = - 1) \<and> redirect_fd o' = - 1 \<and> \<not> over o'
    | Bound \<Rightarrow> pipefd1 o' = - 1 \<and> (over o' \<longleftrightarrow> pipefd0 o' = - 1) \<and> (over o' \<longrightarrow> redirect_fd o' = - 1)
    | Failed \<Rightarrow> True)"

definition life_ok :: "int set \<Rightarrow> phase \<Rightarrow> int set \<Rightarrow> ost \<Rightarrow> bool" where
  "life_ok inh p B s \<longleftrightarrow> fd_ok inh (ovars s) (hist s) \<and> others inh (ovars s) (hist s) = B \<and> phase_ok p (obj s)"

lemma quiet_fd_ok:
  "quiet e \<Longrightarrow> fd_ok inh vars (e # h) = fd_ok inh vars h"
  "quiet e \<Longrightarrow> others inh vars (e # h) = others inh vars h"
  by (simp_all add: fd_ok_def others_def quiet_open_fds quiet_closes_ok
      del: open_fds.simps closes_ok.simps)

lemma quiet_simps [simp]:
  "quiet (Exists p, a)" "quiet (FcntlNonblock fd, a)" "quiet (EpollCtl e x fd, a)"
  "quiet (Dup2 fd fd2, a)" "quiet (Pipe, APipe (- 1) p0 p1)" "quiet (Open p f, AInt (- 1))"
  by (simp_all add: quiet_def opened_by_def)

lemma pipe_fd_ok:
  assumes "fresh_fds inh os" and "n = int_of os h Pipe" "n \<noteq> - 1"
    and "a = fst (pipe_of os h)" "b = snd (pipe_of os h)" and "fd_ok inh [- 1, - 1, - 1] h"
  shows "fd_ok inh [a, b, - 1] ((Pipe, APipe n a b) # h)"
    "others inh [a, b, - 1] ((Pipe, APipe n a b) # h) = others inh [- 1, - 1, - 1] h"
    "a \<noteq> - 1" "b \<noteq> - 1"
  using assms fresh_pipe [OF assms(1), of h]
  by (auto simp: fd_ok_def others_def opened_by_def)

lemma make_pipe_life:
  assumes "fresh_fds inh os" and "fd_ok inh [- 1, - 1, - 1] (hist s)"
    and "others inh [- 1, - 1, - 1] (hist s) = B" and "phase_ok Fresh (obj s)"
  shows "wp (make_pipe os) (\<lambda>_. life_ok inh Loaded B) (\<lambda>_. life_ok inh Failed B) s"
  using assms pipe_fd_ok [OF assms(1) refl _ refl refl assms(2)]
  by (auto simp: make_pipe_def wp Let_def life_ok_def phase_ok_def ovars_defs quiet_fd_ok)

lemma load_life:
  assumes "fresh_fds inh os" and "life_ok inh Fresh B s"
  shows "wp (load os m path backend) (\<lambda>_. life_ok inh Loaded B) (\<lambda>_. life_ok inh Failed B) s"
  using assms
  by (cases m) (auto simp: load_def wp life_ok_def phase_ok_def ovars_defs quiet_fd_ok
      intro!: make_pipe_life split: option.split)

lemma bind_life:
  assumes "fresh_fds inh os" and "life_ok inh Loaded B s"
  shows "wp (bind os epfd) (\<lambda>_. life_ok inh Bound B) (\<lambda>_. life_ok inh Failed B) s"
proof (cases "pipefd0 (obj s) = - 1")
  case True
  then show ?thesis
    using assms(2) by (auto simp: bind_def wp life_ok_def phase_ok_def ovars_defs)
next
  case False
  let ?c = "Open (c_str (redirect_to (obj s))) [O_WRONLY, O_TRUNC]"
  let ?n = "int_of os (hist s) ?c"
  have fresh: "?n \<noteq> - 1 \<Longrightarrow> 0 \<le> ?n \<and> ?n \<notin> open_fds inh (hist s)"
    using fresh_open [OF assms(1)] by blast
  show ?thesis
    using False assms(2) fresh
    by (cases "?n = - 1")
      (auto simp: bind_def wp life_ok_def phase_ok_def ovars_defs quiet_fd_ok fd_ok_def others_def
        quiet_open_fds quiet_closes_ok opened_by_def)
qed

lemma loops_keep_flags:
  "wp (msg_loop os tot) (\<lambda>_ t. ovars t = ovars s \<and> over (obj t) = over (obj s)) (\<lambda>_ _. True) s"
  "wp (file_loop os tot) (\<lambda>_ t. ovars t = ovars s \<and> over (obj t) = over (obj s)) (\<lambda>_ _. True) s"
proof -
  show "wp (msg_loop os tot) (\<lambda>_ t. ovars t = ovars s \<and> over (obj t) = over (obj s)) (\<lambda>_ _. True) s"
  proof (induction tot s rule: msg_loop_induct [of os])
    case (1 tot s)
    then show ?case
      by (subst msg_loop_wp) (auto simp: ovars_defs split: option.splits)
  qed
  show "wp (file_loop os tot) (\<lambda>_ t. ovars t = ovars s \<and> over (obj t) = over (obj s)) (\<lambda>_ _. True) s"
  proof (induction tot s rule: file_loop_induct [of os])
    case (1 tot s)
    then show ?case
      by (subst file_loop_wp) (auto simp: ovars_defs split: option.splits)
  qed
qed

definition bound_ok :: "outp \<Rightarrow> bool" where
  "bound_ok o' \<longleftrightarrow> pipefd1 o' = - 1 \<and> (over o' \<longleftrightarrow> pipefd0 o' = - 1) \<and>
     (over o' \<longrightarrow> redirect_fd o' = - 1)"

lemma receive_flags:
  assumes "bound_ok (obj s)"
  shows "wp (receive os epfd) (\<lambda>_ t. bound_ok (obj t)) (\<lambda>_ _. True) s"
  unfolding receive_def using assms
  by (cases "mode (obj s)")
    (auto simp: wp bound_ok_def ovars_defs close_pipe0_def close_redirect_def
      intro!: wp_mono [OF loops_keep_flags(1)] wp_mono [OF loops_keep_flags(2)])

lemma receive_life:
  assumes "life_ok inh Bound B s"
  shows "wp (receive os epfd) (\<lambda>_. life_ok inh Bound B) (\<lambda>_. life_ok inh Failed B) s"
proof -
  have "wp (receive os epfd) (\<lambda>_ t. bound_ok (obj t)) (\<lambda>_ _. True) s"
    using assms by (intro receive_flags) (simp add: life_ok_def phase_ok_def bound_ok_def)
  moreover have "wp (receive os epfd) (\<lambda>_. tidy inh ovars s) (\<lambda>_. tidy inh ovars s) s"
    by (rule obeys_wp [OF tidy_receive])
  ultimately have "wp (receive os epfd) (\<lambda>_ t. bound_ok (obj t) \<and> tidy inh ovars s t)
      (\<lambda>_ t. True \<and> tidy inh ovars s t) s"
    by (simp only: wp_conj)
  then show ?thesis
    by (rule wp_mono) (use assms in \<open>auto simp: life_ok_def phase_ok_def bound_ok_def tidy_def\<close>)
qed

lemma life_invariant:
  assumes "fresh_fds inh os" and "life os inh epfd p B s"
  shows "life_ok inh p B s"
  using assms(2)
proof induction
  case (life_fresh s)
  then show ?case
    by (simp add: life_ok_def phase_ok_def ovars_defs fd_ok_def others_def Output_def)
next
  case (life_rest p B s t)
  then show ?case
    by (simp add: life_ok_def ovars_defs)
qed (auto dest: wpD [OF load_life [OF assms(1)]] wpD_abrupt [OF load_life [OF assms(1)]]
      wpD [OF bind_life [OF assms(1)]] wpD_abrupt [OF bind_life [OF assms(1)]]
      wpD [OF receive_life] wpD_abrupt [OF receive_life])

lemma destroy_ends: "\<exists>t. destroy s = Some (Inr (), t) \<and> ovars t = [- 1, - 1, - 1] \<and> tidy inh ovars s t"
proof -
  have "obeys (tidy inh ovars) destroy"
    unfolding destroy_def by (intro tidiness.r_intros tidy_close)
  from obeys_wp [OF this, of s] have "wp destroy (\<lambda>_. tidy inh ovars s) (\<lambda>_. tidy inh ovars s) s" .
  moreover have "wp destroy (\<lambda>_ t. ovars t = [- 1, - 1, - 1]) (\<lambda>_ _. False) s"
    by (simp add: destroy_def close_pipe0_def close_pipe1_def close_redirect_def wp ovars_defs)
  ultimately have "wp destroy (\<lambda>_ t. tidy inh ovars s t \<and> ovars t = [- 1, - 1, - 1])
      (\<lambda>_ t. tidy inh ovars s t \<and> False) s"
    by (simp only: wp_conj)
  moreover have "returns destroy s"
    by (simp add: destroy_def close_pipe0_def close_pipe1_def close_redirect_def fld_def upd_def returns)
  ultimately show ?thesis
    by (auto dest: wp_total)
qed



end
