(* ===== verification/Trace.thy ===== *)
theory Trace
  imports OutputLife
begin

text \<open>
  What a run adds to the record of calls: the contract \<open>emits P\<close> (every added event satisfies
  \<open>P\<close>), the interface of all contracts that judge calls (\<open>recording\<close>), what each file and output operation emits, and conditions on a record that judge each
  event by the record before it.
\<close>

text \<open>The events of a file operation on a path.\<close>

definition file_event :: "string \<Rightarrow> string \<Rightarrow> event \<Rightarrow> bool" where
  "file_event path how e \<longleftrightarrow> (case fst e of
      Fopen p h \<Rightarrow> p = c_str path \<and> h = how
    | Fwrite _ _ \<Rightarrow> True | Fread _ _ \<Rightarrow> True | Fclose _ \<Rightarrow> True | Fseek _ \<Rightarrow> True | Ftell _ \<Rightarrow> True
    | Rewind _ \<Rightarrow> True | Ferror _ \<Rightarrow> True
    | _ \<Rightarrow> False)"

section \<open>Contracts on the record of calls\<close>

text \<open>
  A contract that allows the calls of a class \<open>ok\<close>, whatever they answer: then every primitive
  that makes such a call obeys it, and so does every file operation.
\<close>

locale recording = contract R for R :: "'z sys_scheme \<Rightarrow> 'z sys_scheme \<Rightarrow> bool" +
  fixes ok :: "event \<Rightarrow> bool"
  assumes R_event: "ok e \<Longrightarrow> R s (s\<lparr>hist := e # hist s, errno := n\<rparr>)"
begin

lemma R_event': "ok e \<Longrightarrow> R s (s\<lparr>hist := e # hist s\<rparr>)"
  using R_event [of e s "errno s"] by (cases s) simp

lemma r_sys:
  "ok (c, AUnit) \<Longrightarrow> obeys R (sys_do c)"
  "(\<And>n. ok (c, AInt n)) \<Longrightarrow> obeys R (sys_int os c)"
  "(\<And>b. ok (c, ABool b)) \<Longrightarrow> obeys R (sys_bool os c)"
  "(\<And>ns. ok (c, ANames ns)) \<Longrightarrow> obeys R (sys_names os c)"
  "(\<And>d. ok (Read fd k, ABytes d)) \<Longrightarrow> obeys R (sys_read os fd k)"
  "(\<And>d. ok (Fread st k, ABytes d)) \<Longrightarrow> obeys R (sys_fread os st k)"
  "(\<And>n a b. ok (Pipe, APipe n a b)) \<Longrightarrow> obeys R (sys_pipe os)"
  "(\<And>d. ok (EpollWait fd k tmo, AFds d)) \<Longrightarrow> obeys R (sys_epoll_wait os fd k tmo)"
  "(\<And>p w. ok (WaitPid, AWait p w)) \<Longrightarrow> obeys R (sys_waitpid os)"
  "(\<And>d. ok (Getpwnam u, APasswd d)) \<Longrightarrow> obeys R (sys_getpwnam os u)"
  "(\<And>d. ok (Signals, AFds d)) \<Longrightarrow> obeys R (sys_signals os)"
  "(\<And>d. ok (c, AText d)) \<Longrightarrow> obeys R (sys_text os c)"
  "(\<And>d. ok (Host (Getmntent st), AMnt d)) \<Longrightarrow> obeys R (sys_getmntent os st)"
  "obeys R (ThrowCAPIExceptionIf b msg)"
  by (auto intro!: obeysI R_event R_event' R_refl simp: wp Let_def split: option.split)

lemma r_closefd: "ok (Close fd, AUnit) \<Longrightarrow> obeys R (closefd fd)"
  by (auto simp: closefd_def intro!: r_sys r_intros)

lemma r_write_file:
  assumes "\<And>e. file_event path ''w'' e \<Longrightarrow> ok e"
  shows "obeys R (write_file os path data)"
  unfolding write_file_def
  by (auto intro!: r_sys r_intros r_on_block_exit assms simp: file_event_def)

lemma r_read_file:
  assumes "\<And>e. file_event path ''r'' e \<Longrightarrow> ok e"
  shows "obeys R (read_file os path)"
  unfolding read_file_def
  by (auto intro!: r_sys r_intros r_on_block_exit assms simp: file_event_def)

lemmas r_calls = r_sys r_closefd r_intros r_on_block_exit r_SafeExecute

end

section \<open>Added events\<close>

definition emits :: "(event \<Rightarrow> bool) \<Rightarrow> 'z sys_scheme \<Rightarrow> 'z sys_scheme \<Rightarrow> bool" where
  "emits P s t \<longleftrightarrow> (\<exists>es. hist t = es @ hist s \<and> (\<forall>e\<in>set es. P e))"

lemma emits_one: "hist t = e # hist s \<Longrightarrow> P e \<Longrightarrow> emits P s t"
  unfolding emits_def by (intro exI [of _ "[e]"]) simp

lemma emits_same: "hist t = hist s \<Longrightarrow> emits P s t"
  by (simp add: emits_def)

interpretation emission: recording "emits P" P for P
proof unfold_locales
  fix s t u :: "'a sys_scheme"
  show "emits P s s"
    by (simp add: emits_def)
  show "P e \<Longrightarrow> emits P s (s\<lparr>hist := e # hist s, errno := n\<rparr>)" for e n
    by (simp add: emits_one)
  assume "emits P s t" and "emits P t u"
  then obtain es es' where "hist t = es @ hist s" "hist u = es' @ hist t"
      "\<forall>e\<in>set es. P e" "\<forall>e\<in>set es'. P e"
    unfolding emits_def by metis
  then show "emits P s u"
    unfolding emits_def by (intro exI [of _ "es' @ es"]) auto
qed

named_theorems emit

lemmas emit_calls [emit] = emission.r_calls

lemma emits_mono: "obeys (emits P) m \<Longrightarrow> (\<And>e. P e \<Longrightarrow> Q e) \<Longrightarrow> obeys (emits Q) m"
  by (fastforce simp: obeys_def emits_def)

lemma emit_modify: "(\<And>s. hist (f s) = hist s) \<Longrightarrow> obeys (emits P) (modify f)"
  by (auto intro!: obeysI emits_same simp: wp)

lemma emit_zoom:
  "(\<And>s. hist (view s) = hist s) \<Longrightarrow> (\<And>t s. hist (put t s) = hist t) \<Longrightarrow> obeys (emits P) m \<Longrightarrow>
   obeys (emits P) (zoom view put m)"
  by (fastforce simp: obeys_def zoom_def emits_def split: option.splits)

section \<open>What the operations emit\<close>

definition output_event :: "event \<Rightarrow> bool" where
  "output_event e \<longleftrightarrow> (case fst e of
      Pipe \<Rightarrow> True | Exists _ \<Rightarrow> True | Open _ _ \<Rightarrow> True | Dup2 _ _ \<Rightarrow> True | Close _ \<Rightarrow> True
    | FcntlNonblock _ \<Rightarrow> True | EpollCtl _ _ _ \<Rightarrow> True | Read _ _ \<Rightarrow> True | Lseek _ \<Rightarrow> True
    | Write _ _ \<Rightarrow> True
    | _ \<Rightarrow> False)"

lemma output_event_simps [simp]:
  "output_event (Pipe, a)" "output_event (Exists p, a)" "output_event (Open p f, a)"
  "output_event (Dup2 fd fd2, a)" "output_event (Close fd, a)" "output_event (FcntlNonblock fd, a)"
  "output_event (EpollCtl ep x fd, a)" "output_event (Read fd n, a)" "output_event (Lseek fd, a)"
  "output_event (Write fd d, a)"
  by (simp_all add: output_event_def)

lemma emit_fld [emit]: "obeys (emits P) (fld f)" "obeys (emits P) (upd h)"
  by (auto simp: fld_def upd_def intro!: emit emit_modify)

lemma emit_close [emit]:
  "obeys (emits output_event) close_pipe0" "obeys (emits output_event) close_pipe1"
  "obeys (emits output_event) close_redirect" "obeys (emits output_event) destroy"
  by (auto simp: close_pipe0_def close_pipe1_def close_redirect_def destroy_def intro!: emit)

lemma emit_loops [emit]:
  "obeys (emits output_event) (msg_loop os tot)" "obeys (emits output_event) (file_loop os tot)"
proof -
  have read: "emits output_event s u \<Longrightarrow> emits output_event s (after_read os u)"
    and append: "emits output_event s u \<Longrightarrow> emits output_event s (after_append os b u)"
    and copy: "emits output_event s u \<Longrightarrow> emits output_event s (after_write os b u)" for s u b
  proof -
    assume u: "emits output_event s u"
    then show r: "emits output_event s (after_read os u)"
      by (rule emission.R_trans) (simp add: emits_one)
    then show "emits output_event s (after_append os b u)"
      by (simp add: emits_def)
    have "emits output_event (after_read os u) (after_write os b u)"
      unfolding emits_def after_write_def Let_def
      by (intro exI [of _ "[_, _]"]) auto
    with r show "emits output_event s (after_write os b u)"
      by (rule emission.R_trans)
  qed
  have "wp (msg_loop os tot) (\<lambda>_. emits output_event s) (\<lambda>_. emits output_event s) u"
    if "emits output_event s u" for s u tot
    using that
  proof (induction tot u rule: msg_loop_induct [of os])
    case (1 tot u)
    then show ?case
      by (subst msg_loop_wp) (auto simp: read append split: option.splits)
  qed
  then show "obeys (emits output_event) (msg_loop os tot)"
    by (auto intro!: obeysI emits_same)
  have "wp (file_loop os tot) (\<lambda>_. emits output_event s) (\<lambda>_. emits output_event s) u"
    if "emits output_event s u" for s u tot
    using that
  proof (induction tot u rule: file_loop_induct [of os])
    case (1 tot u)
    then show ?case
      by (subst file_loop_wp) (auto simp: read copy split: option.splits)
  qed
  then show "obeys (emits output_event) (file_loop os tot)"
    by (auto intro!: obeysI emits_same)
qed

lemma emit_output [emit]:
  "obeys (emits output_event) (load os m path backend)" "obeys (emits output_event) (dup os fd)"
  "obeys (emits output_event) (bind os ep)" "obeys (emits output_event) (receive os ep)"
  by (auto simp: load_def make_pipe_def dup_def bind_def receive_def intro!: emit split: outmode.split)

section \<open>Judging a record\<close>

text \<open>Every event satisfies \<open>Q\<close> with respect to the record before it.\<close>

fun all_events :: "(event \<Rightarrow> event list \<Rightarrow> bool) \<Rightarrow> event list \<Rightarrow> bool" where
  "all_events Q [] = True"
| "all_events Q (e # h) \<longleftrightarrow> Q e h \<and> all_events Q h"

lemma all_events_append:
  "all_events Q (es @ h) \<Longrightarrow> all_events Q h"
  "(\<And>e h'. e \<in> set es \<Longrightarrow> Q e h') \<Longrightarrow> all_events Q (es @ h) = all_events Q h"
  by (induction es) auto

lemma all_eventsD: "all_events Q h \<Longrightarrow> h = es @ e # h' \<Longrightarrow> Q e h'"
  using all_events_append(1) [of Q es "e # h'"] by simp

section \<open>Finite input\<close>

text \<open>
  A peer sends finitely much: at most \<open>n\<close> reads of a run deliver something.
\<close>

definition is_input :: "event \<Rightarrow> bool" where
  "is_input e \<longleftrightarrow> (case e of (Read _ _, ABytes (Some d)) \<Rightarrow> d \<noteq> [] | _ \<Rightarrow> False)"

definition input_bound :: "nat \<Rightarrow> os \<Rightarrow> bool" where
  "input_bound n os \<longleftrightarrow> (\<forall>h fd b. bytes_of os h (Read fd BUFSIZE) = Some b \<and> b \<noteq> [] \<longrightarrow>
     length (filter is_input h) < n)"

end
