(* ===== verification/Loops.thy ===== *)
theory Loops
  imports Prelude
begin

text \<open>
  A loop that may run for ever, as a combinator: the body is given what the previous round left and
  either goes on (\<open>Inl\<close>) or ends the loop with a result (\<open>Inr\<close>). One rule proves what such a loop
  does, one that it ends, one that it obeys a contract.
\<close>

lemma case_sum_mono [partial_function_mono]:
  "(\<And>x. mono_option (\<lambda>F. m x F)) \<Longrightarrow> (\<And>y. mono_option (\<lambda>F. n y F)) \<Longrightarrow>
   mono_option (\<lambda>F. (case v of Inl x \<Rightarrow> m x F | Inr y \<Rightarrow> n y F))"
  by (cases v) simp_all

lemma case_sum_mono' [partial_function_mono]:
  "(\<And>x. mono_option (\<lambda>F. m x F s)) \<Longrightarrow> (\<And>y. mono_option (\<lambda>F. n y F s)) \<Longrightarrow>
   mono_option (\<lambda>F. (case v of Inl x \<Rightarrow> m x F | Inr y \<Rightarrow> n y F) s)"
  by (cases v) simp_all

partial_function (option) loop :: "('x \<Rightarrow> ('s, 'x + 'r) prog) \<Rightarrow> 'x \<Rightarrow> ('s, 'r) prog" where
  "loop body x s = bnd (body x) (\<lambda>y. case y of Inl x' \<Rightarrow> loop body x' | Inr r \<Rightarrow> ret r) s"

lemma loop_unfold:
  "loop body x = bnd (body x) (\<lambda>y. case y of Inl x' \<Rightarrow> loop body x' | Inr r \<Rightarrow> ret r)"
  by (rule ext) (subst loop.simps, rule refl)

lemma loop_raw_induct:
  assumes "loop body x s = Some y"
    and "\<And>rec body x s y. (\<And>body x s y. rec body x s = Some y \<Longrightarrow> P body x s y) \<Longrightarrow>
      bnd (body x) (\<lambda>y. case y of Inl x' \<Rightarrow> rec body x' | Inr r \<Rightarrow> ret r) s = Some y \<Longrightarrow> P body x s y"
  shows "P body x s y"
  using loop.raw_induct [of P "((body, x), s)" y, unfolded prod.case] assms by blast

lemma loop_wp:
  fixes body :: "'x \<Rightarrow> ('s, 'x + 'r) prog"
  assumes "I x s"
    and "\<And>x s. I x s \<Longrightarrow> wp (body x) (\<lambda>y t. case y of Inl x' \<Rightarrow> I x' t | Inr r \<Rightarrow> Q r t) E s"
  shows "wp (loop body x) Q E s"
proof -
  have "loop body x s = Some y \<Longrightarrow> I x s \<longrightarrow>
      (\<forall>x s. I x s \<longrightarrow> wp (body x) (\<lambda>y t. case y of Inl x' \<Rightarrow> I x' t | Inr r \<Rightarrow> Q r t) E s) \<longrightarrow>
      (case fst y of Inl a \<Rightarrow> E a (snd y) | Inr r \<Rightarrow> Q r (snd y))" for y
  proof (erule loop_raw_induct [where P = "\<lambda>body x s y. I x s \<longrightarrow>
      (\<forall>x s. I x s \<longrightarrow> wp (body x) (\<lambda>y t. case y of Inl x' \<Rightarrow> I x' t | Inr r \<Rightarrow> Q r t) E s) \<longrightarrow>
      (case fst y of Inl a \<Rightarrow> E a (snd y) | Inr r \<Rightarrow> Q r (snd y))"], intro impI)
    fix rec :: "('x \<Rightarrow> ('s, 'x + 'r) prog) \<Rightarrow> 'x \<Rightarrow> ('s, 'r) prog" and body x s y
    assume ih: "\<And>body x s y. rec body x s = Some y \<Longrightarrow> I x s \<longrightarrow>
        (\<forall>x s. I x s \<longrightarrow> wp (body x) (\<lambda>y t. case y of Inl x' \<Rightarrow> I x' t | Inr r \<Rightarrow> Q r t) E s) \<longrightarrow>
        (case fst y of Inl a \<Rightarrow> E a (snd y) | Inr r \<Rightarrow> Q r (snd y))"
      and run: "bnd (body x) (\<lambda>y. case y of Inl x' \<Rightarrow> rec body x' | Inr r \<Rightarrow> ret r) s = Some y"
      and inv: "I x s"
      and step: "\<forall>x s. I x s \<longrightarrow> wp (body x) (\<lambda>y t. case y of Inl x' \<Rightarrow> I x' t | Inr r \<Rightarrow> Q r t) E s"
    have "wp (body x) (\<lambda>y t. case y of Inl x' \<Rightarrow> I x' t | Inr r \<Rightarrow> Q r t) E s"
      using inv step by blast
    then have "wp (bnd (body x) (\<lambda>y. case y of Inl x' \<Rightarrow> rec body x' | Inr r \<Rightarrow> ret r)) Q E s"
      unfolding wp_bnd
    proof (rule wp_mono)
      fix y t
      assume after: "case y of Inl x' \<Rightarrow> I x' t | Inr r \<Rightarrow> Q r t"
      show "wp (case y of Inl x' \<Rightarrow> rec body x' | Inr r \<Rightarrow> ret r) Q E t"
      proof (cases y)
        case (Inl x')
        then show ?thesis
          using after ih [of body x' t] step by (auto intro!: wpI)
      qed (use after in \<open>simp add: wp\<close>)
    qed
    with run show "case fst y of Inl a \<Rightarrow> E a (snd y) | Inr r \<Rightarrow> Q r (snd y)"
      by (cases y; cases "fst y") (auto simp: wp_def)
  qed
  then show ?thesis
    using assms by (fastforce intro!: wpI)
qed

lemma loop_returns:
  fixes \<mu> :: "'x \<Rightarrow> 's \<Rightarrow> nat"
  assumes "I x s"
    and "\<And>x s. I x s \<Longrightarrow> returns (body x) s"
    and "\<And>x s x' t. I x s \<Longrightarrow> body x s = Some (Inr (Inl x'), t) \<Longrightarrow> I x' t \<and> \<mu> x' t < \<mu> x s"
  shows "returns (loop body x) s"
  using assms(1)
proof (induction "\<mu> x s" arbitrary: x s rule: less_induct)
  case less
  show ?case
    using less assms(2,3) by (subst loop_unfold) (fastforce intro!: returns split: sum.split)
qed

context contract
begin

lemma r_loop:
  assumes "\<And>x. obeys R (body x)"
  shows "obeys R (loop body x)"
proof (rule obeysI)
  fix s
  show "wp (loop body x) (\<lambda>_. R s) (\<lambda>_. R s) s"
  proof (rule loop_wp [where I = "\<lambda>_. R s"])
    show "R s s"
      by (rule R_refl)
    show "wp (body y) (\<lambda>z t. case z of Inl x' \<Rightarrow> R s t | Inr r \<Rightarrow> R s t) (\<lambda>_. R s) t" if "R s t" for y t
      by (rule wp_mono [OF obeys_wp [OF assms]]) (auto intro: R_trans [OF that] split: sum.split)
  qed
qed

end

end
