(* ===== verification/Srunc.thy ===== *)
theory Srunc
  imports Trace Loops
begin

text \<open>
  \<^verbatim>\<open>src/src/srunc.cpp\<close>: the client library. A client object holds the socket and the names of the
  output files; \<^verbatim>\<open>exec\<close> sends one message and answers \<^verbatim>\<open>SYN\<close> messages until another one comes. The
  message object that \<^verbatim>\<open>exec\<close> is given by reference is the field \<open>cmsg\<close>.
\<close>

section \<open>State\<close>

record client = sys +
  sockfd :: int
  outfile :: string
  errfile :: string
  cmsg :: message

definition EINPROGRESS :: int where
  "EINPROGRESS = 115"

text \<open>The constructor, on what the process has done so far.\<close>

definition Srunc :: "event list \<Rightarrow> int \<Rightarrow> client" where
  "Srunc h e = \<lparr>hist = h, errno = e, sockfd = - 1, outfile = [], errfile = [], cmsg = message0\<rparr>"

section \<open>Operations\<close>

definition close_sockfd :: "(client, unit) prog" where
  "close_sockfd = bnd (get sockfd) (\<lambda>fd. bnd (closefd fd) (\<lambda>v. modify (\<lambda>s. s\<lparr>sockfd := v\<rparr>)))"

text \<open>The destructor.\<close>

definition destroy_client :: "(client, unit) prog" where
  "destroy_client = seq close_sockfd (sys_do ShutdownProtobuf)"

definition create777 :: "os \<Rightarrow> string \<Rightarrow> (client, unit) prog" where
  "create777 os filepath =
     seq (ThrowInvalidArgumentIf (filepath = []) ''create777(empty)'')
     (bnd (sys_int os (Creat (c_str filepath))) (\<lambda>fd.
      seq (ThrowCAPIExceptionIf (- 1 = fd) (''create777 '' @ filepath))
        (sys_do (Close fd))))"

definition deleteOutFiles :: "(client, unit) prog" where
  "deleteOutFiles =
     bnd (get outfile) (\<lambda>ofile.
     seq (whenp (ofile \<noteq> []) (sys_do (Unlink (c_str ofile))))
     (bnd (get errfile) (\<lambda>efile. whenp (efile \<noteq> []) (sys_do (Unlink (c_str efile))))))"

definition recv_all :: "os \<Rightarrow> string \<Rightarrow> (client, string) prog" where
  "recv_all os = loop (\<lambda>data. bnd (get sockfd) (\<lambda>fd. bnd (sys_read os fd BUFSIZE) (\<lambda>r. ret (case r of
       None \<Rightarrow> Inr data
     | Some buffer \<Rightarrow> if buffer = [] then Inr data else Inl (data @ buffer)))))"

text \<open>A decoder that fails leaves something in the message all the same.\<close>

definition recvMessage :: "os \<Rightarrow> (client, unit) prog" where
  "recvMessage os = bnd (recv_all os []) (\<lambda>data.
     seq (ThrowCAPIExceptionIf (data = []) ''recvMessage empty'')
     (case parse os data of
        None \<Rightarrow> seq (modify (\<lambda>s. s\<lparr>cmsg := residue os data\<rparr>))
          (throw (runtime_error ''Message ParseFromString failed''))
      | Some m \<Rightarrow> modify (\<lambda>s. s\<lparr>cmsg := m\<rparr>)))"

definition sendMessage :: "os \<Rightarrow> message \<Rightarrow> (client, unit) prog" where
  "sendMessage os m = (case serialize os m of
       None \<Rightarrow> throw (runtime_error ''Message SerializeToString failed'')
     | Some data \<Rightarrow> bnd (get sockfd) (\<lambda>fd. bnd (sys_int os (Write fd data)) (\<lambda>len.
         ThrowCAPIExceptionIf (len \<noteq> cint (int (length data))) ''SendMessage'')))"

text \<open>The \<^verbatim>\<open>for\<close> loop over the descriptors that are ready; the result tells whether it returned.\<close>

primrec poll_round :: "os \<Rightarrow> nat \<Rightarrow> (client, bool) prog" where
  "poll_round os 0 = ret False"
| "poll_round os (Suc n) = seq (recvMessage os) (bnd (get (\<lambda>s. ms_method (cmsg s))) (\<lambda>method.
     if method = SYN then seq (sendMessage os (message0\<lparr>ms_method := ACK\<rparr>)) (poll_round os n)
     else seq close_sockfd (ret True)))"

definition exec_loop :: "os \<Rightarrow> (client, bool) prog" where
  "exec_loop os = loop (\<lambda>_. bnd (get sockfd) (\<lambda>fd. bnd (sys_int os (Poll fd)) (\<lambda>nfds.
     seq (ThrowRuntimeIf (nfds < 0) ''poll'')
     (bnd (poll_round os (nat nfds)) (\<lambda>answered. ret (if answered then Inr True else Inl ())))))) ()"

definition open_connection :: "os \<Rightarrow> (client, unit) prog" where
  "open_connection os =
     bnd (sys_int os (Socket True)) (\<lambda>fd.
     seq (modify (\<lambda>s. s\<lparr>sockfd := fd\<rparr>))
     (seq (ThrowCAPIExceptionIf (- 1 = fd) ''socket'')
     (bnd (sys_int os (Host (Connect fd sockfile))) (\<lambda>n. bnd (get errno) (\<lambda>e.
      ThrowCAPIExceptionIf (- 1 = n \<and> e \<noteq> EINPROGRESS) ''connect'')))))"

definition exec :: "os \<Rightarrow> (client, bool) prog" where
  "exec os = try_catch
     (seq (open_connection os)
     (bnd (get cmsg) (\<lambda>m. seq (sendMessage os m) (exec_loop os))))
     (\<lambda>_. ret False)"

text \<open>An exception that reaches a \<^verbatim>\<open>noexcept\<close> function ends the process.\<close>

definition noexcept :: "('s, 'a) prog \<Rightarrow> ('s, 'a) prog" where
  "noexcept m = try_catch m (\<lambda>_. halt Abort)"

definition list_cmd :: "os \<Rightarrow> (client, bool \<times> runproc list) prog" where
  "list_cmd os = noexcept
     (seq (modify (\<lambda>s. s\<lparr>cmsg := message0\<lparr>ms_method := LIST\<rparr>\<rparr>))
     (bnd (exec os) (\<lambda>r. bnd (get (\<lambda>s. ms_runlist (cmsg s))) (\<lambda>runlist. ret (r, runlist)))))"

definition run_cmd :: "os \<Rightarrow> request \<Rightarrow> (client, bool \<times> response) prog" where
  "run_cmd os rq = noexcept
     (seq (whenp (rq_outmode rq = FILE)
       (seq (modify (\<lambda>s. s\<lparr>outfile := rq_outfile rq\<rparr>)) (create777 os (rq_outfile rq))))
     (seq (whenp (rq_errmode rq = FILE)
       (seq (modify (\<lambda>s. s\<lparr>errfile := rq_errfile rq\<rparr>)) (create777 os (rq_errfile rq))))
     (seq (modify (\<lambda>s. s\<lparr>cmsg := message0\<lparr>ms_method := EXE, ms_request := Some rq\<rparr>\<rparr>))
     (bnd (exec os) (\<lambda>r. bnd (get (\<lambda>s. the_response (cmsg s))) (\<lambda>answer. ret (r, answer)))))))"

definition stop_cmd :: "os \<Rightarrow> int list \<Rightarrow> (client, bool) prog" where
  "stop_cmd os pids =
     seq (modify (\<lambda>s. s\<lparr>cmsg := message0\<lparr>ms_method := STOP,
       ms_runlist := map (\<lambda>pid. \<lparr>rp_pid = pid, rp_since = 0, rp_request = None\<rparr>) pids\<rparr>\<rparr>))
       (exec os)"

end
