(* ===== verification/Raises.thy ===== *)
theory Raises
  imports Utils Loops
begin

text \<open>
  Programs whose only abrupt ends are C++ exceptions: they do not exit, abort or run into undefined
  behaviour. A handler around such a program catches everything that can happen.
\<close>

definition only_raises :: "('s, 'a) prog \<Rightarrow> bool" where
  "only_raises m \<longleftrightarrow> (\<forall>s a t. m s = Some (Inl a, t) \<longrightarrow> (\<exists>e. a = Raise e))"

lemma only_raises_wp: "only_raises m \<longleftrightarrow> (\<forall>s. wp m (\<lambda>_ _. True) (\<lambda>a _. \<exists>e. a = Raise e) s)"
  by (auto simp: only_raises_def wp_def split: option.splits sum.splits)

lemma only_raisesI: "(\<And>s. wp m (\<lambda>_ _. True) (\<lambda>a _. \<exists>e. a = Raise e) s) \<Longrightarrow> only_raises m"
  by (simp add: only_raises_wp)

lemma only_raisesD: "only_raises m \<Longrightarrow> wp m (\<lambda>_ _. True) (\<lambda>a _. \<exists>e. a = Raise e) s"
  by (simp add: only_raises_wp)

named_theorems raises

lemma raises_prims [raises]:
  "only_raises (ret x)" "only_raises (throw e)" "only_raises (get f)" "only_raises (modify upd)"
  "only_raises (sys_do c)" "only_raises (sys_int os c)" "only_raises (sys_bool os c)" "only_raises (sys_names os c)"
  "only_raises (sys_read os fd n)" "only_raises (sys_waitpid os)" "only_raises (sys_signals os)" "only_raises (sys_getmntent os st)"
  "only_raises (ThrowRuntimeIf b msg)" "only_raises (ThrowLogicIf b msg)" "only_raises (ThrowInvalidArgumentIf b msg)"
  "only_raises (ThrowCAPIExceptionIf b msg)"
  by (auto intro!: only_raisesI simp: wp Let_def split: option.split)

lemma raises_bnd [raises]: "only_raises m \<Longrightarrow> (\<And>x. only_raises (f x)) \<Longrightarrow> only_raises (bnd m f)"
  unfolding only_raises_wp wp_bnd by (blast intro: wp_mono)

lemma raises_seq [raises]: "only_raises m \<Longrightarrow> only_raises n \<Longrightarrow> only_raises (seq m n)"
  by (simp add: seq_def raises_bnd)

lemma raises_if [raises]: "only_raises m \<Longrightarrow> only_raises n \<Longrightarrow> only_raises (if b then m else n)"
  by simp

lemma raises_whenp [raises]: "only_raises m \<Longrightarrow> only_raises (whenp b m)"
  by (simp add: whenp_def raises_prims)

lemma raises_for_each [raises]: "(\<And>x. only_raises (body x)) \<Longrightarrow> only_raises (for_each xs body)"
  by (induction xs) (auto intro!: raises)

lemma raises_loop [raises]: "(\<And>x. only_raises (body x)) \<Longrightarrow> only_raises (loop body x)"
  unfolding only_raises_wp
  by (intro allI loop_wp [where I = "\<lambda>_ _. True"]) (auto intro!: wp_mono split: sum.split)

lemma raises_on_block_exit [raises]:
  assumes "only_raises body" and "only_raises (Execute g)"
  shows "only_raises (on_block_exit g body)"
proof (rule only_raisesI)
  fix s
  have safe: "wp (SafeExecute g) (\<lambda>_ _. True) (\<lambda>a _. \<exists>e. a = Raise e) t" for t
    using only_raisesD [OF assms(2), of t] by (auto simp: wp intro: wp_mono split: abrupt.split)
  show "wp (on_block_exit g body) (\<lambda>_ _. True) (\<lambda>a _. \<exists>e. a = Raise e) s"
    unfolding wp_on_block_exit
    by (rule wp_mono [OF only_raisesD [OF assms(1)]]) (auto intro: wp_mono [OF safe])
qed

lemma raises_files [raises]: "only_raises (write_file os path data)" "only_raises (read_file os path)" "only_raises (closefd fd)"
  by (auto simp: write_file_def read_file_def closefd_def sys_fread_def Let_def only_raises_def [of "sys_fread os st n" for st n]
      intro!: raises)

text \<open>A handler that catches everything.\<close>

lemma caught:
  assumes "only_raises m" and "\<And>e t. wp (h e) Q E t" and "wp m Q (\<lambda>_ _. True) s"
  shows "wp (try_catch m h) Q E s"
proof -
  have "wp m Q (\<lambda>a _. \<exists>e. a = Raise e) s"
    using only_raisesD [OF assms(1), of s] assms(3) by (auto simp: wp_def split: option.splits sum.splits)
  then show ?thesis
    unfolding wp_try_catch by (rule wp_mono) (auto intro: assms(2))
qed

end
