(* ===== verification/SruncDialog.thy ===== *)
theory SruncDialog
  imports Srunc Raises
begin

text \<open>
  The client's side of the conversation, read off the record of calls: the messages that were
  delivered and what was written. \<^verbatim>\<open>exec\<close> follows the protocol, ends, and closes its socket.
\<close>

section \<open>Messages in and out\<close>

text \<open>
  What the bytes of a record amount to: the piece received since the last silence, and the
  messages before it, oldest first; and the data written, oldest first.
\<close>

definition decoded :: "os \<Rightarrow> string \<Rightarrow> message list" where
  "decoded os data = (if data = [] then [] else case parse os data of None \<Rightarrow> [] | Some m \<Rightarrow> [m])"

fun inbox :: "os \<Rightarrow> event list \<Rightarrow> string \<times> message list" where
  "inbox os [] = ([], [])"
| "inbox os (e # h) = (case e of
      (Read _ _, ABytes d) \<Rightarrow> (case d of
          None \<Rightarrow> ([], snd (inbox os h) @ decoded os (fst (inbox os h)))
        | Some b \<Rightarrow> if b = [] then ([], snd (inbox os h) @ decoded os (fst (inbox os h)))
            else (fst (inbox os h) @ b, snd (inbox os h)))
    | _ \<Rightarrow> inbox os h)"

fun outbox :: "event list \<Rightarrow> string list" where
  "outbox [] = []"
| "outbox (e # h) = outbox h @ (case fst e of Write _ d \<Rightarrow> [d] | _ \<Rightarrow> [])"

text \<open>A part of a conversation: messages delivered, data written, the socket kept.\<close>

definition talked :: "os \<Rightarrow> message list \<Rightarrow> string list \<Rightarrow> client \<Rightarrow> client \<Rightarrow> bool" where
  "talked os ms ds s t \<longleftrightarrow> fst (inbox os (hist t)) = [] \<and> snd (inbox os (hist t)) = snd (inbox os (hist s)) @ ms \<and>
     outbox (hist t) = outbox (hist s) @ ds"

lemma talked_trans: "talked os ms ds s t \<Longrightarrow> talked os ms' ds' t u \<Longrightarrow> talked os (ms @ ms') (ds @ ds') s u"
  by (simp add: talked_def)

lemma recv_all_talks:
  "fst (inbox os (hist s)) = data \<Longrightarrow>
   wp (recv_all os data) (\<lambda>d t. talked os (decoded os d) [] s t \<and> cmsg t = cmsg s) (\<lambda>_ _. False) s"
  unfolding recv_all_def
  by (rule loop_wp [where I = "\<lambda>d t. inbox os (hist t) = (d, snd (inbox os (hist s))) \<and> outbox (hist t) = outbox (hist s) \<and> cmsg t = cmsg s"])
    (auto simp: wp Let_def talked_def prod_eq_iff split: option.split)

lemma recvMessage_talks:
  "fst (inbox os (hist s)) = [] \<Longrightarrow>
   wp (recvMessage os) (\<lambda>_ t. talked os [cmsg t] [] s t) (\<lambda>a _. \<exists>e. a = Raise e) s"
  unfolding recvMessage_def wp_bnd
  by (rule wp_mono [OF recv_all_talks]) (auto simp: wp talked_def decoded_def split: option.split)

definition ack :: message where
  "ack = message0\<lparr>ms_method := ACK\<rparr>"

lemma sendMessage_talks:
  "fst (inbox os (hist s)) = [] \<Longrightarrow>
   wp (sendMessage os m) (\<lambda>_ t. (\<exists>d. serialize os m = Some d \<and> talked os [] [d] s t) \<and> cmsg t = cmsg s \<and> sockfd t = sockfd s)
     (\<lambda>a _. \<exists>e. a = Raise e) s"
  by (auto simp: sendMessage_def wp talked_def split: option.split)

text \<open>Each \<open>SYN\<close> is answered by one acknowledgement.\<close>

definition acked :: "os \<Rightarrow> message list \<Rightarrow> string list \<Rightarrow> bool" where
  "acked os = list_all2 (\<lambda>m d. ms_method m = SYN \<and> serialize os ack = Some d)"

lemma acked_simps [simp]:
  "acked os [] []" "acked os [m] [d] \<longleftrightarrow> ms_method m = SYN \<and> serialize os ack = Some d"
  by (simp_all add: acked_def)

lemma acked_append: "acked os ms ds \<Longrightarrow> acked os ms' ds' \<Longrightarrow> acked os (ms @ ms') (ds @ ds')"
  by (simp add: acked_def list_all2_appendI)

text \<open>Rounds that were answered with acknowledgements only, and the last one.\<close>

definition keepalive :: "os \<Rightarrow> client \<Rightarrow> client \<Rightarrow> bool" where
  "keepalive os s t \<longleftrightarrow> (\<exists>ms ds. talked os ms ds s t \<and> acked os ms ds)"

definition answered :: "os \<Rightarrow> client \<Rightarrow> client \<Rightarrow> bool" where
  "answered os s t \<longleftrightarrow> (\<exists>ms ds. talked os (ms @ [cmsg t]) ds s t \<and>
     acked os ms ds) \<and>
     ms_method (cmsg t) \<noteq> SYN \<and> sockfd t = - 1"

lemma keepalive_refl: "fst (inbox os (hist s)) = [] \<Longrightarrow> keepalive os s s"
  by (auto simp: keepalive_def talked_def intro!: exI [of _ "[]"])

lemma keepalive_silent: "keepalive os s t \<Longrightarrow> fst (inbox os (hist t)) = []"
  by (auto simp: keepalive_def talked_def)

lemma keepalive_trans: "keepalive os s t \<Longrightarrow> keepalive os t u \<Longrightarrow> keepalive os s u"
  unfolding keepalive_def by (blast intro: talked_trans acked_append)

lemma keepalive_answered: "keepalive os s t \<Longrightarrow> answered os t u \<Longrightarrow> answered os s u"
  unfolding keepalive_def answered_def
  by (elim exE conjE, drule (1) talked_trans) (metis acked_append append.assoc)

lemma poll_round_talks:
  "fst (inbox os (hist s)) = [] \<Longrightarrow>
   wp (poll_round os n) (\<lambda>b t. if b then answered os s t else keepalive os s t) (\<lambda>a _. \<exists>e. a = Raise e) s"
proof (induction n arbitrary: s)
  case (Suc n)
  have last: "answered os s (t\<lparr>sockfd := - 1\<rparr>)" "answered os s (t\<lparr>hist := (Close fd, AUnit) # hist t, sockfd := - 1\<rparr>)"
    if "talked os [cmsg t] [] s t" "ms_method (cmsg t) \<noteq> SYN" for t fd
    using that by (auto simp: answered_def talked_def intro!: exI [of _ "[]"])
  have more: "keepalive os s u" if "talked os [cmsg t] [] s t" "ms_method (cmsg t) = SYN" "serialize os ack = Some d"
    "talked os [] [d] t u" for t u d
    using talked_trans [OF that(1,4)] that(2,3) unfolding keepalive_def by (auto intro!: exI [of _ "[cmsg t]"] exI [of _ "[d]"])
  show ?case
    unfolding poll_round.simps wp_seq
  proof (rule wp_mono [OF recvMessage_talks [OF Suc.prems]])
    fix x t
    assume t: "talked os [cmsg t] [] s t"
    then have silent: "fst (inbox os (hist t)) = []"
      by (simp add: talked_def)
    show "wp (bnd (get (\<lambda>s. ms_method (cmsg s))) (\<lambda>method.
        if method = SYN then seq (sendMessage os (message0\<lparr>ms_method := ACK\<rparr>)) (poll_round os n)
        else seq close_sockfd (ret True)))
      (\<lambda>b t. if b then answered os s t else keepalive os s t) (\<lambda>a _. \<exists>e. a = Raise e) t"
    proof (cases "ms_method (cmsg t) = SYN")
      case True
      show ?thesis
        unfolding wp_bnd wp_get if_P [OF True] wp_seq ack_def [symmetric]
      proof (rule wp_mono [OF sendMessage_talks [OF silent]])
        fix y u
        assume "(\<exists>d. serialize os ack = Some d \<and> talked os [] [d] t u) \<and> cmsg u = cmsg t \<and> sockfd u = sockfd t"
        then have u: "keepalive os s u"
          using more [OF t True] by blast
        show "wp (poll_round os n) (\<lambda>b t. if b then answered os s t else keepalive os s t) (\<lambda>a _. \<exists>e. a = Raise e) u"
          by (rule wp_mono [OF Suc.IH [OF keepalive_silent [OF u]]])
            (use u in \<open>auto intro: keepalive_trans keepalive_answered split: if_splits\<close>)
      qed simp
    qed (use t last in \<open>simp add: wp close_sockfd_def\<close>)
  qed simp
qed (simp add: wp keepalive_refl)

lemma exec_loop_talks:
  assumes "fst (inbox os (hist s)) = []"
  shows "wp (exec_loop os) (\<lambda>b t. b \<and> answered os s t) (\<lambda>a _. \<exists>e. a = Raise e) s"
  unfolding exec_loop_def
proof (rule loop_wp [where I = "\<lambda>_. keepalive os s"])
  show "keepalive os s s"
    by (rule keepalive_refl [OF assms])
next
  fix x :: unit and t
  assume t: "keepalive os s t"
  have polled: "keepalive os s (t\<lparr>hist := (Poll fd, a) # hist t, errno := e\<rparr>)" for fd a e
    using t by (simp add: keepalive_def talked_def)
  have round: "wp (poll_round os n) (\<lambda>b u. if b then answered os s u else keepalive os s u) (\<lambda>a _. \<exists>e. a = Raise e) u"
    if u: "keepalive os s u" for n u
    by (rule wp_mono [OF poll_round_talks [OF keepalive_silent [OF u]]])
      (use u in \<open>auto intro: keepalive_trans keepalive_answered split: if_splits\<close>)
  show "wp (bnd (get sockfd) (\<lambda>fd. bnd (sys_int os (Poll fd)) (\<lambda>nfds.
     seq (ThrowRuntimeIf (nfds < 0) ''poll'')
     (bnd (poll_round os (nat nfds)) (\<lambda>answered. ret (if answered then Inr True else Inl ()))))))
     (\<lambda>y t. case y of Inl x' \<Rightarrow> keepalive os s t | Inr r \<Rightarrow> r \<and> answered os s t) (\<lambda>a _. \<exists>e. a = Raise e) t"
    by (auto simp: wp intro!: wp_mono [OF round [OF polled]])
qed

text \<open>An exchange that went well.\<close>

definition went_well :: "os \<Rightarrow> client \<Rightarrow> client \<Rightarrow> bool" where
  "went_well os s t \<longleftrightarrow> (\<exists>req u. serialize os (cmsg s) = Some req \<and> talked os [] [req] s u \<and> answered os u t)"

lemma exec_went_well:
  assumes silent: "fst (inbox os (hist s)) = []"
  shows "wp (exec os) (\<lambda>b t. b \<longrightarrow> went_well os s t) (\<lambda>_ _. False) s"
proof -
  let ?good = "went_well os s"
  have conn: "wp (open_connection os) (\<lambda>_ u. talked os [] [] s u \<and> cmsg u = cmsg s) (\<lambda>a _. \<exists>e. a = Raise e) s"
    using silent by (auto simp: open_connection_def wp talked_def)
  have sent: "wp (seq (sendMessage os (cmsg s)) (exec_loop os)) (\<lambda>b t. b \<and> ?good t) (\<lambda>a _. \<exists>e. a = Raise e) u"
    if u: "talked os [] [] s u" for u
    unfolding wp_seq
  proof (rule wp_mono [OF sendMessage_talks])
    show "fst (inbox os (hist u)) = []"
      using u by (simp add: talked_def)
    fix x v
    assume v: "(\<exists>d. serialize os (cmsg s) = Some d \<and> talked os [] [d] u v) \<and> cmsg v = cmsg u \<and> sockfd v = sockfd u"
    then obtain d where d: "serialize os (cmsg s) = Some d" "talked os [] [d] s v"
      using talked_trans [OF u] by fastforce
    then show "wp (exec_loop os) (\<lambda>b t. b \<and> ?good t) (\<lambda>a _. \<exists>e. a = Raise e) v"
      by (intro wp_mono [OF exec_loop_talks]) (auto simp: talked_def went_well_def)
  qed simp
  show ?thesis
    unfolding exec_def wp_try_catch wp_seq [of "open_connection os"] wp_bnd wp_get
  proof (rule wp_mono [OF conn])
    fix x u
    assume u: "talked os [] [] s u \<and> cmsg u = cmsg s"
    show "wp (seq (sendMessage os (cmsg u)) (exec_loop os)) (\<lambda>b t. b \<longrightarrow> ?good t)
        (\<lambda>a t. case a of Raise e \<Rightarrow> wp (ret False) (\<lambda>b t. b \<longrightarrow> ?good t) (\<lambda>_ _. False) t | _ \<Rightarrow> False) u"
      unfolding conjunct2 [OF u] 
      by (rule wp_mono [OF sent [OF conjunct1 [OF u]]]) (auto simp: wp)
  qed (auto simp: wp)
qed

text \<open>
  C34: the client follows the protocol. \<^verbatim>\<open>exec\<close> lets no exception out; when it reports success it
  has written its message first and then one acknowledgement for each \<open>SYN\<close> it was sent, and nothing
  else; the first message that is no \<open>SYN\<close> ended the exchange, it is the one left in the message
  object, and the socket is closed.
\<close>

theorem exec_follows_protocol:
  assumes "fst (inbox os (hist s)) = []" and "exec os s = Some (r, t)"
  shows "\<exists>b. r = Inr b \<and> (b \<longrightarrow> (\<exists>req syns acks. serialize os (cmsg s) = Some req \<and>
      snd (inbox os (hist t)) = snd (inbox os (hist s)) @ syns @ [cmsg t] \<and>
      outbox (hist t) = outbox (hist s) @ req # acks \<and>
      list_all2 (\<lambda>m d. ms_method m = SYN \<and> serialize os (message0\<lparr>ms_method := ACK\<rparr>) = Some d) syns acks \<and>
      ms_method (cmsg t) \<noteq> SYN \<and> sockfd t = - 1))"
proof -
  have "\<exists>b. r = Inr b \<and> (b \<longrightarrow> went_well os s t)"
    using exec_went_well [OF assms(1)] assms(2) by (cases r) (auto simp: wp_def)
  moreover have "\<exists>req syns acks. serialize os (cmsg s) = Some req \<and>
      snd (inbox os (hist t)) = snd (inbox os (hist s)) @ syns @ [cmsg t] \<and>
      outbox (hist t) = outbox (hist s) @ req # acks \<and>
      list_all2 (\<lambda>m d. ms_method m = SYN \<and> serialize os (message0\<lparr>ms_method := ACK\<rparr>) = Some d) syns acks \<and>
      ms_method (cmsg t) \<noteq> SYN \<and> sockfd t = - 1" if "went_well os s t"
    using that by (auto simp: went_well_def answered_def talked_def acked_def ack_def)
  ultimately show ?thesis
    by blast
qed

section \<open>Termination\<close>

definition inputs :: "client \<Rightarrow> nat" where
  "inputs s = length (filter is_input (hist s))"

lemma inputs_bounded:
  "input_bound n os \<Longrightarrow> bytes_of os (hist s) (Read fd BUFSIZE) = Some b \<Longrightarrow> b \<noteq> [] \<Longrightarrow> inputs s < n"
  by (auto simp: input_bound_def inputs_def)

lemma returns_recv_all:
  assumes "input_bound n os"
  shows "returns (recv_all os data) s"
  unfolding recv_all_def
proof (rule loop_returns [where I = "\<lambda>_ _. True" and \<mu> = "\<lambda>_ s. n - inputs s"])
  fix x x' and s t :: client
  assume "bnd (get sockfd) (\<lambda>fd. bnd (sys_read os fd BUFSIZE) (\<lambda>r. ret (case r of
       None \<Rightarrow> Inr x | Some buffer \<Rightarrow> if buffer = [] then Inr x else Inl (x @ buffer)))) s = Some (Inr (Inl x'), t)"
  then obtain b where "bytes_of os (hist s) (Read (sockfd s) BUFSIZE) = Some b" "b \<noteq> []" "inputs t = Suc (inputs s)"
    by (auto simp: bnd_def get_def sys_read_def ret_def Let_def inputs_def is_input_def split: option.splits if_splits)
  then show "True \<and> n - inputs t < n - inputs s"
    using inputs_bounded [OF assms] by fastforce
qed (auto intro!: returns)

lemma recv_all_inputs:
  "wp (recv_all os data) (\<lambda>d t. inputs s \<le> inputs t \<and> (d \<noteq> data \<longrightarrow> inputs s < inputs t)) (\<lambda>_ _. False) s"
  unfolding recv_all_def
  by (rule loop_wp [where I = "\<lambda>d t. inputs s \<le> inputs t \<and> (d \<noteq> data \<longrightarrow> inputs s < inputs t)"])
    (auto simp: wp Let_def inputs_def is_input_def split: option.split)

lemma recvMessage_inputs: "wp (recvMessage os) (\<lambda>_ t. inputs s < inputs t) (\<lambda>_ _. True) s"
  unfolding recvMessage_def wp_bnd
  by (rule wp_mono [OF recv_all_inputs]) (auto simp: wp inputs_def split: option.split)

lemma sendMessage_inputs: "wp (sendMessage os m) (\<lambda>_ t. inputs t = inputs s) (\<lambda>_ _. True) s"
  by (auto simp: sendMessage_def wp inputs_def is_input_def split: option.split)

lemma poll_round_inputs: "wp (poll_round os n) (\<lambda>b t. inputs s \<le> inputs t \<and> (0 < n \<longrightarrow> inputs s < inputs t)) (\<lambda>_ _. True) s"
proof (induction n arbitrary: s)
  case (Suc n)
  show ?case
    unfolding poll_round.simps wp_seq wp_bnd wp_get wp_if
  proof (rule wp_mono [OF recvMessage_inputs])
    fix x t
    assume t: "inputs s < inputs t"
    have close: "wp close_sockfd (\<lambda>_. wp (ret True) (\<lambda>b u. inputs s \<le> inputs u \<and> (0 < Suc n \<longrightarrow> inputs s < inputs u)) (\<lambda>_ _. True))
        (\<lambda>_ _. True) t"
      using t by (simp add: close_sockfd_def wp inputs_def is_input_def)
    have send: "wp (sendMessage os m) (\<lambda>_. wp (poll_round os n)
        (\<lambda>b u. inputs s \<le> inputs u \<and> (0 < Suc n \<longrightarrow> inputs s < inputs u)) (\<lambda>_ _. True)) (\<lambda>_ _. True) t" for m
      by (rule wp_mono [OF sendMessage_inputs], rule wp_mono [OF Suc.IH]) (use t in auto)
    show "if ms_method (cmsg t) = SYN then wp (sendMessage os (message0\<lparr>ms_method := ACK\<rparr>)) (\<lambda>_. wp (poll_round os n)
        (\<lambda>b u. inputs s \<le> inputs u \<and> (0 < Suc n \<longrightarrow> inputs s < inputs u)) (\<lambda>_ _. True)) (\<lambda>_ _. True) t
      else wp close_sockfd (\<lambda>_. wp (ret True) (\<lambda>b u. inputs s \<le> inputs u \<and> (0 < Suc n \<longrightarrow> inputs s < inputs u)) (\<lambda>_ _. True))
        (\<lambda>_ _. True) t"
      using close send by simp
  qed simp
qed (simp add: wp)

lemma returns_poll_round: "input_bound n os \<Longrightarrow> returns (poll_round os k) s"
  by (induction k arbitrary: s)
    (auto simp: recvMessage_def sendMessage_def close_sockfd_def intro!: returns returns_recv_all split: option.split)

text \<open>Nothing but a read that delivers adds input, and only below the bound.\<close>

definition within :: "nat \<Rightarrow> client \<Rightarrow> client \<Rightarrow> bool" where
  "within n s t \<longleftrightarrow> inputs t \<le> max n (inputs s)"

interpretation withinness: recording "within n" "\<lambda>e. \<not> is_input e" for n
  by unfold_locales (auto simp: within_def inputs_def)

lemma not_input_simps [simp]:
  "\<not> is_input (Write fd d, a)" "\<not> is_input (Poll fd, a)" "\<not> is_input (Close fd, a)"
  by (simp_all add: is_input_def)

lemma within_read: "input_bound n os \<Longrightarrow> obeys (within n) (sys_read os fd BUFSIZE)"
  using inputs_bounded [of n os]
  by (intro obeysI) (auto simp: wp Let_def within_def inputs_def is_input_def split: option.split, fastforce)

lemma within_modify: "(\<And>s. hist (f s) = hist s) \<Longrightarrow> obeys (within n) (modify f)"
  by (auto intro!: obeysI simp: wp within_def inputs_def)

lemma within_ops:
  assumes "input_bound n os"
  shows "obeys (within n) (recvMessage os)" "obeys (within n) (sendMessage os m)" "obeys (within n) (poll_round os k)"
proof -
  show recv: "obeys (within n) (recvMessage os)"
    by (auto simp: recvMessage_def recv_all_def intro!: withinness.r_calls withinness.r_loop within_read [OF assms] within_modify
        split: option.split)
  show send: "obeys (within n) (sendMessage os m)" for m
    by (auto simp: sendMessage_def intro!: withinness.r_calls split: option.split)
  show "obeys (within n) (poll_round os k)"
    by (induction k) (auto simp: close_sockfd_def intro!: withinness.r_calls recv send within_modify)
qed

lemma returns_exec_loop:
  assumes "input_bound n os" and "\<And>h fd. int_of os h (Poll fd) \<noteq> 0"
  shows "returns (exec_loop os) s"
  unfolding exec_loop_def
proof (rule loop_returns [where I = "\<lambda>_ _. True" and \<mu> = "\<lambda>_ s. n - inputs s"])
  fix x x' :: unit and s t :: client
  assume "bnd (get sockfd) (\<lambda>fd. bnd (sys_int os (Poll fd)) (\<lambda>nfds.
     seq (ThrowRuntimeIf (nfds < 0) ''poll'')
     (bnd (poll_round os (nat nfds)) (\<lambda>answered. ret (if answered then Inr True else Inl ()))))) s = Some (Inr (Inl x'), t)"
  moreover have polled: "inputs (s\<lparr>hist := (Poll fd, a) # hist s, errno := e\<rparr>) = inputs s" for fd a e
    by (simp add: inputs_def)
  ultimately obtain k u where k: "k \<noteq> 0" "0 \<le> k" and u: "inputs u = inputs s" and run: "poll_round os (nat k) u = Some (Inr False, t)"
    using assms(2) [of "hist s" "sockfd s"]
    by (cases "int_of os (hist s) (Poll (sockfd s)) < 0")
      (auto simp: bnd_def seq_def get_def sys_int_def ThrowRuntimeIf_def throw_def halt_def ret_def Let_def
        split: option.splits sum.splits if_splits intro: that [of "int_of os (hist s) (Poll (sockfd s))", OF _ _ polled])
  have "inputs s < inputs t" and "inputs t \<le> max n (inputs s)"
    using wpD [OF poll_round_inputs run] obeysD [OF within_ops(3) [OF assms(1)] run] k u by (auto simp: within_def)
  then show "True \<and> n - inputs t < n - inputs s"
    by (auto simp: max_def split: if_splits)
qed (auto intro!: returns returns_poll_round [OF assms(1)])

lemma raises_client: "only_raises (sendMessage os m)" "only_raises (exec_loop os)"
proof -
  show send: "only_raises (sendMessage os m)" for m
    by (auto simp: sendMessage_def intro!: raises split: option.split)
  have "only_raises (poll_round os k)" for k
    by (induction k) (auto simp: recvMessage_def recv_all_def close_sockfd_def intro!: raises send split: option.split)
  then show "only_raises (exec_loop os)"
    by (auto simp: exec_loop_def intro!: raises)
qed

lemma returns_exec:
  "input_bound n os \<Longrightarrow> (\<And>h fd. int_of os h (Poll fd) \<noteq> 0) \<Longrightarrow> returns (exec os) s"
  by (auto simp: exec_def open_connection_def sendMessage_def intro!: returns returns_exec_loop split: option.split)

lemma exec_catches: "wp (exec os) (\<lambda>_ _. True) (\<lambda>_ _. False) s"
  unfolding exec_def by (rule caught) (auto simp: open_connection_def wp wpI intro!: raises raises_client)

text \<open>
  C35: a client does not wait for ever on a peer that answers: if \<^verbatim>\<open>poll\<close> without a timeout reports a
  descriptor or an error, as documented, and the peer sends finitely much, then \<^verbatim>\<open>exec\<close> comes to an end,
  and it ends with success or failure, never with an exception.
\<close>

theorem exec_returns:
  assumes "input_bound n os" and "\<forall>h fd. int_of os h (Poll fd) \<noteq> 0"
  shows "\<exists>b t. exec os s = Some (Inr b, t)"
proof -
  have "returns (exec os) s"
    using assms by (intro returns_exec) auto
  then show ?thesis
    using wp_total_normal [OF _ exec_catches] by blast
qed

end
