(* ===== verification/SruncFiles.thy ===== *)
theory SruncFiles
  imports SruncDialog
begin

text \<open>
  What a client leaves behind: the output files it creates before it connects, and no descriptor.
\<close>

lemmas grow_loop [grow] = contract.r_loop [OF growth.contract_axioms]

lemma grow_modify [grow]: "(\<And>s. hist (f s) = hist s) \<Longrightarrow> obeys grows (modify f)"
  by (auto intro!: obeysI simp: wp grows_def)

lemma grow_exec: "obeys grows (exec os)"
proof -
  have "obeys grows (poll_round os k)" for k
    by (induction k) (auto simp: recvMessage_def recv_all_def sendMessage_def close_sockfd_def intro!: grow split: option.split)
  then show ?thesis
    by (auto simp: exec_def open_connection_def exec_loop_def sendMessage_def intro!: grow split: option.split)
qed

section \<open>Output files\<close>

text \<open>The files a request makes the client create, and the record of creating them.\<close>

definition file_names :: "request \<Rightarrow> string list" where
  "file_names rq = (if rq_outmode rq = FILE then [rq_outfile rq] else []) @
     (if rq_errmode rq = FILE then [rq_errfile rq] else [])"

inductive all_created :: "string list \<Rightarrow> event list \<Rightarrow> bool" where
  none: "all_created [] []"
| another: "all_created names es \<Longrightarrow> f \<noteq> [] \<Longrightarrow> n \<noteq> - 1 \<Longrightarrow>
    all_created (names @ [f]) ((Close n, AUnit) # (Creat (c_str f), AInt n) # es)"

text \<open>Some were created, the next has no name or could not be.\<close>

inductive stuck_at :: "string list \<Rightarrow> event list \<Rightarrow> bool" where
  nameless: "all_created names es \<Longrightarrow> stuck_at (names @ [] # rest) es"
| refused: "all_created names es \<Longrightarrow> f \<noteq> [] \<Longrightarrow> stuck_at (names @ f # rest) ((Creat (c_str f), AInt (- 1)) # es)"

lemma wp_noexcept:
  "wp (noexcept m) Q E s = wp m Q (\<lambda>a t. case a of Raise _ \<Rightarrow> E Abort t | _ \<Rightarrow> E a t) s"
  by (simp add: noexcept_def wp cong: abrupt.case_cong)

lemma create777_wp:
  assumes "all_created names es" and "hist s = es @ h"
  shows "wp (create777 os f) (\<lambda>_ t. (\<exists>es. all_created (names @ [f]) es \<and> hist t = es @ h) \<and> sockfd t = sockfd s)
     (\<lambda>a t. (\<exists>e. a = Raise e) \<and> (\<exists>es. stuck_at (names @ f # rest) es \<and> hist t = es @ h)) s"
proof (cases "f = []")
  case True
  then show ?thesis
    using nameless [OF assms(1)] assms(2) by (auto simp: create777_def wp)
next
  case False
  show ?thesis
  proof (cases "int_of os (hist s) (Creat (c_str f)) = - 1")
    case True
    then show ?thesis
      using refused [OF assms(1) False] assms(2) False
      by (auto simp: create777_def wp intro!: exI [of _ "(Creat (c_str f), AInt (- 1)) # es"])
  next
    case more: False
    then show ?thesis
      using another [OF assms(1) False more] assms(2) False
      by (auto simp: create777_def wp intro!: exI [of _ "(Close _, AUnit) # (Creat (c_str f), AInt _) # es"])
  qed
qed

lemma create_if_wp:
  assumes "all_created names es" and "hist s = es @ h" and "\<And>s. hist (f s) = hist s \<and> sockfd (f s) = sockfd s"
  shows "wp (whenp b (seq (modify f) (create777 os name)))
     (\<lambda>_ t. (\<exists>es. all_created (names @ (if b then [name] else [])) es \<and> hist t = es @ h) \<and> sockfd t = sockfd s)
     (\<lambda>a t. (\<exists>e. a = Raise e) \<and> (\<exists>es. stuck_at (names @ (if b then [name] else []) @ rest) es \<and> hist t = es @ h)) s"
  using create777_wp [OF assms(1), of "f s" h os name rest] assms by (auto simp: wp)

text \<open>
  C36: the output files come first. \<^verbatim>\<open>run\<close> either created every output file the request asks for, in
  order, before it did anything else, and then returns a result; or it met a file with no name or
  one that cannot be created, and then the whole process is ended by \<^verbatim>\<open>std::terminate\<close>, because the
  exception meets \<^verbatim>\<open>noexcept\<close>, with nothing sent to the daemon.
\<close>

theorem run_creates_files_first:
  assumes "run_cmd os rq s = Some (r, t)"
  shows "\<exists>later files. hist t = later @ files @ hist s \<and>
    (case r of
       Inr _ \<Rightarrow> all_created (file_names rq) files
     | Inl a \<Rightarrow> a = Abort \<and> later = [] \<and> stuck_at (file_names rq) files)"
proof -
  let ?b = "rq_outmode rq = FILE" and ?c = "rq_errmode rq = FILE"
  let ?goal = "\<lambda>files t. all_created (file_names rq) files \<and> (\<exists>later. hist t = later @ files @ hist s)"
  let ?bad = "\<lambda>t. \<exists>files. stuck_at (file_names rq) files \<and> hist t = files @ hist s"
  have rest: "wp (exec os) (\<lambda>_ t. \<exists>later. hist t = later @ hist u) (\<lambda>_ _. False) u" for u
  proof -
    have "wp (exec os) (\<lambda>_ t. True \<and> grows u t) (\<lambda>a t. False \<and> grows u t) u"
      by (simp only: wp_conj exec_catches obeys_wp [OF grow_exec])
    then show ?thesis
      by (rule wp_mono) (auto simp: grows_def)
  qed
  let ?last = "seq (modify (\<lambda>s. s\<lparr>cmsg := message0\<lparr>ms_method := EXE, ms_request := Some rq\<rparr>\<rparr>))
    (bnd (exec os) (\<lambda>r. bnd (get (\<lambda>s. the_response (cmsg s))) (\<lambda>answer. ret (r, answer))))"
  have last: "wp ?last (\<lambda>_ t. \<exists>later. hist t = later @ hist u) (\<lambda>_ _. False) u" for u
    using rest [of "u\<lparr>cmsg := message0\<lparr>ms_method := EXE, ms_request := Some rq\<rparr>\<rparr>"] by (simp add: wp)
  let ?E = "\<lambda>a t. (\<exists>e. a = Raise e) \<and> ?bad t"
  have second: "wp (seq (whenp ?c (seq (modify (\<lambda>s. s\<lparr>errfile := rq_errfile rq\<rparr>)) (create777 os (rq_errfile rq)))) ?last)
      (\<lambda>_ t. \<exists>files. ?goal files t) ?E u"
    if "all_created (if ?b then [rq_outfile rq] else []) es" "hist u = es @ hist s" for es u
    unfolding wp_seq [of "whenp _ _"]
    by (rule wp_mono [OF create_if_wp [OF that, where rest = "[]"]])
      (auto simp: file_names_def intro!: wp_mono [OF last])
  have "wp (run_cmd os rq) (\<lambda>_ t. \<exists>files. ?goal files t) (\<lambda>a t. a = Abort \<and> ?bad t) s"
    unfolding run_cmd_def wp_noexcept wp_seq [of "whenp ?b _"]
  proof (rule wp_mono [OF create_if_wp [OF none, where rest = "if ?c then [rq_errfile rq] else []" and h = "hist s"]])
    let ?Q = "\<lambda>_ t. \<exists>files. ?goal files t" and ?E' = "\<lambda>a t. case a of Raise _ \<Rightarrow> Abort = Abort \<and> ?bad t | _ \<Rightarrow> a = Abort \<and> ?bad t"
    fix x :: unit and u :: client
    assume "(\<exists>es. all_created ([] @ (if ?b then [rq_outfile rq] else [])) es \<and> hist u = es @ hist s) \<and> sockfd u = sockfd s"
    then obtain es where "all_created (if ?b then [rq_outfile rq] else []) es" "hist u = es @ hist s"
      unfolding append_Nil by (elim exE conjE)
    then have "wp (seq (whenp ?c (seq (modify (\<lambda>s. s\<lparr>errfile := rq_errfile rq\<rparr>)) (create777 os (rq_errfile rq)))) ?last) ?Q ?E u"
      by (rule second)
    then show "wp (seq (whenp ?c (seq (modify (\<lambda>s. s\<lparr>errfile := rq_errfile rq\<rparr>)) (create777 os (rq_errfile rq)))) ?last) ?Q ?E' u"
      by (rule wp_mono) (auto split: abrupt.split)
  qed (auto simp: file_names_def)
  then show ?thesis
    using assms by (cases r) (auto simp: wp_def intro: exI [of _ "[]"])
qed

section \<open>Descriptors\<close>

definition cvars :: "client \<Rightarrow> int list" where
  "cvars s = [sockfd s]"

abbreviation clean :: "int set \<Rightarrow> client \<Rightarrow> client \<Rightarrow> bool" where
  "clean inh \<equiv> tidy inh cvars"

lemma cvars_updates [simp]:
  "cvars (s\<lparr>hist := h\<rparr>) = cvars s" "cvars (s\<lparr>errno := n\<rparr>) = cvars s" "cvars (s\<lparr>outfile := p\<rparr>) = cvars s"
  "cvars (s\<lparr>errfile := q\<rparr>) = cvars s" "cvars (s\<lparr>cmsg := m\<rparr>) = cvars s" "cvars (s\<lparr>sockfd := fd\<rparr>) = [fd]"
  by (simp_all add: cvars_def)

interpretation cleanness: recording "clean inh" quiet for inh
proof unfold_locales
  show "quiet e \<Longrightarrow> clean inh s (s\<lparr>hist := e # hist s, errno := n\<rparr>)" for e s n
    by (rule quiet_run_tidy) (auto simp: quiet_run_def intro: exI [of _ "[e]"])
qed

lemmas clean_loop = contract.r_loop [OF tidiness.contract_axioms]

lemma clean_modify: "(\<And>s. hist (f s) = hist s \<and> cvars (f s) = cvars s) \<Longrightarrow> obeys (clean inh) (modify f)"
  by (auto intro!: obeysI simp: wp tidy_def)

lemma quiet_client [simp]:
  "quiet (Poll fd, a)" "quiet (Host c, a)" "quiet (Read fd n, a)" "quiet (Write fd d, a)" "quiet (ShutdownProtobuf, a)"
  by (simp_all add: quiet_def opened_by_def)

lemma clean_close_sockfd: "obeys (clean inh) close_sockfd"
proof (rule obeysI)
  fix s
  show "wp close_sockfd (\<lambda>_. clean inh s) (\<lambda>_. clean inh s) s"
    by (auto simp: close_sockfd_def wp tidy_def fd_ok_def others_def cvars_def)
qed

lemma clean_exec_loop: "obeys (clean inh) (sendMessage os m)" "obeys (clean inh) (exec_loop os)"
proof -
  show send: "obeys (clean inh) (sendMessage os m)" for m
    by (auto simp: sendMessage_def intro!: cleanness.r_calls split: option.split)
  have "obeys (clean inh) (poll_round os k)" for k
    by (induction k) (auto simp: recvMessage_def recv_all_def intro!: cleanness.r_calls clean_loop send clean_modify clean_close_sockfd
        split: option.split)
  then show "obeys (clean inh) (exec_loop os)"
    by (auto simp: exec_loop_def intro!: cleanness.r_calls clean_loop)
qed

text \<open>Connecting is clean for a client that holds no socket.\<close>

lemma clean_open_connection:
  assumes "fresh_fds inh os" and "sockfd s = - 1"
  shows "wp (open_connection os) (\<lambda>_. clean inh s) (\<lambda>_. clean inh s) s"
  using assms(2) fresh_socket [OF assms(1), of "hist s"]
  by (auto simp: open_connection_def wp tidy_def fd_ok_def others_def cvars_def opened_by_def)

lemma clean_exec:
  assumes "fresh_fds inh os" and "sockfd s = - 1"
  shows "wp (exec os) (\<lambda>_. clean inh s) (\<lambda>_. clean inh s) s"
proof -
  have "obeys (clean inh) (seq (sendMessage os m) (exec_loop os))" for m
    by (intro cleanness.r_calls clean_exec_loop)
  then have rest: "wp (seq (sendMessage os m) (exec_loop os)) (\<lambda>_. clean inh s) (\<lambda>_. clean inh s) u" if "clean inh s u" for m u
    by (rule wp_mono [OF obeys_wp]) (erule tidiness.R_trans [OF that])+
  have "wp (seq (open_connection os) (bnd (get cmsg) (\<lambda>m. seq (sendMessage os m) (exec_loop os)))) (\<lambda>_. clean inh s) (\<lambda>_. clean inh s) s"
    unfolding wp_seq [of "open_connection os"] wp_bnd wp_get
    by (rule wp_mono [OF clean_open_connection [OF assms]]) (simp_all only: rest)
  then show ?thesis
    unfolding exec_def wp_try_catch by (rule wp_mono) (simp_all add: wp split: abrupt.split)
qed

text \<open>A client without a socket, as clean as \<open>s\<close>.\<close>

definition unconnected :: "int set \<Rightarrow> client \<Rightarrow> client \<Rightarrow> bool" where
  "unconnected inh s u \<longleftrightarrow> clean inh s u \<and> sockfd u = - 1"

lemma unconnected_modify:
  "unconnected inh s u \<Longrightarrow> hist (f u) = hist u \<Longrightarrow> sockfd (f u) = sockfd u \<Longrightarrow> unconnected inh s (f u)"
  unfolding unconnected_def tidy_def cvars_def by (elim conjE) simp

lemma clean_create777:
  assumes "fresh_fds inh os" and "unconnected inh s u"
  shows "wp (create777 os f) (\<lambda>_. unconnected inh s) (\<lambda>_. clean inh s) u"
proof -
  have "wp (create777 os f) (\<lambda>_ t. clean inh u t \<and> sockfd t = sockfd u) (\<lambda>_. clean inh u) u"
    using fresh_creat [OF assms(1), of "hist u" "c_str f"]
    by (auto simp: create777_def wp tidy_def fd_ok_def others_def cvars_def opened_by_def)
  then show ?thesis
    using assms(2) by (elim wp_mono) (auto simp: unconnected_def tidy_def)
qed

lemma clean_create_if:
  assumes "fresh_fds inh os" and "unconnected inh s u" and "\<And>u. hist (f u) = hist u \<and> sockfd (f u) = sockfd u"
  shows "wp (whenp b (seq (modify f) (create777 os name))) (\<lambda>_. unconnected inh s) (\<lambda>_. clean inh s) u"
  using clean_create777 [OF assms(1) unconnected_modify [OF assms(2)]] assms(2,3) by (simp add: wp)

lemma clean_exec_message:
  assumes "fresh_fds inh os" and "unconnected inh s u"
  shows "wp (seq (modify (\<lambda>s. s\<lparr>cmsg := m\<rparr>)) (bnd (exec os) (\<lambda>r. bnd (get g) (\<lambda>x. ret (r, x))))) (\<lambda>_. clean inh s) (\<lambda>_. clean inh s) u"
    and "wp (seq (modify (\<lambda>s. s\<lparr>cmsg := m\<rparr>)) (exec os)) (\<lambda>_. clean inh s) (\<lambda>_. clean inh s) u"
proof -
  have "unconnected inh s (u\<lparr>cmsg := m\<rparr>)"
    by (rule unconnected_modify [OF assms(2)]) simp_all
  then have "wp (exec os) (\<lambda>_. clean inh s) (\<lambda>_. clean inh s) (u\<lparr>cmsg := m\<rparr>)"
    by (intro wp_mono [OF clean_exec [OF assms(1)]]) (simp_all add: unconnected_def tidy_def)
  then show "wp (seq (modify (\<lambda>s. s\<lparr>cmsg := m\<rparr>)) (bnd (exec os) (\<lambda>r. bnd (get g) (\<lambda>x. ret (r, x))))) (\<lambda>_. clean inh s) (\<lambda>_. clean inh s) u"
    and "wp (seq (modify (\<lambda>s. s\<lparr>cmsg := m\<rparr>)) (exec os)) (\<lambda>_. clean inh s) (\<lambda>_. clean inh s) u"
    by (simp_all add: wp)
qed

lemma clean_commands:
  assumes "fresh_fds inh os" and "sockfd s = - 1"
  shows "wp (run_cmd os rq) (\<lambda>_. clean inh s) (\<lambda>_. clean inh s) s"
    and "wp (list_cmd os) (\<lambda>_. clean inh s) (\<lambda>_. clean inh s) s"
    and "wp (stop_cmd os pids) (\<lambda>_. clean inh s) (\<lambda>_. clean inh s) s"
proof -
  have s: "unconnected inh s s"
    by (simp add: unconnected_def assms(2) tidiness.R_refl)
  have no: "wp (noexcept m) (\<lambda>_. clean inh s) (\<lambda>_. clean inh s) s" if "wp m (\<lambda>_. clean inh s) (\<lambda>_. clean inh s) s"
    for m :: "(client, 'b) prog"
    unfolding wp_noexcept by (rule wp_mono [OF that]) (simp_all split: abrupt.split)
  show "wp (list_cmd os) (\<lambda>_. clean inh s) (\<lambda>_. clean inh s) s" "wp (stop_cmd os pids) (\<lambda>_. clean inh s) (\<lambda>_. clean inh s) s"
    unfolding list_cmd_def stop_cmd_def by (rule no, rule clean_exec_message [OF assms(1) s], rule clean_exec_message [OF assms(1) s])
  show "wp (run_cmd os rq) (\<lambda>_. clean inh s) (\<lambda>_. clean inh s) s"
    unfolding run_cmd_def
    by (rule no, unfold wp_seq [of "whenp _ _"], rule wp_mono [OF clean_create_if [OF assms(1) s]], simp,
        rule wp_mono [OF clean_create_if [OF assms(1)]], assumption, simp, rule clean_exec_message [OF assms(1)], assumption+)
qed

text \<open>
  C37: a client leaves no descriptor behind. Whatever command a new client runs and however the
  exchange goes, once the destructor has run the process has exactly the descriptors open that it had
  before, and none was closed that was not open.
\<close>

theorem client_leaks_nothing:
  assumes "fresh_fds inh os" and "closes_ok inh h"
    and "seq (run_cmd os rq) destroy_client (Srunc h e) = Some (Inr (), t) \<or>
      seq (list_cmd os) destroy_client (Srunc h e) = Some (Inr (), t) \<or>
      seq (stop_cmd os pids) destroy_client (Srunc h e) = Some (Inr (), t)"
  shows "open_fds inh (hist t) = open_fds inh h \<and> closes_ok inh (hist t)"
proof -
  have new: "sockfd (Srunc h e) = - 1" "hist (Srunc h e) = h" "cvars (Srunc h e) = [- 1]"
    by (simp_all add: Srunc_def cvars_def)
  note clean = clean_commands [OF assms(1) new(1)]
  have after: "wp (seq m destroy_client) (\<lambda>_ t. clean inh (Srunc h e) t \<and> sockfd t = - 1) (\<lambda>_ _. True) (Srunc h e)"
    if "wp m (\<lambda>_. clean inh (Srunc h e)) (\<lambda>_. clean inh (Srunc h e)) (Srunc h e)" for m :: "(client, 'b) prog"
    unfolding wp_seq
  proof (rule wp_mono [OF that])
    fix x u
    assume u: "clean inh (Srunc h e) u"
    have "wp destroy_client (\<lambda>_ t. clean inh u t \<and> sockfd t = - 1) (\<lambda>_ _. True) u"
      by (auto simp: destroy_client_def close_sockfd_def wp tidy_def fd_ok_def others_def cvars_def opened_by_def)
    then show "wp destroy_client (\<lambda>_ t. clean inh (Srunc h e) t \<and> sockfd t = - 1) (\<lambda>_ _. True) u"
      using u by (elim wp_mono) (auto simp: tidy_def)
  qed simp
  have "clean inh (Srunc h e) t \<and> sockfd t = - 1"
    using assms(3) wpD [OF after [OF clean(1)]] wpD [OF after [OF clean(2)]] wpD [OF after [OF clean(3)]] by blast
  then show ?thesis
    using assms(2) new by (auto simp: tidy_def fd_ok_def others_def cvars_def)
qed

section \<open>A client that is asked for an acknowledgement and then gets a list\<close>

text \<open>The peer sends \<open>SYN\<close> first and an empty \<open>LIST\<close> after it.\<close>

definition is_ack :: "event \<Rightarrow> bool" where
  "is_ack e \<longleftrightarrow> (case fst e of Write _ d \<Rightarrow> d = ''a'' | _ \<Rightarrow> False)"

definition not_poll :: "event \<Rightarrow> bool" where
  "not_poll e \<longleftrightarrow> (case fst e of Poll _ \<Rightarrow> False | _ \<Rightarrow> True)"

definition lister :: os where
  "lister = calm\<lparr>
     bytes_of := (\<lambda>h _. if list_ex is_input (takeWhile not_poll h) then None
       else if list_ex is_ack h then Some ''l'' else Some ''s''),
     serialize := (\<lambda>m. Some (if ms_method m = ACK then ''a'' else ''q'')),
     parse := (\<lambda>d. Some (message0\<lparr>ms_method := (if d = ''s'' then SYN else LIST)\<rparr>))\<rparr>"

lemma lister_simps [simp]:
  "int_of lister = calm_int" "errno_of lister h c = 0" "pipe_of lister h = (next_fd h, next_fd h + 1)"
  "bytes_of lister h c = (if list_ex is_input (takeWhile not_poll h) then None
     else if list_ex is_ack h then Some ''l'' else Some ''s'')"
  "serialize lister m = Some (if ms_method m = ACK then ''a'' else ''q'')"
  "parse lister d = Some (message0\<lparr>ms_method := (if d = ''s'' then SYN else LIST)\<rparr>)"
  by (simp_all add: lister_def)

lemma lister_events [simp]:
  "\<not> is_ack (Poll fd, a)" "\<not> is_ack (Read fd n, a)" "\<not> is_ack (Socket b, a)" "\<not> is_ack (Host c, a)" "is_ack (Write fd d, a) \<longleftrightarrow> d = ''a''"
  "\<not> not_poll (Poll fd, a)" "not_poll (Read fd n, a)" "is_input (Read fd n, ABytes (Some ''s''))" "is_input (Read fd n, ABytes (Some ''l''))"
  by (simp_all add: is_ack_def not_poll_def is_input_def)

lemma lister_recv:
  assumes "\<not> list_ex is_input (takeWhile not_poll (hist s))"
  shows "recv_all lister [] s = (let d = (if list_ex is_ack (hist s) then ''l'' else ''s''); c = Read (sockfd s) BUFSIZE in
     Some (Inr d, s\<lparr>hist := [(c, ABytes None), (c, ABytes (Some d))] @ hist s, errno := 0\<rparr>))"
  unfolding recv_all_def
  by (cases "list_ex is_ack (hist s)"; subst loop_unfold, simp add: run_defs assms BUFSIZE_def, subst loop_unfold, simp add: run_defs BUFSIZE_def)

lemma lister_run:
  "\<exists>t. exec lister ((Srunc [] 0)\<lparr>cmsg := message0\<lparr>ms_method := LIST\<rparr>\<rparr>) = Some (Inr True, t) \<and> cmsg t = message0\<lparr>ms_method := LIST\<rparr>"
  unfolding exec_def exec_loop_def
  by (simp add: run_defs open_connection_def sendMessage_def Srunc_def cint_id int32_def, subst loop_unfold, simp add: run_defs recvMessage_def lister_recv sendMessage_def cint_id int32_def,
      subst loop_unfold, simp add: run_defs recvMessage_def lister_recv sendMessage_def cint_id int32_def close_sockfd_def closefd_def)

theorem exec_follows_protocol_witness:
  "\<exists>t syns acks. exec lister ((Srunc [] 0)\<lparr>cmsg := message0\<lparr>ms_method := LIST\<rparr>\<rparr>) = Some (Inr True, t) \<and>
     snd (inbox lister (hist t)) = syns @ [message0\<lparr>ms_method := LIST\<rparr>] \<and> outbox (hist t) = ''q'' # acks \<and> length acks = length syns"
proof -
  let ?s = "(Srunc [] 0)\<lparr>cmsg := message0\<lparr>ms_method := LIST\<rparr>\<rparr>"
  obtain t where t: "exec lister ?s = Some (Inr True, t)" "cmsg t = message0\<lparr>ms_method := LIST\<rparr>"
    using lister_run by blast
  have "fst (inbox lister (hist ?s)) = []"
    by (simp add: Srunc_def)
  from exec_follows_protocol [OF this t(1)] t show ?thesis
    by (auto simp: Srunc_def dest!: list_all2_lengthD)
qed

theorem exec_returns_witness: "\<exists>b t. exec calm (Srunc [] 0) = Some (Inr b, t)"
proof (rule exec_returns)
  show "input_bound 0 calm"
    by (simp add: input_bound_def)
  show "\<forall>h fd. int_of calm h (Poll fd) \<noteq> 0"
    by simp
qed

theorem run_creates_files_first_witness:
  "\<exists>t. run_cmd calm (request0\<lparr>rq_outmode := FILE\<rparr>) (Srunc [] 0) = Some (Inl Abort, t) \<and> hist t = []"
proof -
  let ?rq = "request0\<lparr>rq_outmode := FILE\<rparr>"
  obtain t where t: "run_cmd calm ?rq (Srunc [] 0) = Some (Inl Abort, t)" "hist t = []"
    by (simp add: run_cmd_def noexcept_def create777_def ThrowInvalidArgumentIf_def run_defs Srunc_def request0_def)
  from run_creates_files_first [OF t(1)] t show ?thesis
    by auto
qed

theorem client_leaks_nothing_witness:
  "\<exists>t. seq (list_cmd calm) destroy_client (Srunc [] 0) = Some (Inr (), t) \<and> open_fds {0, 1, 2} (hist t) = {0, 1, 2} \<and> closes_ok {0, 1, 2} (hist t)"
proof -
  have fresh: "fresh_fds {0, 1, 2} calm" "closes_ok {0, 1, 2} []"
    by (rule calm_fresh) auto
  have "wp (seq (list_cmd calm) destroy_client) (\<lambda>_ _. True) (\<lambda>_ _. False) (Srunc [] 0)"
    by (auto simp: list_cmd_def wp_noexcept wp destroy_client_def close_sockfd_def intro!: wp_mono [OF exec_catches])
  moreover have "returns (seq (list_cmd calm) destroy_client) (Srunc [] 0)"
    by (auto simp: list_cmd_def noexcept_def destroy_client_def close_sockfd_def input_bound_def intro!: returns returns_exec [of 0])
  ultimately obtain t where t: "seq (list_cmd calm) destroy_client (Srunc [] 0) = Some (Inr (), t)"
    by (auto dest!: wp_total_normal)
  show ?thesis
    using client_leaks_nothing [OF fresh disjI2 [OF disjI1 [OF t]]] t by auto
qed

end
