(* ===== verification/Getopt.thy ===== *)
theory Getopt
  imports Prelude
begin

text \<open>
  \<^verbatim>\<open>getopt\<close> of the C library, as documented (without \<^verbatim>\<open>POSIXLY_CORRECT\<close>): words that are no options
  are passed over and come last, \<^verbatim>\<open>--\<close> ends the options, options without argument can share a word,
  an argument is the rest of the word or the next word. The index of the next word to be looked at
  moves past a word only when its last character was taken.
\<close>

text \<open>The unread part of the current word, the words from the index on, the words passed over.\<close>

record getopt =
  g_next :: string
  g_rest :: "string list"
  g_skipped :: "string list"

datatype opt = Opt char string | Unknown | Finished

text \<open>Whether a character is an option, and whether it takes an argument.\<close>

fun opt_kind :: "string \<Rightarrow> char \<Rightarrow> bool option" where
  "opt_kind [] c = None"
| "opt_kind (x # xs) c = (if x = CHR '':'' then opt_kind xs c
     else if x = c then Some (xs \<noteq> [] \<and> hd xs = CHR '':'') else opt_kind xs c)"

definition is_option :: "string \<Rightarrow> bool" where
  "is_option w \<longleftrightarrow> 2 \<le> length w \<and> hd w = CHR ''-''"

fun skip_words :: "string list \<Rightarrow> string list \<Rightarrow> string list \<times> string list" where
  "skip_words skipped [] = (skipped, [])"
| "skip_words skipped (w # ws) = (if is_option w then (skipped, w # ws) else skip_words (skipped @ [w]) ws)"

definition take_char :: "string \<Rightarrow> getopt \<Rightarrow> opt \<times> getopt" where
  "take_char optstring g =
     (let c = hd (g_next g); more = tl (g_next g); after = tl (g_rest g);
          moved = g\<lparr>g_next := more, g_rest := (if more = [] then after else g_rest g)\<rparr> in
      case opt_kind optstring c of
        None \<Rightarrow> (Unknown, moved)
      | Some False \<Rightarrow> (Opt c [], moved)
      | Some True \<Rightarrow>
          if more \<noteq> [] then (Opt c more, g\<lparr>g_next := [], g_rest := after\<rparr>)
          else (case after of
              [] \<Rightarrow> (Unknown, moved)
            | a # ws \<Rightarrow> (Opt c a, g\<lparr>g_next := [], g_rest := ws\<rparr>)))"

definition getopt :: "string \<Rightarrow> getopt \<Rightarrow> opt \<times> getopt" where
  "getopt optstring g =
     (if g_next g \<noteq> [] then take_char optstring g
      else let (skipped, ws) = skip_words (g_skipped g) (g_rest g) in
        case ws of
          [] \<Rightarrow> (Finished, \<lparr>g_next = [], g_rest = skipped, g_skipped = []\<rparr>)
        | w # rest \<Rightarrow>
            if w = ''--'' then (Finished, \<lparr>g_next = [], g_rest = skipped @ rest, g_skipped = []\<rparr>)
            else take_char optstring \<lparr>g_next = tl w, g_rest = ws, g_skipped = skipped\<rparr>)"

text \<open>Each option that is found makes what is left smaller.\<close>

definition words_size :: "string list \<Rightarrow> nat" where
  "words_size ws = sum_list (map (\<lambda>w. Suc (length w)) ws)"

definition left :: "getopt \<Rightarrow> nat" where
  "left g = (if g_next g = [] then words_size (g_rest g) else length (g_next g) + words_size (tl (g_rest g)))"

lemma words_size_simps [simp]: "words_size [] = 0" "words_size (w # ws) = Suc (length w) + words_size ws"
  by (simp_all add: words_size_def)

lemma take_char_less: "g_next g \<noteq> [] \<Longrightarrow> left (snd (take_char optstring g)) < length (g_next g) + words_size (tl (g_rest g))"
  by (cases "g_next g"; cases "tl (g_rest g)")
    (auto simp: take_char_def left_def Let_def split: option.split bool.split)

lemma skip_words_size: "skip_words skipped ws = (skipped', ws') \<Longrightarrow> words_size ws' \<le> words_size ws"
  by (induction skipped ws rule: skip_words.induct) (auto split: if_splits)

lemma skip_words_option: "skip_words skipped ws = (skipped', w # ws') \<Longrightarrow> is_option w"
  by (induction skipped ws rule: skip_words.induct) (auto split: if_splits)

lemma getopt_less:
  assumes "getopt optstring g = (Opt c a, g')"
  shows "left g' < left g"
proof (cases "g_next g = []")
  case False
  then show ?thesis
    using assms take_char_less [of g optstring] by (simp add: getopt_def left_def [of g])
next
  case True
  obtain skipped ws where sk: "skip_words (g_skipped g) (g_rest g) = (skipped, ws)"
    by fastforce
  with assms True obtain w rest where w: "ws = w # rest" "take_char optstring \<lparr>g_next = tl w, g_rest = ws, g_skipped = skipped\<rparr> = (Opt c a, g')"
    by (auto simp: getopt_def split: list.splits if_splits)
  have "2 \<le> length w"
    using skip_words_option [of "g_skipped g" "g_rest g"] sk w(1) by (auto simp: is_option_def)
  then have "tl w \<noteq> []"
    by (cases w; cases "tl w") auto
  with take_char_less [of "\<lparr>g_next = tl w, g_rest = ws, g_skipped = skipped\<rparr>" optstring] w
  have "left g' < length (tl w) + words_size rest"
    by simp
  also have "\<dots> \<le> words_size ws"
    using w(1) by simp
  also have "\<dots> \<le> left g"
    using skip_words_size [OF sk] True by (simp add: left_def)
  finally show ?thesis .
qed

end
