(* ===== verification/Srunctl.thy ===== *)
theory Srunctl
  imports SruncFiles Getopt "HOL-Library.Signed_Division"
begin

text \<open>
  \<^verbatim>\<open>src/src/srunctl.cpp\<close>: the command line client. The program runs on the state of its one client
  object; what it prints is recorded as calls.
\<close>

definition newline :: string where
  "newline = [CHR 0x0A]"

definition tab :: string where
  "tab = [CHR 0x09]"

definition help_text :: string where
  "help_text = concat (map (\<lambda>line. line @ newline)
     [''Usage: srunctl list '',
      ''       srunctl stop PIDS'',
      ''       srunctl [OPTIONS] -c CMDARGS'',
      [],
      tab @ ''-o outfile   Redirect stdout to outfile'',
      tab @ ''-e errfile   Redirect stdout to outfile'',
      tab @ ''-t timeout   Set command execute timeout'',
      tab @ ''-u user      Set command execute user'',
      tab @ ''-r chroot    Set command execute chroot'',
      tab @ ''-m model     Set model name( group name of config )'',
      tab @ ''-n           Use network'',
      tab @ ''-q           Quiet mode, do not care output and errput'',
      tab @ ''-b           Process execute at backend'',
      tab @ ''-c CMDARGS   Command and arguments''])"

definition do_help :: "(client, unit) prog" where
  "do_help = sys_do (Host (Cout help_text))"

text \<open>
  Division and remainder of C++ truncate; the difference of two \<^verbatim>\<open>time_t\<close> overflows outside 64 bits
  (\<open>None\<close>); the hours are narrowed to \<^verbatim>\<open>int\<close>.
\<close>

definition time_diff :: "int \<Rightarrow> int \<Rightarrow> string option" where
  "time_diff since now = (let diff = now - since in
     if diff < - (2 ^ 63) \<or> 2 ^ 63 \<le> diff then None
     else let seconds = diff smod 60; mins = diff sdiv 60 smod 60; hours = cint (diff sdiv 60 sdiv 60) in
       Some (to_string hours @ '':'' @ to_string mins @ '':'' @ to_string seconds))"

definition bool_text :: "bool \<Rightarrow> string" where
  "bool_text b = (if b then ''1'' else ''0'')"

definition list_line :: "int \<Rightarrow> runproc \<Rightarrow> string option" where
  "list_line now proc = (case time_diff (rp_since proc) now of
      None \<Rightarrow> None
    | Some runtime \<Rightarrow> (let rq = the_proc_request proc in
        Some (to_string (rp_pid proc) @ tab @ runtime @ tab @ bool_text (rq_network rq) @ tab @
          bool_text (rq_backend rq) @ tab @ to_string (rq_timeout rq) @ tab @
          concat (map (\<lambda>arg. c_str arg @ '' '') (rq_args rq)) @ newline)))"

definition print_line :: "int \<Rightarrow> runproc \<Rightarrow> (client, unit) prog" where
  "print_line now proc = (case list_line now proc of
      None \<Rightarrow> halt Undefined
    | Some line \<Rightarrow> sys_do (Host (Cout line)))"

text \<open>\<^verbatim>\<open>return\<close> from \<^verbatim>\<open>main\<close> destroys the client, \<^verbatim>\<open>exit\<close> does not.\<close>

definition leave :: "int \<Rightarrow> (client, int) prog" where
  "leave n = seq destroy_client (ret n)"

definition error_seen_log :: "(client, int) prog" where
  "error_seen_log = seq (sys_do (Host (Cerr (''Error. Please see the log.'' @ newline)))) (leave (- 1))"

definition main_list :: "os \<Rightarrow> (client, int) prog" where
  "main_list os = bnd (list_cmd os) (\<lambda>(r, runlist).
     if \<not> r then error_seen_log
     else bnd (sys_int os (Host Time)) (\<lambda>now.
       seq (sys_do (Host (Cout (''PID'' @ tab @ ''RUNTIME'' @ tab @ ''NETWORK'' @ tab @ ''BACKEND'' @ tab @ ''TIMEOUT'' @ tab @ ''CMD'' @ newline))))
       (seq (for_each runlist (print_line now)) (leave 0))))"

definition stop_pids :: "string list \<Rightarrow> int list" where
  "stop_pids words = filter (\<lambda>pid. pid > 0) (map atoi words)"

definition main_stop :: "os \<Rightarrow> string list \<Rightarrow> (client, int) prog" where
  "main_stop os words =
     (if words = [] then seq do_help (leave (- 1))
      else bnd (stop_cmd os (stop_pids words)) (\<lambda>r. if \<not> r then error_seen_log else leave 0))"

section \<open>Options\<close>

definition optstring :: string where
  "optstring = ''o:e:qnbt:u:r:m:c''"

definition unquiet :: "outmode \<Rightarrow> outmode" where
  "unquiet m = (if m = MSG then IGN else m)"

text \<open>The \<^verbatim>\<open>switch\<close>, but for \<^verbatim>\<open>c\<close>, which ends the loop.\<close>

definition apply_opt :: "char \<Rightarrow> string \<Rightarrow> request \<times> bool \<Rightarrow> (request \<times> bool) option" where
  "apply_opt opt optarg = (\<lambda>(rq, quiet).
     if opt = CHR ''m'' then Some (rq\<lparr>rq_model := optarg\<rparr>, quiet)
     else if opt = CHR ''t'' then Some (rq\<lparr>rq_timeout := atoi optarg\<rparr>, quiet)
     else if opt = CHR ''u'' then Some (rq\<lparr>rq_user := optarg\<rparr>, quiet)
     else if opt = CHR ''r'' then Some (rq\<lparr>rq_chroot := optarg\<rparr>, quiet)
     else if opt = CHR ''b'' then Some (rq\<lparr>rq_backend := True\<rparr>, quiet)
     else if opt = CHR ''q'' then
       Some (rq\<lparr>rq_outmode := unquiet (rq_outmode rq), rq_errmode := unquiet (rq_errmode rq)\<rparr>, True)
     else if opt = CHR ''n'' then Some (rq\<lparr>rq_network := True\<rparr>, quiet)
     else if opt = CHR ''o'' then Some (rq\<lparr>rq_outmode := FILE, rq_outfile := optarg\<rparr>, quiet)
     else if opt = CHR ''e'' then Some (rq\<lparr>rq_errmode := FILE, rq_errfile := optarg\<rparr>, quiet)
     else None)"

function parse_options :: "getopt \<Rightarrow> request \<times> bool \<Rightarrow> ((request \<times> bool) \<times> string list) option" where
  "parse_options g st = (case getopt optstring g of
       (Finished, g') \<Rightarrow> Some (st, g_rest g')
     | (Unknown, g') \<Rightarrow> None
     | (Opt opt optarg, g') \<Rightarrow>
         if opt = CHR ''c'' then Some (st, g_rest g')
         else (case apply_opt opt optarg st of
             None \<Rightarrow> None
           | Some st' \<Rightarrow> parse_options g' st'))"
  by pat_completeness auto
termination
  by (relation "measure (\<lambda>(g, st). left g)") (auto intro: getopt_less [OF sym])

declare parse_options.simps [simp del]

definition start_request :: request where
  "start_request = request0\<lparr>rq_timeout := 0, rq_outmode := MSG, rq_errmode := MSG\<rparr>"

definition main_options :: "string list \<Rightarrow> ((request \<times> bool) \<times> string list) option" where
  "main_options words = parse_options \<lparr>g_next = [], g_rest = words, g_skipped = []\<rparr> (start_request, False)"

section \<open>Main\<close>

definition fail_with :: "call \<Rightarrow> (client, int) prog" where
  "fail_with c = seq (sys_do c) (leave (- 1))"

definition report_quiet :: "response \<Rightarrow> (client, int) prog" where
  "report_quiet r = (case rs_stat r of
       NORMAL \<Rightarrow> leave (rs_retval r)
     | ABNORMAL \<Rightarrow> fail_with (Host (Cerr (''Abnormal'' @ newline)))
     | TIMEOUT \<Rightarrow> fail_with (Host (Cerr (''Timeout'' @ newline)))
     | BADARGS \<Rightarrow> fail_with (Host (Cerr (''ArgsError'' @ newline)))
     | UNKNOWN_STATE _ \<Rightarrow> fail_with (Host (Cerr (''Unknown response stat'' @ newline))))"

definition report :: "response \<Rightarrow> (client, int) prog" where
  "report r = (case rs_stat r of
       NORMAL \<Rightarrow> seq (whenp (rs_outstr r \<noteq> []) (sys_do (Host (Cout (rs_outstr r @ newline)))))
         (seq (whenp (rs_errstr r \<noteq> []) (sys_do (Host (Cout (rs_errstr r @ newline))))) (leave (rs_retval r)))
     | ABNORMAL \<Rightarrow> fail_with (Host (Cout (''stat: Abnormal'' @ newline)))
     | TIMEOUT \<Rightarrow> fail_with (Host (Cout (''stat: Timeout'' @ newline)))
     | BADARGS \<Rightarrow> fail_with (Host (Cout (''stat: ArgsError'' @ newline)))
     | UNKNOWN_STATE _ \<Rightarrow> fail_with (Host (Cerr (''Unknown response stat'' @ newline))))"

definition main_run :: "os \<Rightarrow> string list \<Rightarrow> (client, int) prog" where
  "main_run os words = seq (sys_do (Host (Umask 0)))
     (case main_options words of
        None \<Rightarrow> seq do_help (halt (Exit (- 1)))
      | Some ((rq, q), args) \<Rightarrow>
          if args = [] then seq do_help (leave (- 1))
          else bnd (run_cmd os (rq\<lparr>rq_args := args\<rparr>)) (\<lambda>(r, answer).
            if \<not> r then error_seen_log else if q then report_quiet answer else report answer))"

definition srunctl_main :: "os \<Rightarrow> string list \<Rightarrow> (client, int) prog" where
  "srunctl_main os argv = (case argv of
       (_ # cmd # words) \<Rightarrow>
         if cmd = ''list'' then main_list os
         else if cmd = ''stop'' then main_stop os words
         else main_run os (cmd # words)
     | _ \<Rightarrow> seq do_help (ret (- 1)))"

end
