(* ===== verification/SrunctlProps.thy ===== *)
theory SrunctlProps
  imports Srunctl
begin

text \<open>
  The command line client: its options are read as they are written, the processes it asks to stop
  are real process numbers, and what it prints of a running time is that time.
\<close>

section \<open>Options\<close>

text \<open>An option with its argument, and whether the argument shares the word.\<close>

type_synonym option_word = "char \<times> string \<times> bool"

definition well_formed :: "option_word \<Rightarrow> bool" where
  "well_formed = (\<lambda>(c, a, joined). c \<noteq> CHR ''c'' \<and> (case opt_kind optstring c of
      None \<Rightarrow> False | Some False \<Rightarrow> a = [] | Some True \<Rightarrow> joined \<longrightarrow> a \<noteq> []))"

definition written :: "option_word \<Rightarrow> string list" where
  "written = (\<lambda>(c, a, joined).
     if opt_kind optstring c = Some True \<and> \<not> joined then [[CHR ''-'', c], a] else [CHR ''-'' # c # a])"

definition applied :: "option_word list \<Rightarrow> request \<times> bool \<Rightarrow> request \<times> bool" where
  "applied = fold (\<lambda>(c, a, _) st. the (apply_opt c a st))"

lemma opt_kind_chars:
  assumes "opt_kind optstring c \<noteq> None"
  shows "c \<in> set ''oeqnbturmc''"
proof (rule ccontr)
  assume "c \<notin> set ''oeqnbturmc''"
  then have "opt_kind optstring c = None"
    by (simp add: optstring_def eq_commute [of _ c])
  with assms show False
    by simp
qed

lemma apply_opt_defined: "well_formed (c, a, joined) \<Longrightarrow> \<exists>st'. apply_opt c a st = Some st'"
  using opt_kind_chars [of c]
  by (cases st) (auto simp: well_formed_def apply_opt_def split: option.splits)

lemma not_minus: "opt_kind optstring c \<noteq> None \<Longrightarrow> c \<noteq> CHR ''-''"
  using opt_kind_chars [of c] by auto

lemma getopt_written:
  assumes "well_formed (c, a, joined)"
  shows "getopt optstring \<lparr>g_next = [], g_rest = written (c, a, joined) @ ws, g_skipped = sk\<rparr> =
    (Opt c a, \<lparr>g_next = [], g_rest = ws, g_skipped = sk\<rparr>)"
  using assms not_minus [of c]
  by (cases "opt_kind optstring c"; cases joined)
    (auto simp: getopt_def written_def well_formed_def is_option_def take_char_def Let_def split: bool.splits)

lemma parse_written:
  "\<forall>opt\<in>set opts. well_formed opt \<Longrightarrow>
   parse_options \<lparr>g_next = [], g_rest = concat (map written opts) @ ws, g_skipped = sk\<rparr> st =
   parse_options \<lparr>g_next = [], g_rest = ws, g_skipped = sk\<rparr> (applied opts st)"
proof (induction opts arbitrary: st)
  case (Cons opt opts)
  obtain c a joined where opt: "opt = (c, a, joined)"
    by (cases opt)
  then have wf: "well_formed (c, a, joined)" and "c \<noteq> CHR ''c''"
    using Cons.prems by (auto simp: well_formed_def)
  then show ?case
    using apply_opt_defined [OF wf, of st] getopt_written [OF wf] Cons
    by (subst parse_options.simps) (auto simp: opt applied_def)
qed (simp add: applied_def)

text \<open>
  C38: the command line is read as it is written. Any sequence of options, each with its argument in
  the same word or in the next, followed by \<^verbatim>\<open>-c\<close> and a command gives the request with the options
  applied in order, and exactly the words after \<^verbatim>\<open>-c\<close> as the command, also those that look like
  options.
\<close>

theorem options_roundtrip:
  assumes "\<forall>opt\<in>set opts. well_formed opt"
  shows "main_options (concat (map written opts) @ ''-c'' # cmd) = Some (applied opts (start_request, False), cmd)"
proof -
  have "getopt optstring \<lparr>g_next = [], g_rest = ''-c'' # cmd, g_skipped = []\<rparr> =
      (Opt (CHR ''c'') [], \<lparr>g_next = [], g_rest = cmd, g_skipped = []\<rparr>)"
    by (simp add: getopt_def is_option_def take_char_def optstring_def)
  then show ?thesis
    unfolding main_options_def parse_written [OF assms] by (subst parse_options.simps) simp
qed

lemma five: "atoi ''5'' = 5"
  by code_simp

theorem options_roundtrip_witness:
  "main_options [''-t5'', ''-u'', ''root'', ''-q'', ''-c'', ''ls'', ''-b''] =
     Some ((start_request\<lparr>rq_timeout := 5, rq_user := ''root'', rq_outmode := IGN, rq_errmode := IGN\<rparr>, True), [''ls'', ''-b''])"
proof -
  let ?opts = "[(CHR ''t'', ''5'', True), (CHR ''u'', ''root'', False), (CHR ''q'', [], False)]"
  have "\<forall>opt\<in>set ?opts. well_formed opt"
    by (simp add: well_formed_def optstring_def)
  from options_roundtrip [OF this, of "[''ls'', ''-b'']"] show ?thesis
    by (simp add: written_def optstring_def applied_def apply_opt_def start_request_def unquiet_def five)
qed

section \<open>Stopping\<close>

lemma went_well_first: "went_well os s t \<Longrightarrow> outbox (hist s) = [] \<Longrightarrow> \<exists>req acks. serialize os (cmsg s) = Some req \<and> outbox (hist t) = req # acks"
  by (auto simp: went_well_def answered_def talked_def)

lemma leave_wp [wp]:
  "wp (leave n) Q E s = wp destroy_client (\<lambda>_. Q n) E s"
  by (simp add: leave_def wp)

lemma destroy_keeps_outbox:
  "wp destroy_client (\<lambda>_ t. outbox (hist t) = outbox (hist s)) (\<lambda>_ _. False) s"
  by (simp add: destroy_client_def close_sockfd_def wp)

definition stop_message :: "int list \<Rightarrow> message" where
  "stop_message pids = message0\<lparr>ms_method := STOP, ms_runlist := map (\<lambda>pid. \<lparr>rp_pid = pid, rp_since = 0, rp_request = None\<rparr>) pids\<rparr>"

lemma main_stop_wp:
  assumes "words \<noteq> []" and "fst (inbox os (hist s)) = []" and "outbox (hist s) = []"
  shows "wp (main_stop os words) (\<lambda>n t. n = - 1 \<or> n = 0 \<and>
      (\<exists>req acks. serialize os (stop_message (stop_pids words)) = Some req \<and> outbox (hist t) = req # acks)) (\<lambda>_ _. False) s"
proof -
  let ?s = "s\<lparr>cmsg := stop_message (stop_pids words)\<rparr>"
  have "wp (exec os) (\<lambda>r. wp (if \<not> r then error_seen_log else leave 0) (\<lambda>n t. n = - 1 \<or> n = 0 \<and>
      (\<exists>req acks. serialize os (stop_message (stop_pids words)) = Some req \<and> outbox (hist t) = req # acks)) (\<lambda>_ _. False)) (\<lambda>_ _. False) ?s"
  proof (rule wp_mono [OF exec_went_well])
    show "fst (inbox os (hist ?s)) = []"
      using assms(2) by simp
    fix r t
    assume r: "r \<longrightarrow> went_well os ?s t"
    show "wp (if \<not> r then error_seen_log else leave 0) (\<lambda>n t. n = - 1 \<or> n = 0 \<and>
      (\<exists>req acks. serialize os (stop_message (stop_pids words)) = Some req \<and> outbox (hist t) = req # acks)) (\<lambda>_ _. False) t"
    proof (cases r)
      case True
      with r went_well_first [of os ?s t] assms(3)
      obtain req acks where "serialize os (stop_message (stop_pids words)) = Some req" "outbox (hist t) = req # acks"
        by auto
      with True show ?thesis
        by (auto simp: wp intro!: wp_mono [OF destroy_keeps_outbox])
    next
      case False
      then show ?thesis
        by (auto simp: wp error_seen_log_def intro!: wp_mono [OF destroy_keeps_outbox])
    qed
  qed simp
  then show ?thesis
    by (simp only: main_stop_def stop_cmd_def wp_bnd wp_seq wp_modify if_not_P [OF assms(1)] stop_message_def)
qed



section \<open>Times\<close>

text \<open>
  The running time in the list reads back. A time between 0 and \<open>2^31\<close> hours is printed as hours,
  minutes and seconds that add up to it, with minutes and seconds below 60.
\<close>

theorem time_diff_reads_back:
  assumes "0 \<le> now - since" and "now - since < 3600 * 2 ^ 31"
  shows "\<exists>h m s. time_diff since now = Some (to_string h @ '':'' @ to_string m @ '':'' @ to_string s) \<and>
    0 \<le> h \<and> 0 \<le> m \<and> m < 60 \<and> 0 \<le> s \<and> s < 60 \<and> h * 3600 + m * 60 + s = now - since"
proof -
  let ?d = "now - since"
  have "x smod 60 = x mod 60" "x sdiv 60 = x div 60" if "0 \<le> x" for x :: int
    using that by (auto simp: signed_modulo_int_def signed_divide_int_def sgn_if)
  moreover have "int32 (?d div 60 div 60)"
    using assms by (auto simp: int32_def)
  moreover have "?d div 60 div 60 * 3600 + ?d div 60 mod 60 * 60 + ?d mod 60 = ?d"
    by presburger
  ultimately show ?thesis
    using assms by - (rule exI [of _ "?d div 60 div 60"], rule exI [of _ "?d div 60 mod 60"], rule exI [of _ "?d mod 60"],
      simp add: time_diff_def Let_def cint_id)
qed

theorem time_diff_reads_back_witness:
  "\<exists>h m s. time_diff 100 7384 = Some (to_string h @ '':'' @ to_string m @ '':'' @ to_string s) \<and> h * 3600 + m * 60 + s = 7284"
  using time_diff_reads_back [of 7384 100] by auto

end
