(* ===== verification/RequestTypes.thy ===== *)
theory RequestTypes
  imports Srunctl
begin

text \<open>
  The values of a request on their way from the command line through the configuration to the
  command: numbers stay in 32 bits and texts stay C strings, so what is passed on as a C string
  loses nothing.
\<close>

section \<open>Well-typed requests\<close>

definition c_text :: "string \<Rightarrow> bool" where
  "c_text w \<longleftrightarrow> CHR 0x00 \<notin> set w"

definition request_ok :: "request \<Rightarrow> bool" where
  "request_ok rq \<longleftrightarrow> int32 (rq_timeout rq) \<and> int32 (rq_nice rq) \<and>
     list_all c_text [rq_model rq, rq_user rq, rq_chroot rq, rq_outfile rq, rq_errfile rq, rq_memlimit rq, rq_memswlimit rq] \<and>
     list_all c_text (rq_args rq) \<and> list_all c_text (rq_envs rq)"

text \<open>The key-file functions deliver a \<^verbatim>\<open>gint\<close> and C strings.\<close>

definition glib_ok :: "'k glib \<Rightarrow> bool" where
  "glib_ok g \<longleftrightarrow> (\<forall>k grp key n. kf_int g k grp key = Some n \<longrightarrow> int32 n) \<and>
     (\<forall>k grp key w. kf_str g k grp key = Some w \<longrightarrow> c_text w)"

lemma cint_int32: "int32 (cint n)"
  using sint_ge [of "word_of_int n :: 32 word"] sint_lt [of "word_of_int n :: 32 word"] by (simp add: cint_def int32_def)

lemma atoi_int32 [simp]: "int32 (atoi w)"
  by (simp add: atoi_def cint_int32)

section \<open>The command line\<close>

definition getopt_ok :: "getopt \<Rightarrow> bool" where
  "getopt_ok g \<longleftrightarrow> c_text (g_next g) \<and> list_all c_text (g_rest g) \<and> list_all c_text (g_skipped g)"

lemma c_text_simps [simp]: "c_text []" "c_text (c # w) \<longleftrightarrow> c \<noteq> CHR 0x00 \<and> c_text w"
  by (auto simp: c_text_def)

lemma take_char_ok:
  assumes "getopt_ok g" and "take_char optstring g = (r, g')"
  shows "getopt_ok g' \<and> (\<forall>c a. r = Opt c a \<longrightarrow> c_text a)"
  using assms
  by (cases "g_next g"; cases "g_rest g"; cases "tl (g_rest g)")
    (auto simp: take_char_def getopt_ok_def Let_def split: option.splits bool.splits if_splits list.splits)

lemma skip_words_ok:
  "list_all c_text skipped \<Longrightarrow> list_all c_text ws \<Longrightarrow> skip_words skipped ws = (skipped', ws') \<Longrightarrow>
   list_all c_text skipped' \<and> list_all c_text ws'"
  by (induction skipped ws rule: skip_words.induct) (auto split: if_splits)

lemma getopt_keeps_ok:
  assumes "getopt_ok g" and "getopt optstring g = (r, g')"
  shows "getopt_ok g' \<and> (\<forall>c a. r = Opt c a \<longrightarrow> c_text a)"
proof (cases "g_next g = []")
  case True
  obtain skipped ws where sk: "skip_words (g_skipped g) (g_rest g) = (skipped, ws)"
    by fastforce
  then have ok: "list_all c_text skipped" "list_all c_text ws"
    using skip_words_ok [OF _ _ sk] assms(1) by (auto simp: getopt_ok_def)
  show ?thesis
  proof (cases ws)
    case Nil
    then show ?thesis
      using True assms(2) sk ok by (auto simp: getopt_def getopt_ok_def)
  next
    case (Cons w rest)
    have "getopt_ok \<lparr>g_next = tl w, g_rest = ws, g_skipped = skipped\<rparr>"
      using ok Cons by (cases w) (auto simp: getopt_ok_def)
    note word = take_char_ok [OF this, of r g']
    show ?thesis
      using True assms(2) sk ok Cons word
      by (cases "w = ''--''") (auto simp: getopt_def getopt_ok_def)
  qed
qed (use assms take_char_ok in \<open>auto simp: getopt_def\<close>)

lemma apply_opt_ok:
  "request_ok (fst st) \<Longrightarrow> c_text a \<Longrightarrow> apply_opt c a st = Some st' \<Longrightarrow> request_ok (fst st')"
  by (cases st) (auto simp: apply_opt_def request_ok_def split: if_splits)

lemma parse_options_ok:
  "getopt_ok g \<Longrightarrow> request_ok (fst st) \<Longrightarrow> parse_options g st = Some (st', args) \<Longrightarrow>
   request_ok (fst st') \<and> list_all c_text args"
proof (induction g st rule: parse_options.induct)
  case (1 g st)
  obtain r g' where g: "getopt optstring g = (r, g')"
    by fastforce
  note ok = getopt_keeps_ok [OF "1.prems"(1) g]
  show ?case
  proof (cases r)
    case (Opt c a)
    have "parse_options g st = (if c = CHR ''c'' then Some (st, g_rest g')
        else case apply_opt c a st of None \<Rightarrow> None | Some st' \<Rightarrow> parse_options g' st')"
      by (subst parse_options.simps) (simp add: g Opt)
    then show ?thesis
      using "1.prems" "1.IH" [OF g [symmetric] Opt] ok Opt apply_opt_ok [OF "1.prems"(2), of a c]
      by (auto simp: getopt_ok_def split: if_splits option.splits)
  next
    case Finished
    then show ?thesis
      using "1.prems" g ok by (subst (asm) parse_options.simps) (auto simp: getopt_ok_def)
  next
    case Unknown
    then show ?thesis
      using "1.prems" g by (subst (asm) parse_options.simps) auto
  qed
qed

lemma main_options_ok:
  assumes "list_all c_text words" and "main_options words = Some ((rq, q), args)"
  shows "request_ok rq \<and> list_all c_text args"
  using parse_options_ok [of "\<lparr>g_next = [], g_rest = words, g_skipped = []\<rparr>" "(start_request, False)" "(rq, q)" args] assms
  by (simp add: main_options_def getopt_ok_def request_ok_def start_request_def request0_def int32_def)

section \<open>The configuration\<close>

lemma env_loop_ok:
  assumes "env_loop g k grp n rq = Some rq'" and "glib_ok g" and "request_ok rq"
  shows "request_ok rq' \<and> rq_args rq' = rq_args rq"
proof -
  have "glib_ok g \<longrightarrow> request_ok rq \<longrightarrow> request_ok rq' \<and> rq_args rq' = rq_args rq"
    using assms(1)
  proof (rule env_loop.raw_induct [where P = "\<lambda>g k grp n rq rq'. glib_ok g \<longrightarrow> request_ok rq \<longrightarrow> request_ok rq' \<and> rq_args rq' = rq_args rq",
        rotated])
    fix loop :: "'a glib \<Rightarrow> 'a \<Rightarrow> string \<Rightarrow> int \<Rightarrow> request \<Rightarrow> request option" and g k grp n rq rq'
    assume ih: "\<And>g k grp n rq rq'. loop g k grp n rq = Some rq' \<Longrightarrow> glib_ok g \<longrightarrow> request_ok rq \<longrightarrow> request_ok rq' \<and> rq_args rq' = rq_args rq"
      and run: "(case kf_str g k grp (''env'' @ to_string n) of None \<Rightarrow> Some rq
        | Some gstr \<Rightarrow> loop g k grp n (rq\<lparr>rq_envs := rq_envs rq @ [gstr]\<rparr>)) = Some rq'"
    show "glib_ok g \<longrightarrow> request_ok rq \<longrightarrow> request_ok rq' \<and> rq_args rq' = rq_args rq"
      using run ih by (fastforce simp: glib_ok_def request_ok_def split: option.splits)
  qed
  then show ?thesis
    using assms by blast
qed

text \<open>Setting one field from the group.\<close>

lemma if_set_keeps: "P rq \<Longrightarrow> (\<And>v. found = Some v \<Longrightarrow> P (f v rq)) \<Longrightarrow> P (if_set found f rq)"
  by (simp add: if_set_def split: option.split)

lemma if_set_keeps2:
  "P rq \<Longrightarrow> (\<And>v r. found = Some v \<Longrightarrow> P r \<Longrightarrow> P (f v r)) \<Longrightarrow> P (if_set found f rq)"
  by (rule if_set_keeps) simp_all

lemma fillRequest_ok:
  assumes "glib_ok g" and "request_ok rq" and "fillRequest g k name rq = Some rq'"
  shows "request_ok rq' \<and> rq_args rq' = rq_args rq"
proof -
  have num: "kf_int g k grp key = Some n \<Longrightarrow> int32 n" and str: "kf_str g k grp key = Some w \<Longrightarrow> c_text w" for grp key n w
    using assms(1) by (auto simp: glib_ok_def)
  let ?P = "\<lambda>r. request_ok r \<and> rq_args r = rq_args rq"
  obtain r where r: "env_loop g k (c_str name) 1 r = Some rq'" "?P r"
    by (rule that [OF assms(3) [unfolded fillRequest_def Let_def]], intro if_set_keeps2 [where P = ?P])
      (use assms(2) num str in \<open>auto simp: request_ok_def\<close>)
  show ?thesis
    using env_loop_ok [OF r(1) assms(1)] r(2) by simp
qed

lemma loadRequest_ok:
  assumes "glib_ok g" and "request_ok rq" and "loadRequest g keyfiles rq = Some (b, rq')"
  shows "request_ok rq' \<and> rq_args rq' = rq_args rq"
  using assms(2,3) fillRequest_ok [OF assms(1,2)]
  by (auto simp: loadRequest_def split: if_splits option.splits)



end
