(* ===== verification/Manager.thy ===== *)
theory Manager
  imports Output
begin

text \<open>
  \<^verbatim>\<open>src/src/manager.cpp\<close>: the process that serves one connection. Its file-static variables, with
  the globals \<^verbatim>\<open>process_stop\<close> and \<^verbatim>\<open>lockfd\<close> of \<^verbatim>\<open>srund.cpp\<close>, are one record over the record of calls;
  every function of the file is one definition, in the order of its use. Syslog calls leave no
  trace, except that a log line that reads \<^verbatim>\<open>request.args(0)\<close> needs the argument to be there.
\<close>

section \<open>State\<close>

definition MAX_EVENTS :: nat where
  "MAX_EVENTS = 20"

definition SIGTERM :: int where
  "SIGTERM = 15"

definition EINTR :: int where
  "EINTR = 4"

datatype pstatus = NO_PROC | PROC_RUNNING | PROC_EXIT

record mgr = sys +
  connection :: int
  clonepid :: int
  epollfd :: int
  timerfd :: int
  out :: outp
  err :: outp
  syn_timeout :: int
  is_syn :: bool
  result_sendback :: bool
  child_status :: pstatus
  response :: response
  request :: request
  process_stop :: bool
  lockfd :: int

text \<open>The state in which the daemon's child enters \<^verbatim>\<open>manager_start\<close>.\<close>

definition initial :: "event list \<Rightarrow> int \<Rightarrow> bool \<Rightarrow> int \<Rightarrow> mgr" where
  "initial h e stop lock = \<lparr>hist = h, errno = e, connection = - 1, clonepid = 0, epollfd = - 1,
     timerfd = - 1, out = Output, err = Output, syn_timeout = 1000, is_syn = False,
     result_sendback = False, child_status = NO_PROC, response = response0, request = request0,
     process_stop = stop, lockfd = lock\<rparr>"

text \<open>The operations of \<^verbatim>\<open>out\<close> and \<^verbatim>\<open>err\<close>, as operations of the manager.\<close>

definition view_out :: "mgr \<Rightarrow> ost" where
  "view_out s = \<lparr>hist = hist s, errno = errno s, obj = out s\<rparr>"

definition put_out :: "ost \<Rightarrow> mgr \<Rightarrow> mgr" where
  "put_out t s = s\<lparr>hist := hist t, errno := errno t, out := obj t\<rparr>"

definition with_out :: "(ost, 'a) prog \<Rightarrow> (mgr, 'a) prog" where
  "with_out = zoom view_out put_out"

definition view_err :: "mgr \<Rightarrow> ost" where
  "view_err s = \<lparr>hist = hist s, errno = errno s, obj = err s\<rparr>"

definition put_err :: "ost \<Rightarrow> mgr \<Rightarrow> mgr" where
  "put_err t s = s\<lparr>hist := hist t, errno := errno t, err := obj t\<rparr>"

definition with_err :: "(ost, 'a) prog \<Rightarrow> (mgr, 'a) prog" where
  "with_err = zoom view_err put_err"

lemma returns_with [returns]:
  "returns m (view_out s) \<Longrightarrow> returns (with_out m) s" "returns m (view_err s) \<Longrightarrow> returns (with_err m) s"
  by (simp_all add: with_out_def with_err_def returns_zoom)

text \<open>\<^verbatim>\<open>request.args(0)\<close>; reading past the end of a repeated field is undefined.\<close>

definition args0 :: "(mgr, string) prog" where
  "args0 = bnd (get (\<lambda>s. rq_args (request s))) (\<lambda>args. case args of
     [] \<Rightarrow> halt Undefined | a # _ \<Rightarrow> ret a)"

definition proc_file :: "int \<Rightarrow> string" where
  "proc_file pid = tmpfs @ ''/'' @ to_string pid"

definition cgroup_leaf :: "int \<Rightarrow> string" where
  "cgroup_leaf pid = CGMemoryRoot @ ''/'' @ to_string pid"

lemma path_text: "CHR 0x00 \<notin> set (proc_file pid)" "CHR 0x00 \<notin> set (cgroup_leaf pid)"
  using to_string_no_nul by (auto simp: proc_file_def cgroup_leaf_def tmpfs_def CGMemoryRoot_def)

lemma c_str_paths [simp]:
  "c_str (proc_file pid) = proc_file pid" "c_str (cgroup_leaf pid @ x) = cgroup_leaf pid @ c_str x"
  by (simp_all add: c_str_id c_str_append path_text)

section \<open>Signals\<close>

definition sigterm_handler :: "os \<Rightarrow> int \<Rightarrow> (mgr, unit) prog" where
  "sigterm_handler os si_pid =
     bnd (if si_pid = 1 then ret True
          else bnd (sys_int os Getppid) (\<lambda>parent. ret (si_pid = parent))) (\<lambda>honoured.
     whenp honoured (modify (\<lambda>s. s\<lparr>process_stop := True\<rparr>)))"

text \<open>Reading \<^verbatim>\<open>process_stop\<close>, after the handler has run for the signals that have come.\<close>

definition read_process_stop :: "os \<Rightarrow> (mgr, bool) prog" where
  "read_process_stop os =
     bnd (sys_signals os) (\<lambda>senders. seq (for_each senders (sigterm_handler os)) (get process_stop))"

definition signal_register :: "(mgr, unit) prog" where
  "signal_register = seq (sys_do (Sigaction SIGTERM)) (sys_do (Pdeathsig SIGTERM))"

section \<open>The child process\<close>

definition exec_over :: "mgr \<Rightarrow> bool" where
  "exec_over s \<longleftrightarrow> child_status s = PROC_EXIT \<and> over (out s) \<and> over (err s)"

definition stop_child :: "(mgr, unit) prog" where
  "stop_child = bnd (get child_status) (\<lambda>status.
     whenp (status = PROC_RUNNING) (bnd (get clonepid) (\<lambda>pid. sys_do (Kill pid SIGTERM))))"

definition clear_clonepid :: "(mgr, unit) prog" where
  "clear_clonepid = bnd (get clonepid) (\<lambda>pid. whenp (pid > 0)
     (let clone_file = proc_file pid; leaf = cgroup_leaf pid in
      seq (modify (\<lambda>s. s\<lparr>clonepid := 0\<rparr>))
      (bnd (get lockfd) (\<lambda>lock.
       seq (sys_do (Flock lock LOCK_EX))
       (seq (sys_do (Unlink (c_str clone_file)))
       (seq (sys_do (Flock lock LOCK_UN))
         (sys_do (Rmdir (c_str leaf)))))))))"

text \<open>The body of the loop of \<^verbatim>\<open>wait_child\<close>, for a process that was reaped.\<close>

definition reaped :: "int \<Rightarrow> wstatus \<Rightarrow> (mgr, unit) prog" where
  "reaped pid stat = bnd (get clonepid) (\<lambda>cp. whenp (cp = pid)
     (seq (modify (\<lambda>s. s\<lparr>child_status := PROC_EXIT\<rparr>))
     (seq (case stat of
         Exited n \<Rightarrow> modify (\<lambda>s. s\<lparr>response := (response s)\<lparr>rs_stat := NORMAL, rs_retval := n\<rparr>\<rparr>)
       | Signaled _ \<Rightarrow> seq (modify (\<lambda>s. s\<lparr>response := (response s)\<lparr>rs_stat := ABNORMAL\<rparr>\<rparr>))
           (bnd args0 (\<lambda>_. ret ()))
       | OtherStatus \<Rightarrow> modify (\<lambda>s. s\<lparr>response := (response s)\<lparr>rs_stat := ABNORMAL\<rparr>\<rparr>))
       clear_clonepid)))"

partial_function (option) wait_child :: "os \<Rightarrow> (mgr, unit) prog" where
  "wait_child os s = bnd (sys_waitpid os) (\<lambda>(pid, stat).
     if pid > 0 then seq (reaped pid stat) (wait_child os) else ret ()) s"

section \<open>Ending\<close>

definition close_connection :: "(mgr, unit) prog" where
  "close_connection = bnd (get connection) (\<lambda>fd. bnd (closefd fd) (\<lambda>v. modify (\<lambda>s. s\<lparr>connection := v\<rparr>)))"

definition close_epollfd :: "(mgr, unit) prog" where
  "close_epollfd = bnd (get epollfd) (\<lambda>fd. bnd (closefd fd) (\<lambda>v. modify (\<lambda>s. s\<lparr>epollfd := v\<rparr>)))"

definition close_timerfd :: "(mgr, unit) prog" where
  "close_timerfd = bnd (get timerfd) (\<lambda>fd. bnd (closefd fd) (\<lambda>v. modify (\<lambda>s. s\<lparr>timerfd := v\<rparr>)))"

definition manager_destroy :: "os \<Rightarrow> (mgr, unit) prog" where
  "manager_destroy os = bnd (get child_status) (\<lambda>status.
     seq (whenp (status = PROC_RUNNING)
       (bnd (get clonepid) (\<lambda>pid.
        seq (sys_do (Kill pid SIGTERM)) (seq (sys_do (Sleep 2)) (wait_child os)))))
     (seq close_connection (seq close_epollfd (seq close_timerfd (sys_do ShutdownProtobuf)))))"

text \<open>\<^verbatim>\<open>exit\<close> runs the destructors of the static objects, last constructed first.\<close>

definition exit_process :: "int \<Rightarrow> (mgr, 'a) prog" where
  "exit_process code = seq (with_err destroy) (seq (with_out destroy) (halt (Exit code)))"

section \<open>Messages\<close>

definition send_message :: "os \<Rightarrow> message \<Rightarrow> (mgr, unit) prog" where
  "send_message os m = (case serialize os m of
       None \<Rightarrow> throw (runtime_error ''Message SerializeToString failed'')
     | Some data \<Rightarrow>
         seq (ThrowRuntimeIf (data = []) ''Message SerializeToString empty.'')
         (bnd (get connection) (\<lambda>fd. bnd (sys_int os (Write fd data)) (\<lambda>len.
          seq (ThrowCAPIExceptionIf (cint len \<noteq> cint (int (length data))) ''SendMessage'')
            (whenp (ms_method m \<noteq> SYN \<and> ms_method m \<noteq> ACK)
              (modify (\<lambda>s. s\<lparr>result_sendback := True\<rparr>)))))))"

text \<open>The loop that reads until there is nothing more.\<close>

partial_function (option) read_all :: "os \<Rightarrow> string \<Rightarrow> (mgr, string) prog" where
  "read_all os data s = bnd (get connection) (\<lambda>fd. bnd (sys_read os fd BUFSIZE) (\<lambda>r. case r of
       None \<Rightarrow> ret data
     | Some buffer \<Rightarrow> if buffer = [] then ret data else read_all os (data @ buffer))) s"

definition send_response :: "os \<Rightarrow> response \<Rightarrow> (mgr, unit) prog" where
  "send_response os r = send_message os (message0\<lparr>ms_method := EXE, ms_response := Some r\<rparr>)"

section \<open>Starting a command\<close>

definition set_timeout :: "os \<Rightarrow> (mgr, unit) prog" where
  "set_timeout os = bnd (get request) (\<lambda>rq.
     if rq_timeout rq < 0 then bnd args0 (\<lambda>_. ret ())
     else bnd (sys_int os TimerfdCreate) (\<lambda>fd.
       seq (modify (\<lambda>s. s\<lparr>timerfd := fd\<rparr>))
       (seq (ThrowCAPIExceptionIf (- 1 = fd) ''timerfd_create'')
       (let timeout = (if rq_timeout rq = 0 then (if rq_backend rq then 7200 else 600) else rq_timeout rq) in
        bnd (sys_int os (TimerfdSettime fd timeout)) (\<lambda>n.
        seq (ThrowCAPIExceptionIf (- 1 = n) ''timerfd_settime'')
        (bnd (get epollfd) (\<lambda>ep. bnd (sys_int os (EpollCtl ep EPOLL_CTL_ADD fd)) (\<lambda>m.
         ThrowCAPIExceptionIf (- 1 = m) ''epoll_ctl''))))))))"

definition is_command :: "os \<Rightarrow> string \<Rightarrow> ('z sys_scheme, bool) prog" where
  "is_command os path = bnd (sys_bool os (Exists path)) (\<lambda>there.
     if there then bnd (sys_bool os (IsDirectory path)) (\<lambda>isdir. ret (\<not> isdir)) else ret False)"

primrec search_paths :: "os \<Rightarrow> string \<Rightarrow> string list \<Rightarrow> (mgr, bool) prog" where
  "search_paths os cmd [] = ret False"
| "search_paths os cmd (p # ps) = bnd (is_command os (p @ cmd)) (\<lambda>found.
     if found then
       seq (modify (\<lambda>s. s\<lparr>request := (request s)\<lparr>rq_args := (rq_args (request s))[0 := p @ cmd]\<rparr>\<rparr>))
         (ret True)
     else search_paths os cmd ps)"

definition find_command :: "os \<Rightarrow> (mgr, bool) prog" where
  "find_command os = bnd (get (\<lambda>s. rq_args (request s))) (\<lambda>args.
     case args of
       [] \<Rightarrow> ret False
     | cmd # _ \<Rightarrow>
         if cmd = [] then ret False
         else if hd cmd = CHR ''/'' then is_command os cmd
         else search_paths os cmd find_paths)"

text \<open>Lines 440 to 459: the memory control group of the child. The two limits are written alike.\<close>

definition write_limit :: "os \<Rightarrow> string \<Rightarrow> string \<Rightarrow> string \<Rightarrow> (mgr, unit) prog \<Rightarrow> (mgr, unit) prog" where
  "write_limit os path fallback limit otherwise =
     (if limit = [] then write_file os path fallback
      else if atoi (c_str limit) > 0 then write_file os path limit
      else otherwise)"

definition write_limits :: "os \<Rightarrow> int \<Rightarrow> (mgr, unit) prog" where
  "write_limits os pid = bnd (get request) (\<lambda>rq.
     let leaf = cgroup_leaf pid;
         memlimit = leaf @ ''/memory.limit_in_bytes'';
         memswlimit = leaf @ ''/memory.memsw.limit_in_bytes'' in
     seq (write_limit os memlimit ''100M'' (rq_memlimit rq) (bnd args0 (\<lambda>_. ret ())))
     (bnd (sys_bool os (Exists memswlimit)) (\<lambda>swap.
      seq (whenp swap (write_limit os memswlimit ''1G'' (rq_memswlimit rq) (ret ())))
      (seq (write_file os (leaf @ ''/cgroup.procs'') (to_string pid))
        (write_file os (leaf @ ''/notify_on_release'') ''1'')))))"

definition limit_memory :: "os \<Rightarrow> int \<Rightarrow> (mgr, unit) prog" where
  "limit_memory os pid =
     (let leaf = cgroup_leaf pid in
      bnd (sys_bool os (IsDirectory leaf)) (\<lambda>there.
      bnd (if there then ret True else sys_bool os (CreateDirectories leaf)) (\<lambda>made.
      seq (ThrowRuntimeIf (\<not> made) (''Create '' @ leaf @ '' failed.'')) (write_limits os pid))))"

text \<open>
  \<^verbatim>\<open>try { flock; ...; flock } catch (exception &e) { flock; throw e; }\<close>, written three times in the
  source. The exception thrown again is a copy of the base class.
\<close>

definition locked :: "lockop \<Rightarrow> (mgr, 'a) prog \<Rightarrow> (mgr, 'a) prog" where
  "locked op body = try_catch
     (bnd (get lockfd) (\<lambda>lock. seq (sys_do (Flock lock op))
       (bnd body (\<lambda>x. seq (sys_do (Flock lock LOCK_UN)) (ret x)))))
     (\<lambda>_. bnd (get lockfd) (\<lambda>lock. seq (sys_do (Flock lock LOCK_UN)) (throw std_exception)))"

text \<open>Lines 424 to 436 in the parent; what the child does is \<open>execute\<close>.\<close>

definition clone_child :: "os \<Rightarrow> (mgr, int) prog" where
  "clone_child os = bnd (get (\<lambda>s. rq_network (request s))) (\<lambda>network.
     bnd (sys_int os (Clone (\<not> network))) (\<lambda>pid.
     seq (modify (\<lambda>s. s\<lparr>clonepid := pid\<rparr>))
     (seq (ThrowCAPIExceptionIf (pid = - 1) ''clone'')
     (seq (modify (\<lambda>s. s\<lparr>child_status := PROC_RUNNING\<rparr>)) (ret pid)))))"

definition launch :: "os \<Rightarrow> string \<Rightarrow> (mgr, unit) prog" where
  "launch os data = bnd (get request) (\<lambda>rq.
     seq (with_out (load os (rq_outmode rq) (rq_outfile rq) (rq_backend rq)))
     (seq (with_err (load os (rq_errmode rq) (rq_errfile rq) (rq_backend rq)))
     (bnd (clone_child os) (\<lambda>pid.
      seq (limit_memory os pid)
      (seq (locked LOCK_EX (write_file os (proc_file pid) data))
      (bnd (get epollfd) (\<lambda>ep.
       seq (with_out (bind os ep))
       (seq (with_err (bind os ep))
       (seq (set_timeout os)
       (bnd (get (\<lambda>s. rq_backend (request s))) (\<lambda>backend.
        whenp backend (send_response os (response0\<lparr>rs_stat := NORMAL, rs_retval := 0\<rparr>)))))))))))))"

definition handle_request :: "os \<Rightarrow> string \<Rightarrow> (mgr, unit) prog" where
  "handle_request os data = bnd (get clonepid) (\<lambda>pid.
     if pid > 0 then ret ()
     else bnd (get (\<lambda>s. rq_backend (request s))) (\<lambda>backend.
       seq (whenp backend (modify (\<lambda>s. s\<lparr>syn_timeout := - 1\<rparr>)))
       (bnd (find_command os) (\<lambda>found.
        if \<not> found then send_response os (response0\<lparr>rs_stat := BADARGS\<rparr>)
        else bnd args0 (\<lambda>_. launch os data)))))"

section \<open>The child\<close>

definition set_env :: "string \<Rightarrow> (mgr, unit) prog" where
  "set_env e = (case find_first_of CHR ''='' e of
       None \<Rightarrow> ret ()
     | Some pos \<Rightarrow> sys_do (Setenv (c_str (take pos e)) (c_str (drop (pos + 1) e))))"

text \<open>
  \<^verbatim>\<open>execv\<close> with an empty argument list passes a null path, and the log line after it reads an
  argument that is not there. An \<^verbatim>\<open>execv\<close> that succeeds replaces the program.
\<close>

definition run_command :: "os \<Rightarrow> string list \<Rightarrow> (mgr, unit) prog" where
  "run_command os args = (case args of
       [] \<Rightarrow> halt Undefined
     | a # _ \<Rightarrow> bnd (sys_int os (Execv (c_str a) (map c_str args))) (\<lambda>n.
         if n = - 1 then halt Abort else halt Replaced))"

definition drop_privileges :: "os \<Rightarrow> string \<Rightarrow> (mgr, unit) prog" where
  "drop_privileges os user = bnd (sys_getpwnam os (c_str user)) (\<lambda>pwd.
     seq (ThrowCAPIExceptionIf (pwd = None) ''Get user error'')
     (case pwd of
        None \<Rightarrow> ret ()
      | Some (uid, gid) \<Rightarrow>
          bnd (sys_int os (Setgid gid)) (\<lambda>r.
          seq (ThrowCAPIExceptionIf (0 \<noteq> r) ''setgid'')
          (bnd (sys_int os (Setuid uid)) (\<lambda>r'.
           ThrowCAPIExceptionIf (0 \<noteq> r') ''setgid'')))))"

definition execute :: "os \<Rightarrow> (mgr, unit) prog" where
  "execute os = try_catch
     (seq (with_out (dup os 1))
     (seq (with_err (dup os 2))
     (seq (modify (\<lambda>s. s\<lparr>request := (request s)\<lparr>rq_user :=
             (if rq_user (request s) = [] then ''nobody'' else rq_user (request s))\<rparr>\<rparr>))
     (bnd (get request) (\<lambda>rq.
      seq (drop_privileges os (rq_user rq))
      (seq (whenp (rq_chroot rq \<noteq> [])
         (bnd (sys_int os (Chdir (c_str (rq_chroot rq)))) (\<lambda>r.
          ThrowCAPIExceptionIf (0 \<noteq> r) (''chroot '' @ rq_chroot rq))))
      (seq (sys_do (Pdeathsig SIGTERM))
      (seq (sys_do (Nice (rq_nice rq)))
      (seq (for_each (rq_envs rq) set_env)
        (run_command os (rq_args rq)))))))))))
     (\<lambda>_. exit_process (- 1))"

section \<open>Receiving\<close>

definition last_write_time :: "os \<Rightarrow> string \<Rightarrow> (mgr, int) prog" where
  "last_write_time os path = bnd (sys_int os (LastWriteTime path)) (\<lambda>t.
     if t = - 1 then throw filesystem_error else ret t)"

text \<open>The loop over the directory of running processes; the listing is taken when it starts.\<close>

primrec list_procs :: "os \<Rightarrow> string list \<Rightarrow> runproc list \<Rightarrow> (mgr, runproc list) prog" where
  "list_procs os [] acc = ret acc"
| "list_procs os (subpath # ps) acc =
     bnd (read_file os subpath) (\<lambda>tmpdata. case parse os tmpdata of
         None \<Rightarrow> throw (runtime_error ''Message ParseFromString failed'')
       | Some proc_msg \<Rightarrow> bnd (last_write_time os subpath) (\<lambda>t.
           list_procs os ps (acc @ [\<lparr>rp_pid = atoi (c_str (stem_of os subpath)), rp_since = t,
             rp_request = Some (the_request proc_msg)\<rparr>])))"

definition receive_list :: "os \<Rightarrow> (mgr, unit) prog" where
  "receive_list os =
     seq (modify (\<lambda>s. s\<lparr>request := (request s)\<lparr>rq_backend := False\<rparr>\<rparr>))
     (bnd (locked LOCK_SH (bnd (sys_names os (ListDir tmpfs)) (\<lambda>paths. list_procs os paths []))) (\<lambda>procs.
      send_message os (message0\<lparr>ms_method := LIST, ms_runlist := procs\<rparr>)))"

definition stop_proc :: "os \<Rightarrow> runproc \<Rightarrow> (mgr, unit) prog" where
  "stop_proc os proc = locked LOCK_SH
     (bnd (sys_bool os (Exists (proc_file (rp_pid proc)))) (\<lambda>there.
      whenp there (sys_do (Kill (rp_pid proc) SIGTERM))))"

definition receive_stop :: "os \<Rightarrow> runproc list \<Rightarrow> (mgr, unit) prog" where
  "receive_stop os procs = seq (for_each procs (stop_proc os))
     (send_message os (message0\<lparr>ms_method := STOP\<rparr>))"

text \<open>
  An \<^verbatim>\<open>EXE\<close> message: the request is overwritten, then completed from the configuration; whether a
  group was found is not looked at. Completing may not end (theory \<open>Config\<close>).
\<close>

definition load_request :: "'k glib \<Rightarrow> (string \<times> 'k) list \<Rightarrow> (mgr, unit) prog" where
  "load_request g keyfiles s = (case loadRequest g keyfiles (request s) of
       None \<Rightarrow> None
     | Some (_, rq) \<Rightarrow> Some (Inr (), s\<lparr>request := rq\<rparr>))"

definition receive_exe :: "os \<Rightarrow> 'k glib \<Rightarrow> (string \<times> 'k) list \<Rightarrow> message \<Rightarrow> string \<Rightarrow> (mgr, unit) prog" where
  "receive_exe os g keyfiles m data =
     seq (modify (\<lambda>s. s\<lparr>request := the_request m\<rparr>))
     (seq (load_request g keyfiles) (handle_request os data))"

text \<open>The \<^verbatim>\<open>SYN\<close> case fills in \<^verbatim>\<open>sendback\<close> and sends \<^verbatim>\<open>message\<close>.\<close>

definition handle_message :: "os \<Rightarrow> 'k glib \<Rightarrow> (string \<times> 'k) list \<Rightarrow> message \<Rightarrow> string \<Rightarrow> (mgr, unit) prog" where
  "handle_message os g keyfiles m data = (case ms_method m of
       SYN \<Rightarrow> send_message os m
     | ACK \<Rightarrow> modify (\<lambda>s. s\<lparr>is_syn := False\<rparr>)
     | EXE \<Rightarrow> receive_exe os g keyfiles m data
     | LIST \<Rightarrow> receive_list os
     | STOP \<Rightarrow> receive_stop os (ms_runlist m)
     | UNKNOWN _ \<Rightarrow> ret ())"

definition connection_closed :: "(mgr, unit) prog" where
  "connection_closed =
     seq (modify (\<lambda>s. s\<lparr>syn_timeout := - 1\<rparr>))
     (bnd (get epollfd) (\<lambda>ep. bnd (get connection) (\<lambda>fd.
      seq (sys_do (EpollCtl ep EPOLL_CTL_DEL fd))
      (seq close_connection
      (bnd (get (\<lambda>s. \<not> rq_backend (request s) \<and> \<not> result_sendback s)) (\<lambda>lost.
       whenp lost stop_child))))))"

definition recv_message :: "os \<Rightarrow> 'k glib \<Rightarrow> (string \<times> 'k) list \<Rightarrow> (mgr, unit) prog" where
  "recv_message os g keyfiles = bnd (read_all os []) (\<lambda>data.
     if data = [] then connection_closed
     else case parse os data of
         None \<Rightarrow> throw (runtime_error ''Message ParseFromString failed'')
       | Some m \<Rightarrow> handle_message os g keyfiles m data)"

section \<open>The event loop\<close>

text \<open>Lines 133 to 152: what the loop does about a command that is over and a client that is gone.\<close>

definition deal_with_exit :: "os \<Rightarrow> (mgr, unit) prog" where
  "deal_with_exit os = bnd (get exec_over) (\<lambda>finished. bnd (get connection) (\<lambda>fd.
     if finished then
       bnd (if fd = - 1 then ret True else read_process_stop os) (\<lambda>leave.
       if leave then seq (manager_destroy os) (exit_process 0)
       else bnd (get result_sendback) (\<lambda>sent. whenp (\<not> sent)
         (bnd (get (\<lambda>s. (response s)\<lparr>rs_outstr := str (out s), rs_errstr := str (err s)\<rparr>))
           (send_response os))))
     else bnd (get child_status) (\<lambda>status.
       whenp (status = NO_PROC \<and> fd = - 1) (seq (manager_destroy os) (exit_process 0)))))"

text \<open>Lines 160 to 167: when nothing happened for a while, ask whether the client is alive.\<close>

definition check_client :: "os \<Rightarrow> (mgr, unit) prog" where
  "check_client os = bnd (get (\<lambda>s. \<not> rq_backend (request s) \<and> connection s \<noteq> - 1)) (\<lambda>ask.
     whenp ask (bnd (get is_syn) (\<lambda>pending.
       seq (ThrowLogicIf pending ''syn timeout'')
       (seq (modify (\<lambda>s. s\<lparr>is_syn := True\<rparr>))
         (send_message os (message0\<lparr>ms_method := SYN\<rparr>))))))"

definition timer_expired :: "(mgr, unit) prog" where
  "timer_expired = seq stop_child
     (bnd (get epollfd) (\<lambda>ep. bnd (get timerfd) (\<lambda>fd.
      seq (sys_do (EpollCtl ep EPOLL_CTL_DEL fd))
      (seq close_timerfd
        (modify (\<lambda>s. s\<lparr>response := (response s)\<lparr>rs_stat := TIMEOUT\<rparr>\<rparr>))))))"

definition dispatch :: "os \<Rightarrow> 'k glib \<Rightarrow> (string \<times> 'k) list \<Rightarrow> int \<Rightarrow> (mgr, unit) prog" where
  "dispatch os g keyfiles fd =
     bnd (get connection) (\<lambda>conn. bnd (get (\<lambda>s. pipefd0 (out s))) (\<lambda>o0.
     bnd (get (\<lambda>s. pipefd0 (err s))) (\<lambda>e0. bnd (get timerfd) (\<lambda>tfd. bnd (get epollfd) (\<lambda>ep.
     if fd = conn then recv_message os g keyfiles
     else if fd = o0 then with_out (receive os ep)
     else if fd = e0 then with_err (receive os ep)
     else whenp (tfd \<noteq> - 1 \<and> fd = tfd) timer_expired)))))"

definition iteration :: "os \<Rightarrow> 'k glib \<Rightarrow> (string \<times> 'k) list \<Rightarrow> (mgr, unit) prog" where
  "iteration os g keyfiles =
     seq (wait_child os)
     (seq (deal_with_exit os)
     (bnd (read_process_stop os) (\<lambda>stop.
      seq (whenp stop stop_child)
      (bnd (get epollfd) (\<lambda>ep. bnd (get syn_timeout) (\<lambda>timeout.
       bnd (sys_epoll_wait os ep MAX_EVENTS timeout) (\<lambda>events. bnd (get errno) (\<lambda>e.
       seq (ThrowCAPIExceptionIf (events = None \<and> e \<noteq> EINTR) ''epoll_wait'')
       (seq (whenp (events = Some []) (check_client os))
         (for_each (case events of None \<Rightarrow> [] | Some fds \<Rightarrow> fds) (dispatch os g keyfiles)))))))))))"

partial_function (option) manager_loop :: "os \<Rightarrow> 'k glib \<Rightarrow> (string \<times> 'k) list \<Rightarrow> (mgr, unit) prog" where
  "manager_loop os g keyfiles s = seq (iteration os g keyfiles) (manager_loop os g keyfiles) s"

definition manager_setup :: "os \<Rightarrow> int \<Rightarrow> (mgr, unit) prog" where
  "manager_setup os connection_fd =
     seq (modify (\<lambda>s. s\<lparr>connection := connection_fd\<rparr>))
     (seq signal_register
     (bnd (sys_int os EpollCreate) (\<lambda>ep.
      seq (modify (\<lambda>s. s\<lparr>epollfd := ep\<rparr>))
      (seq (ThrowCAPIExceptionIf (- 1 = ep) ''epoll_create1'')
      (bnd (sys_int os (EpollCtl ep EPOLL_CTL_ADD connection_fd)) (\<lambda>n.
       ThrowCAPIExceptionIf (- 1 = n) ''epoll_ctl''))))))"

definition manager_start :: "os \<Rightarrow> 'k glib \<Rightarrow> (string \<times> 'k) list \<Rightarrow> int \<Rightarrow> (mgr, unit) prog" where
  "manager_start os g keyfiles connection_fd =
     seq (manager_setup os connection_fd) (manager_loop os g keyfiles)"

end
