(* ===== verification/Daemon.thy ===== *)
theory Daemon
  imports Manager Loops
begin

text \<open>
  \<^verbatim>\<open>src/src/srund.cpp\<close>: the daemon. Its process is the one whose forked copies run
  \<^verbatim>\<open>manager_start\<close>, so the program runs on the manager's state, which holds its two globals; the
  other variables of \<^verbatim>\<open>main\<close> are local. A run follows one process: where \<^verbatim>\<open>fork\<close> answers 0 it goes on
  as the child.
\<close>

definition MAX_LISTEN_QUEUE :: int where
  "MAX_LISTEN_QUEUE = 10"

definition SIGCLD :: int where
  "SIGCLD = 17"

definition ECONNABORTED :: int where
  "ECONNABORTED = 103"

section \<open>Signals\<close>

definition sigterm_handler :: "int \<Rightarrow> (mgr, unit) prog" where
  "sigterm_handler si_pid = whenp (si_pid = 1) (modify (\<lambda>s. s\<lparr>process_stop := True\<rparr>))"

text \<open>Reading \<^verbatim>\<open>process_stop\<close>, after the handler has run for the signals that have come.\<close>

definition stop_asked :: "os \<Rightarrow> (mgr, bool) prog" where
  "stop_asked os = bnd (sys_signals os) (\<lambda>senders. seq (for_each senders sigterm_handler) (get process_stop))"

definition daemon_signal_register :: "(mgr, unit) prog" where
  "daemon_signal_register = seq (sys_do (Sigaction SIGTERM)) (sys_do (Sigaction SIGCLD))"

section \<open>Resources\<close>

text \<open>The loop over the table of mounts: whether the file system is there.\<close>

definition search_mounts :: "os \<Rightarrow> int \<Rightarrow> string \<Rightarrow> (mgr, bool) prog" where
  "search_mounts os stream mountpoint = loop (\<lambda>_. bnd (sys_getmntent os stream) (\<lambda>ent. case ent of
       None \<Rightarrow> ret (Inr False)
     | Some (mnt_dir, mnt_type) \<Rightarrow>
         if mnt_dir = c_str mountpoint
         then seq (ThrowLogicIf (mnt_type \<noteq> ''tmpfs'') ''tmpfs have mount other filesystem.'') (ret (Inr True))
         else ret (Inl ()))) ()"

definition find_mount :: "os \<Rightarrow> string \<Rightarrow> (mgr, bool) prog" where
  "find_mount os mountpoint =
     bnd (sys_bool os (IsDirectory mountpoint)) (\<lambda>there.
     if \<not> there then bnd (sys_bool os (CreateDirectories mountpoint)) (\<lambda>_. ret False)
     else bnd (sys_int os (Host (Setmntent ''/proc/mounts''))) (\<lambda>stream.
       seq (ThrowCAPIExceptionIf (stream = - 1) ''setmntent(/proc/mounts)'')
         (on_block_exit (MakeGuard1 (\<lambda>st. sys_do (Fclose st)) stream) (search_mounts os stream mountpoint))))"

definition mount_tmpfs :: "os \<Rightarrow> string \<Rightarrow> (mgr, unit) prog" where
  "mount_tmpfs os mountpoint = bnd (find_mount os mountpoint) (\<lambda>mounted.
     whenp (\<not> mounted) (bnd (sys_int os (Host (Mount ''tmpfs'' (c_str mountpoint)))) (\<lambda>r.
       ThrowCAPIExceptionIf (- 1 = r) ''mount tmpfs'')))"

definition umount_tmpfs :: "os \<Rightarrow> string \<Rightarrow> (mgr, unit) prog" where
  "umount_tmpfs os mountpoint = bnd (sys_int os (Host (Umount (c_str mountpoint)))) (\<lambda>_. ret ())"

text \<open>The listing is taken when the loop starts.\<close>

definition clear_cgroup_setting :: "os \<Rightarrow> (mgr, unit) prog" where
  "clear_cgroup_setting os = try_catch
     (bnd (sys_bool os (IsDirectory CGMemoryRoot)) (\<lambda>there.
      whenp there (bnd (sys_names os (ListDir CGMemoryRoot)) (\<lambda>paths.
        for_each paths (\<lambda>path. bnd (sys_bool os (IsDirectory path)) (\<lambda>isdir.
          whenp isdir (sys_do (Rmdir (c_str path)))))))))
     (\<lambda>_. ret ())"

definition clear_resource :: "os \<Rightarrow> (mgr, unit) prog" where
  "clear_resource os = seq (umount_tmpfs os tmpfs)
     (bnd (get lockfd) (\<lambda>fd.
      seq (sys_do (Close fd)) (seq (sys_do (Unlink (c_str lockfile))) (clear_cgroup_setting os))))"

section \<open>Serving\<close>

definition open_socket :: "os \<Rightarrow> (mgr, int) prog" where
  "open_socket os = bnd (sys_int os (Socket False)) (\<lambda>sockfd.
     seq (ThrowCAPIExceptionIf (sockfd = - 1) ''create socket'')
     (seq (sys_do (Unlink (c_str sockfile)))
     (bnd (sys_int os (Host (SockBind sockfd sockfile))) (\<lambda>r1.
      seq (ThrowCAPIExceptionIf (- 1 = r1) ''socket bind'')
     (bnd (sys_int os (Host (Chmod (c_str sockfile)))) (\<lambda>r2.
      seq (ThrowCAPIExceptionIf (- 1 = r2) ''chmod 777 sockfile'')
     (bnd (sys_int os (Host (Listen sockfd MAX_LISTEN_QUEUE))) (\<lambda>r3.
      seq (ThrowCAPIExceptionIf (- 1 = r3) ''listen'') (ret sockfd)))))))))"

definition reap_all :: "os \<Rightarrow> (mgr, unit) prog" where
  "reap_all os = loop (\<lambda>_. bnd (sys_waitpid os) (\<lambda>(pid, stat). ret (if pid > 0 then Inl () else Inr ()))) ()"

text \<open>The child: \<open>Some n\<close> is the end of \<^verbatim>\<open>main\<close>, \<open>None\<close> would be the next round of the loop.\<close>

definition serve :: "os \<Rightarrow> 'k glib \<Rightarrow> (string \<times> 'k) list \<Rightarrow> int \<Rightarrow> int \<Rightarrow> (mgr, int option) prog" where
  "serve os g keyfiles sockfd connection_fd = seq (sys_do (Close sockfd))
     (try_catch (seq (manager_start os g keyfiles connection_fd) (ret None))
       (\<lambda>_. seq (manager_destroy os) (ret (Some (- 1)))))"

text \<open>One round of the accept loop: go on, or end it, by \<^verbatim>\<open>break\<close> (\<open>None\<close>) or by the end of \<^verbatim>\<open>main\<close>.\<close>

definition accept_round :: "os \<Rightarrow> 'k glib \<Rightarrow> (string \<times> 'k) list \<Rightarrow> int \<Rightarrow> (mgr, unit + int option) prog" where
  "accept_round os g keyfiles sockfd = bnd (sys_int os (Accept sockfd)) (\<lambda>connection_fd.
     if - 1 = connection_fd then bnd (get errno) (\<lambda>e.
       if e = ECONNABORTED then ret (Inl ())
       else if e = EINTR then seq (reap_all os) (bnd (stop_asked os) (\<lambda>stop. ret (if stop then Inr None else Inl ())))
       else throw (CAPIException ''accept4'' e))
     else bnd (sys_int os Fork) (\<lambda>pid.
       seq (ThrowCAPIExceptionIf (- 1 = pid) ''fork'')
       (if pid = 0 then bnd (serve os g keyfiles sockfd connection_fd) (\<lambda>r. ret (case r of None \<Rightarrow> Inl () | Some n \<Rightarrow> Inr (Some n)))
        else seq (sys_do (Close connection_fd)) (ret (Inl ())))))"

definition accept_loop :: "os \<Rightarrow> 'k glib \<Rightarrow> (string \<times> 'k) list \<Rightarrow> int \<Rightarrow> (mgr, int option) prog" where
  "accept_loop os g keyfiles sockfd = loop (\<lambda>_. accept_round os g keyfiles sockfd) ()"

text \<open>Lines 122 to 132, up to the configuration.\<close>

definition prepare :: "os \<Rightarrow> 'k glib \<Rightarrow> (mgr, (string \<times> 'k) list) prog" where
  "prepare os g = bnd (sys_int os (Host Daemonize)) (\<lambda>r.
     seq (ThrowCAPIExceptionIf (r \<noteq> 0) ''daemon error'')
     (bnd (sys_int os (Host Getpid)) (\<lambda>pid.
      seq (write_file os pidfile (to_string pid))
     (seq daemon_signal_register
     (seq (mount_tmpfs os tmpfs)
     (bnd (sys_int os (Open (c_str lockfile) [O_CLOEXEC, O_CREAT, O_TRUNC, O_RDWR])) (\<lambda>fd.
      seq (modify (\<lambda>s. s\<lparr>lockfd := fd\<rparr>))
     (seq (ThrowCAPIExceptionIf (- 1 = fd) ''open lockfile'') (Config os g)))))))))"

definition srund_main :: "os \<Rightarrow> 'k glib \<Rightarrow> (mgr, int) prog" where
  "srund_main os g = try_catch
     (bnd (prepare os g) (\<lambda>keyfiles. bnd (open_socket os) (\<lambda>sockfd.
      bnd (accept_loop os g keyfiles sockfd) (\<lambda>r. case r of
          Some n \<Rightarrow> ret n
        | None \<Rightarrow> seq (clear_resource os) (ret 0)))))
     (\<lambda>_. seq (clear_resource os) (ret (- 1)))"

end
