(* ===== verification/ManagerSafe.thy ===== *)
theory ManagerSafe
  imports Manager Trace
begin

text \<open>
  Safety of the manager's signals: a process is sent SIGTERM only while it is a child that was
  cloned and not yet reaped, or on a client's request when it is registered. The invariant couples
  \<^verbatim>\<open>child_status\<close> and \<^verbatim>\<open>clonepid\<close> with the record of calls, and every operation keeps it.
\<close>

section \<open>Contracts of the loops\<close>

lemma wait_child_unfold:
  "wait_child os = bnd (sys_waitpid os) (\<lambda>(pid, stat).
     if pid > 0 then seq (reaped pid stat) (wait_child os) else ret ())"
  by (rule ext) (subst wait_child.simps, rule refl)

lemma read_all_unfold:
  "read_all os data = bnd (get connection) (\<lambda>fd. bnd (sys_read os fd BUFSIZE) (\<lambda>r. case r of
       None \<Rightarrow> ret data
     | Some buffer \<Rightarrow> if buffer = [] then ret data else read_all os (data @ buffer)))"
  by (rule ext) (subst read_all.simps, rule refl)

lemma manager_loop_unfold:
  "manager_loop os g keyfiles = seq (iteration os g keyfiles) (manager_loop os g keyfiles)"
  by (rule ext) (subst manager_loop.simps, rule refl)

definition wait_step :: "os \<Rightarrow> (mgr, bool) prog" where
  "wait_step os = bnd (sys_waitpid os) (\<lambda>(pid, stat).
     if pid > 0 then seq (reaped pid stat) (ret True) else ret False)"

lemma wait_child_step:
  "bnd (sys_waitpid os) (\<lambda>(pid, stat). if pid > 0 then seq (reaped pid stat) loop else ret ()) =
   bnd (wait_step os) (\<lambda>more. if more then loop else ret ())"
  unfolding wait_step_def bnd_assoc
  by (intro arg_cong [of _ _ "bnd (sys_waitpid os)"] ext) (auto simp: seq_def bnd_assoc bnd_ret split: prod.split)

lemma obeys_wait_child:
  assumes "contract R" and "obeys R (wait_step os)"
  shows "obeys R (wait_child os)"
proof -
  have "wait_child os s = Some y \<Longrightarrow> obeys R (wait_step os) \<longrightarrow> R s (snd y)" for s y
  proof (erule wait_child.raw_induct [where P = "\<lambda>os s y. obeys R (wait_step os) \<longrightarrow> R s (snd y)", rotated], rule impI)
    fix loop :: "os \<Rightarrow> (mgr, unit) prog" and os s y
    assume ih: "\<And>os b y. loop os b = Some y \<Longrightarrow> obeys R (wait_step os) \<longrightarrow> R b (snd y)"
      and run: "bnd (sys_waitpid os) (\<lambda>(pid, stat). if pid > 0 then seq (reaped pid stat) (loop os) else ret ()) s = Some y"
      and step: "obeys R (wait_step os)"
    then have "obeys R (loop os)"
        using ih by (fastforce simp: obeys_def)
      then have "obeys R (bnd (wait_step os) (\<lambda>more. if more then loop os else ret ()))"
        using step by (intro contract.r_bnd [OF assms(1)]) (auto intro: contract.r_ret [OF assms(1)])
      then show "R s (snd y)"
        using run unfolding wait_child_step by (cases y) (auto simp: obeys_def)
  qed
  then show ?thesis
    using assms(2) by (fastforce simp: obeys_def)
qed

lemma obeys_read_all:
  assumes "contract R" and read: "\<And>fd. obeys R (sys_read os fd BUFSIZE)"
  shows "obeys R (read_all os data)"
proof -
  have "read_all os data s = Some y \<Longrightarrow> (\<forall>fd. obeys R (sys_read os fd BUFSIZE)) \<longrightarrow> R s (snd y)" for s y
  proof (erule read_all.raw_induct [where P = "\<lambda>os data s y. (\<forall>fd. obeys R (sys_read os fd BUFSIZE)) \<longrightarrow> R s (snd y)",
        rotated], rule impI)
    fix loop :: "os \<Rightarrow> string \<Rightarrow> (mgr, string) prog" and os data s y
    assume ih: "\<And>os data b y. loop os data b = Some y \<Longrightarrow> (\<forall>fd. obeys R (sys_read os fd BUFSIZE)) \<longrightarrow> R b (snd y)"
      and run: "bnd (get connection) (\<lambda>fd. bnd (sys_read os fd BUFSIZE) (\<lambda>r. case r of
           None \<Rightarrow> ret data
         | Some buffer \<Rightarrow> if buffer = [] then ret data else loop os (data @ buffer))) s = Some y"
      and read: "\<forall>fd. obeys R (sys_read os fd BUFSIZE)"
    then have loop: "obeys R (loop os d)" for d
        using ih by (fastforce simp: obeys_def)
      have "obeys R (bnd (get connection) (\<lambda>fd. bnd (sys_read os fd BUFSIZE) (\<lambda>r. case r of
           None \<Rightarrow> ret data
         | Some buffer \<Rightarrow> if buffer = [] then ret data else loop os (data @ buffer))))"
        using read loop
        by (intro contract.r_bnd [OF assms(1)] contract.r_get [OF assms(1)])
          (auto intro: contract.r_ret [OF assms(1)] split: option.split)
      then show "R s (snd y)"
        using run by (cases y) (auto simp: obeys_def)
  qed
  then show ?thesis
    using assms(2) by (fastforce simp: obeys_def)
qed

lemma obeys_manager_loop:
  assumes "contract R" and "obeys R (iteration os g keyfiles)"
  shows "obeys R (manager_loop os g keyfiles)"
proof -
  have "manager_loop os g keyfiles s = Some y \<Longrightarrow> obeys R (iteration os g keyfiles) \<longrightarrow> R s (snd y)" for s y
  proof (erule manager_loop.raw_induct [where P = "\<lambda>os g keyfiles s y. obeys R (iteration os g keyfiles) \<longrightarrow> R s (snd y)",
        rotated], rule impI)
    fix loop :: "os \<Rightarrow> 'a glib \<Rightarrow> (string \<times> 'a) list \<Rightarrow> (mgr, unit) prog" and os g keyfiles s y
    assume ih: "\<And>os g keyfiles b y. loop os g keyfiles b = Some y \<Longrightarrow> obeys R (iteration os g keyfiles) \<longrightarrow> R b (snd y)"
      and run: "seq (iteration os g keyfiles) (loop os g keyfiles) s = Some y"
      and it: "obeys R (iteration os g keyfiles)"
    then have "obeys R (loop os g keyfiles)"
        using ih by (fastforce simp: obeys_def)
      then have "obeys R (seq (iteration os g keyfiles) (loop os g keyfiles))"
        using it by (intro contract.r_seq [OF assms(1)])
      then show "R s (snd y)"
        using run by (cases y) (auto simp: obeys_def)
  qed
  then show ?thesis
    using assms(2) by (fastforce simp: obeys_def)
qed

section \<open>Steady operations\<close>

text \<open>The children that were cloned and have not been reaped.\<close>

fun live :: "event list \<Rightarrow> int set" where
  "live [] = {}"
| "live (e # h) = (case e of
      (Clone _, AInt n) \<Rightarrow> (if n > 0 then insert n (live h) else live h)
    | (WaitPid, AWait p _) \<Rightarrow> live h - {p}
    | _ \<Rightarrow> live h)"

definition plain :: "event \<Rightarrow> bool" where
  "plain e \<longleftrightarrow> (case fst e of Kill _ _ \<Rightarrow> False | WaitPid \<Rightarrow> False | Clone _ \<Rightarrow> False | _ \<Rightarrow> True)"

lemma live_plain: "plain e \<Longrightarrow> live (e # h) = live h"
  by (cases e; cases "fst e") (auto simp: plain_def)

lemma live_plain_append: "\<forall>e\<in>set es. plain e \<Longrightarrow> live (es @ h) = live h"
  by (induction es) (simp_all add: live_plain del: live.simps)

text \<open>A neutral event neither concerns a process nor writes or removes a file of one.\<close>

definition neutral :: "event \<Rightarrow> bool" where
  "neutral e \<longleftrightarrow> plain e \<and> (case fst e of
      Unlink _ \<Rightarrow> False | Rmdir _ \<Rightarrow> False | Fopen _ how \<Rightarrow> how = ''r'' | _ \<Rightarrow> True)"

text \<open>The files that belong to a child: its registration and those of its control group.\<close>

definition own_file :: "int \<Rightarrow> string \<Rightarrow> bool" where
  "own_file pid path \<longleftrightarrow> path = proc_file pid \<or> (\<exists>x. path = cgroup_leaf pid @ x)"

text \<open>
  An operation is steady when it emits only events of a class \<open>P\<close>, leaves the two variables of the
  child alone and does not forget that an answer was sent.
\<close>

definition steady :: "(event \<Rightarrow> bool) \<Rightarrow> mgr \<Rightarrow> mgr \<Rightarrow> bool" where
  "steady P s t \<longleftrightarrow> emits P s t \<and> clonepid t = clonepid s \<and> child_status t = child_status s \<and>
    (result_sendback s \<longrightarrow> result_sendback t)"

interpretation steadiness: recording "steady P" P for P
proof unfold_locales
  fix s t u :: mgr
  show "steady P s s"
    by (simp add: steady_def emission.R_refl)
  show "steady P s t \<Longrightarrow> steady P t u \<Longrightarrow> steady P s u"
    by (auto simp: steady_def intro: emission.R_trans)
  show "P e \<Longrightarrow> steady P s (s\<lparr>hist := e # hist s, errno := n\<rparr>)" for e n
    by (simp add: steady_def emits_one)
qed

lemma steady_mono: "obeys (steady P) m \<Longrightarrow> (\<And>e. P e \<Longrightarrow> Q e) \<Longrightarrow> obeys (steady Q) m"
  by (fastforce simp: obeys_def steady_def emits_def)

named_theorems still
named_theorems still_op

lemmas still_calls [still] = steadiness.r_calls

lemmas still_prims [still_op] = steadiness.r_sys [where P = neutral] steadiness.r_closefd [where P = neutral]

lemma still_modify [still, still_op]:
  "(\<And>s. hist (f s) = hist s \<and> clonepid (f s) = clonepid s \<and> child_status (f s) = child_status s \<and>
     (result_sendback s \<longrightarrow> result_sendback (f s))) \<Longrightarrow>
   obeys (steady P) (modify f)"
  by (auto intro!: obeysI simp: wp steady_def emits_same)

lemma neutral_simps [simp]:
  "neutral (Close fd, a)" "neutral (Flock l op, a)" "neutral (Getppid, a)" "neutral (Signals, a)"
  "neutral (Sigaction n, a)" "neutral (Pdeathsig n, a)" "neutral (Write fd d, a)" "neutral (Read fd k, a)"
  "neutral (TimerfdCreate, a)" "neutral (TimerfdSettime fd n, a)" "neutral (EpollCtl ep x fd, a)"
  "neutral (EpollWait ep k n, a)" "neutral (EpollCreate, a)" "neutral (Exists p, a)" "neutral (IsDirectory p, a)"
  "neutral (CreateDirectories p, a)" "neutral (ListDir p, a)" "neutral (LastWriteTime p, a)" "neutral (Sleep n, a)"
  "neutral (ShutdownProtobuf, a)"
  by (simp_all add: neutral_def plain_def)

lemma neutral_plain: "neutral e \<Longrightarrow> plain e"
  by (simp add: neutral_def)

lemma removal_plain [simp]: "plain (Unlink p, a)" "plain (Rmdir p, a)"
  by (simp_all add: plain_def)

lemma file_event_neutral: "file_event p ''r'' e \<Longrightarrow> neutral e"
  by (auto simp: file_event_def neutral_def plain_def split: call.splits)

lemma file_event_plain: "file_event p how e \<Longrightarrow> plain e"
  by (auto simp: file_event_def plain_def split: call.splits)

lemma output_event_neutral: "output_event e \<Longrightarrow> neutral e"
  by (auto simp: output_event_def neutral_def plain_def split: call.splits)

lemma still_read_file [still, still_op]: "obeys (steady neutral) (read_file os path)"
  by (rule steadiness.r_read_file, erule file_event_neutral)

lemma still_output:
  assumes "obeys (emits output_event) m"
  shows "obeys (steady neutral) (with_out m)" "obeys (steady neutral) (with_err m)"
proof -
  have "obeys (emits neutral) m"
    by (rule emits_mono [OF assms output_event_neutral])
  then show "obeys (steady neutral) (with_out m)" "obeys (steady neutral) (with_err m)"
    by (fastforce simp: obeys_def with_out_def with_err_def zoom_def view_out_def put_out_def
        view_err_def put_err_def steady_def emits_def split: option.splits)+
qed

lemma still_outputs [still, still_op]:
  "obeys (steady neutral) (with_out (load os m path backend))" "obeys (steady neutral) (with_err (load os m path backend))"
  "obeys (steady neutral) (with_out (bind os ep))" "obeys (steady neutral) (with_err (bind os ep))"
  "obeys (steady neutral) (with_out (receive os ep))" "obeys (steady neutral) (with_err (receive os ep))"
  "obeys (steady neutral) (with_out (dup os fd))" "obeys (steady neutral) (with_err (dup os fd))"
  "obeys (steady neutral) (with_out destroy)" "obeys (steady neutral) (with_err destroy)"
  by (rule still_output emit)+

lemma still_ops [still, still_op]:
  "obeys (steady neutral) args0" "obeys (steady neutral) close_connection" "obeys (steady neutral) close_epollfd"
  "obeys (steady neutral) close_timerfd" "obeys (steady neutral) signal_register"
  "obeys (steady neutral) (sigterm_handler os p)" "obeys (steady neutral) (exit_process n)"
  "obeys (steady neutral) (send_message os m)" "obeys (steady neutral) (set_timeout os)"
  "obeys (steady neutral) (is_command os path)" "obeys (steady neutral) (last_write_time os path)"
  "obeys (steady neutral) (read_all os data)"
  by (auto simp: args0_def close_connection_def close_epollfd_def close_timerfd_def signal_register_def
      sigterm_handler_def exit_process_def send_message_def set_timeout_def is_command_def
      last_write_time_def Let_def
      intro!: still obeys_read_all steadiness.contract_axioms split: list.split option.split)

lemma still_load_request [still, still_op]: "obeys (steady neutral) (load_request g keyfiles)"
  by (auto simp: obeys_def load_request_def steady_def emits_same split: option.splits)

lemma still_locked [still]:
  "(\<And>l op a. P (Flock l op, a)) \<Longrightarrow> obeys (steady P) body \<Longrightarrow> obeys (steady P) (locked op body)"
  by (auto simp: locked_def intro!: still)

lemma still_search_paths [still, still_op]: "obeys (steady neutral) (search_paths os cmd ps)"
  by (induction ps) (auto intro!: still)

lemma still_list_procs [still, still_op]: "obeys (steady neutral) (list_procs os ps acc)"
  by (induction ps arbitrary: acc) (auto intro!: still split: option.split)

lemma still_ops2 [still, still_op]:
  "obeys (steady neutral) (read_process_stop os)" "obeys (steady neutral) (send_response os r)"
  "obeys (steady neutral) (find_command os)" "obeys (steady neutral) (receive_list os)"
  "obeys (steady neutral) (check_client os)" "obeys (steady neutral) (manager_setup os fd)"
  by (auto simp: read_process_stop_def send_response_def find_command_def receive_list_def
      check_client_def manager_setup_def intro!: still split: list.split)

text \<open>Setting up a child's files writes nothing but its own.\<close>

definition start_child :: "os \<Rightarrow> string \<Rightarrow> (mgr, unit) prog" where
  "start_child os data = bnd (clone_child os) (\<lambda>pid.
     seq (limit_memory os pid) (locked LOCK_EX (write_file os (proc_file pid) data)))"

lemma launch_start_child:
  "launch os data = bnd (get request) (\<lambda>rq.
     seq (with_out (load os (rq_outmode rq) (rq_outfile rq) (rq_backend rq)))
     (seq (with_err (load os (rq_errmode rq) (rq_errfile rq) (rq_backend rq)))
     (seq (start_child os data)
     (bnd (get epollfd) (\<lambda>ep.
       seq (with_out (bind os ep))
       (seq (with_err (bind os ep))
       (seq (set_timeout os)
       (bnd (get (\<lambda>s. rq_backend (request s))) (\<lambda>backend.
        whenp backend (send_response os (response0\<lparr>rs_stat := NORMAL, rs_retval := 0\<rparr>)))))))))))"
  by (simp add: launch_def start_child_def seq_def bnd_assoc)

lemma still_own_files:
  assumes neutral: "\<And>e. neutral e \<Longrightarrow> P e"
    and own: "\<And>path e. own_file pid path \<Longrightarrow> file_event path ''w'' e \<Longrightarrow> P e"
  shows "obeys (steady P) (seq (limit_memory os pid) (locked LOCK_EX (write_file os (proc_file pid) data)))"
proof -
  have group: "obeys (steady P) (write_file os (cgroup_leaf pid @ x) d)" for x d
    by (rule steadiness.r_write_file, rule own [rotated], assumption) (auto simp: own_file_def)
  have reg: "obeys (steady P) (write_file os (proc_file pid) data)"
    by (rule steadiness.r_write_file, rule own [rotated], assumption) (simp add: own_file_def)
  have "obeys (steady P) (bnd args0 (\<lambda>_. ret ()))"
    by (rule steady_mono [where P = neutral, OF _ neutral]) (auto intro!: still)
  then show ?thesis
    unfolding limit_memory_def write_limits_def write_limit_def Let_def
    by (auto intro!: still group reg neutral)
qed

section \<open>Invariants of a manager\<close>

text \<open>
  What a predicate must satisfy to be an invariant of every run: neutral operations keep it, the two
  kinds of signals keep it, reaping one child keeps it, and cloning and setting up a child keeps
  it when no child is there. The rest of the program follows.
\<close>

locale manager_invariant =
  fixes os :: os and I :: "mgr \<Rightarrow> bool"
  assumes I_neutral: "steady neutral s t \<Longrightarrow> I s \<Longrightarrow> I t"
    and I_kill_child: "I s \<Longrightarrow> child_status s = PROC_RUNNING \<Longrightarrow>
      I (s\<lparr>hist := (Kill (clonepid s) SIGTERM, AUnit) # hist s\<rparr>)"
    and I_kill_found: "I s \<Longrightarrow> hist s = (Exists (proc_file p), ABool (Some True)) # h \<Longrightarrow>
      I (s\<lparr>hist := (Kill p SIGTERM, AUnit) # hist s\<rparr>)"
    and I_wait: "obeys (keeps I) (wait_step os)"
    and I_start: "clone_pids os \<Longrightarrow> I s \<Longrightarrow> clonepid s \<le> 0 \<Longrightarrow> wp (start_child os data) (\<lambda>_. I) (\<lambda>_. I) s"
begin

lemmas k_intros = contract.r_intros [OF contract_keeps [of I]]

lemma k_still: "obeys (steady neutral) m \<Longrightarrow> obeys (keeps I) m"
  by (auto simp: obeys_def keeps_def intro: I_neutral)

lemmas k_still_ops = still_op [THEN k_still]

lemma I_event: "I s \<Longrightarrow> neutral e \<Longrightarrow> I (s\<lparr>hist := e # hist s, errno := n\<rparr>)"
  by (rule I_neutral [rotated]) (auto simp: steady_def emits_one)

lemma I_event': "I s \<Longrightarrow> neutral e \<Longrightarrow> I (s\<lparr>hist := e # hist s\<rparr>)"
  by (rule I_neutral [rotated]) (auto simp: steady_def emits_one)

lemma k_stop_child: "obeys (keeps I) stop_child"
  by (rule obeys_keepsI) (auto simp: stop_child_def wp intro: I_kill_child)

lemma k_wait_child: "obeys (keeps I) (wait_child os)"
  by (rule obeys_wait_child [OF contract_keeps I_wait])

lemma k_locked: "obeys (keeps I) body \<Longrightarrow> obeys (keeps I) (locked op body)"
  unfolding locked_def by (intro k_intros) (auto intro!: k_still still)

text \<open>Up to the clone, nothing but neutral operations happens.\<close>

lemma free_bnd:
  assumes "I s" and "clonepid s \<le> 0" and "obeys (steady neutral) m"
    and "\<And>x t. I t \<Longrightarrow> clonepid t \<le> 0 \<Longrightarrow> wp (f x) (\<lambda>_. I) (\<lambda>_. I) t"
  shows "wp (bnd m f) (\<lambda>_. I) (\<lambda>_. I) s"
proof -
  have "I t" if "steady neutral s t" for t
    using that assms(1) by (rule I_neutral)
  then show ?thesis
    unfolding wp_bnd
    by (intro wp_mono [OF obeys_wp [OF assms(3)]]) (use assms(2,4) in \<open>auto simp: steady_def\<close>)
qed

lemma free_seq:
  "I s \<Longrightarrow> clonepid s \<le> 0 \<Longrightarrow> obeys (steady neutral) m \<Longrightarrow>
   (\<And>t. I t \<Longrightarrow> clonepid t \<le> 0 \<Longrightarrow> wp n (\<lambda>_. I) (\<lambda>_. I) t) \<Longrightarrow> wp (seq m n) (\<lambda>_. I) (\<lambda>_. I) s"
  unfolding seq_def by (rule free_bnd)

lemma free_wp: "I s \<Longrightarrow> obeys (steady neutral) m \<Longrightarrow> wp m (\<lambda>_. I) (\<lambda>_. I) s"
  by (rule obeys_keeps_wp [OF k_still])

lemma launch_keeps: "clone_pids os \<Longrightarrow> I s \<Longrightarrow> clonepid s \<le> 0 \<Longrightarrow> wp (launch os data) (\<lambda>_. I) (\<lambda>_. I) s"
  unfolding launch_start_child
proof (rule free_bnd, assumption+, rule still, rule free_seq, assumption+, rule still, rule free_seq, assumption+,
    rule still, unfold seq_def [of "start_child os data"] wp_bnd [of "start_child os data"],
    rule wp_mono [OF I_start], assumption+)
qed (rule free_wp, assumption, intro still)

lemma handle_request_keeps:
  assumes "clone_pids os"
  shows "obeys (keeps I) (handle_request os data)"
proof (rule obeys_keepsI)
  fix s
  assume s: "I s"
  show "wp (handle_request os data) (\<lambda>_. I) (\<lambda>_. I) s"
  proof (cases "clonepid s > 0")
    case True
    then show ?thesis
      using s by (simp add: handle_request_def wp)
  next
    case False
    then have "wp (bnd (get (\<lambda>s. rq_backend (request s))) (\<lambda>backend.
       seq (whenp backend (modify (\<lambda>s. s\<lparr>syn_timeout := - 1\<rparr>)))
       (bnd (find_command os) (\<lambda>found.
        if \<not> found then send_response os (response0\<lparr>rs_stat := BADARGS\<rparr>)
        else bnd args0 (\<lambda>_. launch os data))))) (\<lambda>_. I) (\<lambda>_. I) s"
      using s
      by (intro free_bnd free_seq) (auto intro!: still intro: free_wp free_bnd launch_keeps assms)
    then show ?thesis
      using False by (simp add: handle_request_def wp)
  qed
qed

lemma k_stop_proc: "obeys (keeps I) (stop_proc os proc)"
proof (rule obeys_keepsI)
  fix s
  assume s: "I s"
  let ?q = "Exists (proc_file (rp_pid proc))" and ?lock = "(Flock (lockfd s) LOCK_SH, AUnit)"
  have looked: "I (s\<lparr>hist := (?q, ABool b) # ?lock # hist s\<rparr>)" for b
    using I_event' [OF I_event' [OF s, of ?lock], of "(?q, ABool b)"] by simp
  have "I (s\<lparr>hist := (Flock (lockfd s) LOCK_UN, AUnit) # (?q, ABool b) # ?lock # hist s\<rparr>)" for b
    using I_event' [OF looked [of b], of "(Flock (lockfd s) LOCK_UN, AUnit)"] by simp
  moreover have killed: "I (s\<lparr>hist := (Kill (rp_pid proc) SIGTERM, AUnit) # (?q, ABool (Some True)) # ?lock # hist s\<rparr>)"
    using I_kill_found [OF looked [of "Some True"]] by simp
  moreover have "I (s\<lparr>hist := (Flock (lockfd s) LOCK_UN, AUnit) # (Kill (rp_pid proc) SIGTERM, AUnit) #
      (?q, ABool (Some True)) # ?lock # hist s\<rparr>)"
    using I_event' [OF killed, of "(Flock (lockfd s) LOCK_UN, AUnit)"] by simp
  ultimately show "wp (stop_proc os proc) (\<lambda>_. I) (\<lambda>_. I) s"
    by (auto simp: stop_proc_def locked_def wp split: option.split)
qed

lemma k_manager_destroy: "obeys (keeps I) (manager_destroy os)"
proof -
  have kill_then: "obeys (keeps I) (bnd (get child_status) (\<lambda>status.
      seq (whenp (status = PROC_RUNNING) (bnd (get clonepid) (\<lambda>pid. seq (sys_do (Kill pid SIGTERM)) m))) n))"
    if m: "obeys (keeps I) m" and n: "obeys (keeps I) n" for m n :: "(mgr, unit) prog"
  proof (rule obeys_keepsI)
    fix s
    assume s: "I s"
    have "wp m (\<lambda>_ t. wp n (\<lambda>_. I) (\<lambda>_. I) t) (\<lambda>_. I) t" if "I t" for t
      by (rule wp_mono [OF obeys_keeps_wp [OF m that]]) (auto intro: obeys_keeps_wp [OF n])
    then show "wp (bnd (get child_status) (\<lambda>status.
      seq (whenp (status = PROC_RUNNING) (bnd (get clonepid) (\<lambda>pid. seq (sys_do (Kill pid SIGTERM)) m))) n))
        (\<lambda>_. I) (\<lambda>_. I) s"
      using s by (auto simp: wp intro: obeys_keeps_wp [OF n] I_kill_child)
  qed
  show ?thesis
    unfolding manager_destroy_def
    by (rule kill_then) (auto intro!: k_intros k_wait_child k_still_ops)
qed

lemmas k_ops = k_intros k_stop_child k_wait_child k_manager_destroy k_stop_proc handle_request_keeps

lemma k_ops2:
  "obeys (keeps I) (receive_stop os procs)" "obeys (keeps I) connection_closed" "obeys (keeps I) timer_expired"
  by (auto simp: receive_stop_def connection_closed_def timer_expired_def intro!: k_ops intro!: k_still_ops)

lemma k_recv_message: "clone_pids os \<Longrightarrow> obeys (keeps I) (recv_message os g keyfiles)"
  by (auto simp: recv_message_def handle_message_def receive_exe_def intro!: k_ops k_ops2 intro!: k_still_ops
      split: option.split msgmethod.split)

lemma k_iteration: "clone_pids os \<Longrightarrow> obeys (keeps I) (iteration os g keyfiles)"
  by (auto simp: iteration_def deal_with_exit_def dispatch_def intro!: k_ops k_ops2 k_recv_message
      intro!: k_still_ops)

lemma k_manager_start: "clone_pids os \<Longrightarrow> obeys (keeps I) (manager_start os g keyfiles fd)"
  unfolding manager_start_def
  by (intro k_intros obeys_manager_loop contract_keeps k_iteration) (intro k_still still)

end

section \<open>Signals\<close>

text \<open>
  A signal is justified by the record before it: the target is a live child, or the call just
  before found the file under which a running process is registered.
\<close>

definition kill_ok :: "event \<Rightarrow> event list \<Rightarrow> bool" where
  "kill_ok e h \<longleftrightarrow> (case fst e of
      Kill p sig \<Rightarrow> sig = SIGTERM \<and>
        (p \<in> live h \<or> (case h of e' # _ \<Rightarrow> e' = (Exists (proc_file p), ABool (Some True)) | [] \<Rightarrow> False))
    | _ \<Rightarrow> True)"

definition coupled :: "mgr \<Rightarrow> bool" where
  "coupled s \<longleftrightarrow> (child_status s = PROC_RUNNING \<longrightarrow> clonepid s > 0 \<and> clonepid s \<in> live (hist s))"

definition sound :: "mgr \<Rightarrow> bool" where
  "sound s \<longleftrightarrow> all_events kill_ok (hist s) \<and> coupled s"

lemma plain_kill_ok: "plain e \<Longrightarrow> kill_ok e h"
  by (auto simp: plain_def kill_ok_def split: call.splits)

lemma steady_keeps_sound: "steady plain s t \<Longrightarrow> sound s \<Longrightarrow> sound t"
  by (auto simp: steady_def emits_def sound_def coupled_def all_events_append(2) plain_kill_ok live_plain_append)

lemma live_simps [simp]:
  "live ((Kill p n, a) # h) = live h" "live ((Exists q, a) # h) = live h"
  "live ((Flock l op, a) # h) = live h"
  by (simp_all add: live_plain neutral_plain del: live.simps) (simp add: live.simps)

lemma kill_ok_simps [simp]:
  "plain e \<Longrightarrow> kill_ok e h" "kill_ok (WaitPid, a) h" "kill_ok (Clone b, a) h"
  by (simp_all add: plain_kill_ok) (simp_all add: kill_ok_def)

lemma sound_wait_step: "obeys (keeps sound) (wait_step os)"
proof (rule obeys_keepsI)
  fix s
  assume s: "sound s"
  obtain pid stat where w: "wait_of os (hist s) = (pid, stat)"
    by (cases "wait_of os (hist s)")
  show "wp (wait_step os) (\<lambda>_. sound) (\<lambda>_. sound) s"
    using s w by (cases stat; cases "rq_args (request s)")
      (auto simp: wait_step_def reaped_def args0_def clear_clonepid_def wp sound_def coupled_def Let_def
        live_plain neutral_plain)
qed

lemma sound_start_child:
  assumes "clone_pids os" and "sound s" and "clonepid s \<le> 0"
  shows "wp (start_child os data) (\<lambda>_. sound) (\<lambda>_. sound) s"
proof -
  have "wp (clone_child os) (\<lambda>_. sound) (\<lambda>_. sound) s"
    using assms by (auto simp: clone_child_def wp sound_def coupled_def clone_pids_def kill_ok_def)
  then show ?thesis
    unfolding start_child_def wp_bnd
    by (rule wp_mono)
      (auto intro: obeys_keeps_wp steady_keeps_sound neutral_plain file_event_plain
        simp: keeps_def intro!: wp_mono [OF obeys_wp [OF still_own_files [where P = plain]]])
qed

interpretation soundness: manager_invariant os sound for os
proof unfold_locales
  show "steady neutral s t \<Longrightarrow> sound s \<Longrightarrow> sound t" for s t
    by (rule steady_keeps_sound) (auto simp: steady_def emits_def neutral_plain)
  show "sound s \<Longrightarrow> child_status s = PROC_RUNNING \<Longrightarrow>
      sound (s\<lparr>hist := (Kill (clonepid s) SIGTERM, AUnit) # hist s\<rparr>)" for s
    by (simp add: sound_def coupled_def kill_ok_def)
  show "sound s \<Longrightarrow> hist s = (Exists (proc_file p), ABool (Some True)) # h \<Longrightarrow>
      sound (s\<lparr>hist := (Kill p SIGTERM, AUnit) # hist s\<rparr>)" for s p h
    by (simp add: sound_def coupled_def kill_ok_def)
qed (rule sound_wait_step sound_start_child; assumption)+

text \<open>That an answer was sent is not forgotten either.\<close>

interpretation answering: manager_invariant os result_sendback for os
proof unfold_locales
  fix s :: mgr and data
  show "obeys (keeps result_sendback) (wait_step os)"
    by (rule obeys_keepsI, simp add: wait_step_def wp split: prod.split)
      (auto simp: reaped_def args0_def clear_clonepid_def wp Let_def split: wstatus.split list.split)
  assume "result_sendback s"
  then have "wp (clone_child os) (\<lambda>_. result_sendback) (\<lambda>_. result_sendback) s"
    by (auto simp: clone_child_def wp)
  then show "wp (start_child os data) (\<lambda>_. result_sendback) (\<lambda>_. result_sendback) s"
    unfolding start_child_def wp_bnd
    by (rule wp_mono)
      (auto intro!: wp_mono [OF obeys_wp [OF still_own_files [where P = "\<lambda>_. True"]]] simp: steady_def)
qed (simp_all add: steady_def)

lemma initial_sound: "all_events kill_ok h \<Longrightarrow> sound (initial h e stop lock)"
  by (simp add: initial_def sound_def coupled_def)

text \<open>
  C2: a manager signals nothing but its own. In every run of \<^verbatim>\<open>manager_start\<close>, however it ends
  (exit, exception, undefined behaviour), each \<^verbatim>\<open>kill\<close> it made is a SIGTERM either to a child it
  cloned and had not yet reaped at that moment, so to no recycled process number, or to a process
  whose registration file it had found present by the call just before; and while the child
  counts as running, \<^verbatim>\<open>clonepid\<close> is such a live child.
\<close>

theorem manager_kills_its_own:
  assumes "clone_pids os" and "all_events kill_ok h"
    and "manager_start os g keyfiles fd (initial h e stop lock) = Some (r, t)"
  shows "(\<forall>es p sig a h'. hist t = es @ (Kill p sig, a) # h' \<longrightarrow>
      sig = SIGTERM \<and> (p \<in> live h' \<or> (\<exists>h''. h' = (Exists (proc_file p), ABool (Some True)) # h''))) \<and>
    (child_status t = PROC_RUNNING \<longrightarrow> clonepid t > 0 \<and> clonepid t \<in> live (hist t))"
proof -
  have "sound t"
    using obeys_keepsD [OF soundness.k_manager_start [OF assms(1)] assms(3)] initial_sound [OF assms(2)] by blast
  then show ?thesis
    by (auto simp: sound_def coupled_def kill_ok_def dest!: all_eventsD split: list.splits)
qed

end
