(* ===== verification/ManagerFds.thy ===== *)
theory ManagerFds
  imports ManagerSafe
begin

text \<open>
  The descriptors of the manager: connection, epoll, timer and those of its two outputs. No close
  hits a descriptor that is not open or not the manager's own. A second command can make the
  manager forget descriptors of the first, so the contract is one-sided: what is not the manager's
  stays open, and may grow.
\<close>

section \<open>The contract\<close>

definition loose ::
  "int set \<Rightarrow> ('z sys_scheme \<Rightarrow> int list) \<Rightarrow> 'z sys_scheme \<Rightarrow> 'z sys_scheme \<Rightarrow> bool" where
  "loose inh vars s t \<longleftrightarrow> (fd_ok inh (vars s) (hist s) \<longrightarrow>
     fd_ok inh (vars t) (hist t) \<and> others inh (vars s) (hist s) \<subseteq> others inh (vars t) (hist t))"

lemma loose_contract: "contract (loose inh vars)"
  by unfold_locales (auto simp: loose_def)

lemma tidy_loose: "obeys (tidy inh vars) m \<Longrightarrow> obeys (loose inh vars) m"
  by (auto simp: obeys_def tidy_def loose_def)

lemma loose_quiet:
  "quiet e \<Longrightarrow> hist t = e # hist s \<Longrightarrow> vars t = vars s \<Longrightarrow> loose inh vars s t"
  by (simp add: loose_def quiet_fd_ok)

text \<open>Closing the descriptor of one variable, and opening one into a variable.\<close>

lemma held_append [simp]: "held (xs @ ys) = held xs \<union> held ys"
  by (auto simp: held_def)

lemma loose_close_var:
  assumes "vars s = xs @ x # ys" and "vars t = xs @ (- 1) # ys" and "x \<noteq> - 1"
    and "hist t = (Close x, a) # hist s"
  shows "loose inh vars s t"
  using assms by (auto simp: loose_def fd_ok_def others_def held_def)

lemma loose_open_var:
  assumes "vars s = xs @ x # ys" and "vars t = xs @ n # ys" and "hist t = (c, a) # hist s"
    and "\<forall>fd. c \<noteq> Close fd" and "opened_by (c, a) = {n} - {- 1}" and "n \<noteq> - 1 \<Longrightarrow> n \<notin> open_fds inh (hist s)"
  shows "loose inh vars s t"
proof -
  have opened: "open_fds inh (hist t) = open_fds inh (hist s) \<union> ({n} - {- 1})" "closes_ok inh (hist t) = closes_ok inh (hist s)"
    using assms(3-5) by (cases c; simp)+
  show ?thesis
    unfolding loose_def fd_ok_def others_def opened
    using assms(1,2,6) by (auto simp: held_def)
qed

section \<open>Outputs\<close>

interpretation olooseness: recording "loose inh ovars" quiet for inh
  by (intro recording.intro loose_contract recording_axioms.intro) (auto intro: loose_quiet simp: ovars_defs)

lemma loose_output_ops:
  "obeys (loose inh ovars) (receive os ep)" "obeys (loose inh ovars) destroy"
  "obeys (loose inh ovars) close_pipe1" "obeys (loose inh ovars) (fld f)"
  unfolding destroy_def
  by (rule tidy_loose, (intro tidy_receive tidiness.r_intros tidy_close tidy_fld)?)+

lemma loose_upd: "(\<And>s. ovars (s\<lparr>obj := f (obj s)\<rparr>) = ovars s) \<Longrightarrow> obeys (loose inh ovars) (upd f)"
  by (rule tidy_loose) (rule tidy_upd)

lemma loose_make_pipe:
  assumes "fresh_fds inh os"
  shows "obeys (loose inh ovars) (make_pipe os)"
proof (rule obeysI)
  fix s :: ost
  let ?a = "fst (pipe_of os (hist s))" and ?b = "snd (pipe_of os (hist s))" and ?n = "int_of os (hist s) Pipe"
  show "wp (make_pipe os) (\<lambda>_. loose inh ovars s) (\<lambda>_. loose inh ovars s) s"
  proof (cases "?n = - 1")
    case True
    then show ?thesis
      by (auto simp: make_pipe_def wp Let_def ovars_defs intro!: loose_quiet)
  next
    case False
    note fresh = fresh_pipe [OF assms False]
    have held: "redirect_fd (obj s) \<in> open_fds inh (hist s) \<or> redirect_fd (obj s) = - 1"
      if "fd_ok inh (ovars s) (hist s)"
      using that by (auto simp: fd_ok_def ovars_defs split: if_splits)
    show ?thesis
      using False fresh held
      by (auto simp: make_pipe_def wp Let_def loose_def fd_ok_def others_def ovars_defs opened_by_def)
  qed
qed

lemma loose_load: "fresh_fds inh os \<Longrightarrow> obeys (loose inh ovars) (load os m path backend)"
  by (auto simp: load_def ovars_defs quiet_def opened_by_def
      intro!: olooseness.r_calls loose_upd loose_make_pipe split: outmode.split)

lemma loose_bind:
  assumes "fresh_fds inh os"
  shows "obeys (loose inh ovars) (bind os ep)"
proof -
  have opens: "obeys (loose inh ovars) (bnd (sys_int os (Open p fl)) (\<lambda>fd.
      seq (upd (\<lambda>o'. o'\<lparr>redirect_fd := fd\<rparr>)) (ThrowCAPIExceptionIf (- 1 = fd) msg)))" for p fl msg
  proof (rule obeysI)
    fix s :: ost
    have fresh: "int_of os (hist s) (Open p fl) \<noteq> - 1 \<Longrightarrow> 0 \<le> int_of os (hist s) (Open p fl) \<and>
        int_of os (hist s) (Open p fl) \<notin> open_fds inh (hist s)"
      by (rule fresh_open [OF assms])
    show "wp (bnd (sys_int os (Open p fl)) (\<lambda>fd.
      seq (upd (\<lambda>o'. o'\<lparr>redirect_fd := fd\<rparr>)) (ThrowCAPIExceptionIf (- 1 = fd) msg)))
        (\<lambda>_. loose inh ovars s) (\<lambda>_. loose inh ovars s) s"
      using fresh
      by (auto simp: wp loose_def fd_ok_def others_def ovars_defs opened_by_def split: if_splits)
  qed
  show ?thesis
    unfolding bind_def
    by (auto intro!: olooseness.r_calls loose_output_ops opens loose_upd simp: ovars_defs quiet_def opened_by_def)
qed

section \<open>The manager\<close>

definition mvars :: "mgr \<Rightarrow> int list" where
  "mvars s = fds_of_output (out s) @ fds_of_output (err s) @ [connection s, epollfd s, timerfd s]"

lemma mvars_updates [simp]:
  "mvars (s\<lparr>hist := h\<rparr>) = mvars s" "mvars (s\<lparr>errno := n\<rparr>) = mvars s"
  "mvars (s\<lparr>clonepid := n\<rparr>) = mvars s" "mvars (s\<lparr>syn_timeout := n\<rparr>) = mvars s"
  "mvars (s\<lparr>is_syn := b\<rparr>) = mvars s" "mvars (s\<lparr>result_sendback := b\<rparr>) = mvars s"
  "mvars (s\<lparr>child_status := c\<rparr>) = mvars s" "mvars (s\<lparr>response := r\<rparr>) = mvars s"
  "mvars (s\<lparr>request := q\<rparr>) = mvars s" "mvars (s\<lparr>process_stop := b\<rparr>) = mvars s"
  by (simp_all add: mvars_def)

interpretation looseness: recording "loose inh mvars" quiet for inh
  by (intro recording.intro loose_contract recording_axioms.intro) (auto intro: loose_quiet simp: mvars_def)

lemma fd_ok_append:
  "fd_ok inh (xs @ ys) h \<longleftrightarrow>
     fd_ok inh xs h \<and> held ys \<subseteq> others inh xs h \<and> distinct (filter (\<lambda>x. x \<noteq> - 1) ys)"
  "others inh (xs @ ys) h = others inh xs h - held ys"
  by (auto simp: fd_ok_def others_def held_def)

lemma fd_ok_swap:
  "fd_ok inh (xs @ ys @ zs) h = fd_ok inh (ys @ xs @ zs) h"
  "others inh (xs @ ys @ zs) h = others inh (ys @ xs @ zs) h"
  by (auto simp: fd_ok_def others_def)

lemma loose_frame:
  assumes "loose inh ovars s t" and "fd_ok inh (ovars s @ E) (hist s)"
  shows "fd_ok inh (ovars t @ E) (hist t) \<and>
    others inh (ovars s @ E) (hist s) \<subseteq> others inh (ovars t @ E) (hist t)"
  using assms by (auto simp: loose_def fd_ok_append)

lemma loose_with:
  assumes "obeys (loose inh ovars) m"
  shows "obeys (loose inh mvars) (with_out m)" "obeys (loose inh mvars) (with_err m)"
proof -
  have out: "loose inh mvars s (put_out t s)" if "m (view_out s) = Some (r, t)" for s r t
    using loose_frame [OF obeysD [OF assms that],
        of "fds_of_output (err s) @ [connection s, epollfd s, timerfd s]"]
    by (simp add: loose_def mvars_def view_out_def put_out_def ovars_def)
  then show "obeys (loose inh mvars) (with_out m)"
    by (auto simp: obeys_def with_out_def zoom_def split: option.splits)
  have err: "loose inh mvars s (put_err t s)" if "m (view_err s) = Some (r, t)" for s r t
    using loose_frame [OF obeysD [OF assms that],
        of "fds_of_output (out s) @ [connection s, epollfd s, timerfd s]"]
    by (simp add: loose_def mvars_def view_err_def put_err_def ovars_def
        fd_ok_swap [of inh "fds_of_output (out s)"])
  then show "obeys (loose inh mvars) (with_err m)"
    by (auto simp: obeys_def with_err_def zoom_def split: option.splits)
qed

named_theorems fds

lemmas fds_calls [fds] = looseness.r_sys looseness.r_intros

lemma fds_modify [fds]:
  "(\<And>s. hist (f s) = hist s \<and> mvars (f s) = mvars s) \<Longrightarrow> obeys (loose inh mvars) (modify f)"
  by (auto intro!: obeysI simp: wp loose_def)

lemma fds_outputs [fds]:
  "fresh_fds inh os \<Longrightarrow> obeys (loose inh mvars) (with_out (load os m path backend))"
  "fresh_fds inh os \<Longrightarrow> obeys (loose inh mvars) (with_err (load os m path backend))"
  "fresh_fds inh os \<Longrightarrow> obeys (loose inh mvars) (with_out (bind os ep))"
  "fresh_fds inh os \<Longrightarrow> obeys (loose inh mvars) (with_err (bind os ep))"
  "obeys (loose inh mvars) (with_out (receive os ep))" "obeys (loose inh mvars) (with_err (receive os ep))"
  "obeys (loose inh mvars) (with_out destroy)" "obeys (loose inh mvars) (with_err destroy)"
  by (rule loose_with, (rule loose_load loose_bind loose_output_ops)?, assumption?)+

lemma mvars_split:
  "mvars s = (fds_of_output (out s) @ fds_of_output (err s)) @ connection s # [epollfd s, timerfd s]"
  "mvars s = (fds_of_output (out s) @ fds_of_output (err s) @ [connection s]) @ epollfd s # [timerfd s]"
  "mvars s = (fds_of_output (out s) @ fds_of_output (err s) @ [connection s, epollfd s]) @ timerfd s # []"
  by (simp_all add: mvars_def)

lemma fds_close_var:
  assumes "\<And>s. mvars s = xs s @ v s # ys s" and "\<And>s n h. mvars (set_v n (s\<lparr>hist := h\<rparr>)) = xs s @ n # ys s"
    and "\<And>s n. hist (set_v n s) = hist s" and "\<And>s. set_v (v s) s = s"
  shows "obeys (loose inh mvars) (bnd (get v) (\<lambda>fd. bnd (closefd fd) (\<lambda>n. modify (set_v n))))"
proof (rule obeysI)
  fix s
  have "v s = - 1 \<Longrightarrow> set_v (- 1) s = s"
    using assms(4) [of s] by simp
  moreover have "v s \<noteq> - 1 \<Longrightarrow> loose inh mvars s (set_v (- 1) (s\<lparr>hist := (Close (v s), AUnit) # hist s\<rparr>))"
    by (rule loose_close_var [where vars = mvars and xs = "xs s" and x = "v s" and ys = "ys s" and a = AUnit])
      (simp_all add: assms(1) [of s] assms(2,3))
  ultimately show "wp (bnd (get v) (\<lambda>fd. bnd (closefd fd) (\<lambda>n. modify (set_v n))))
      (\<lambda>_. loose inh mvars s) (\<lambda>_. loose inh mvars s) s"
    by (simp add: wp looseness.R_refl)
qed

lemma fds_close [fds]:
  "obeys (loose inh mvars) close_connection" "obeys (loose inh mvars) close_epollfd"
  "obeys (loose inh mvars) close_timerfd"
  unfolding close_connection_def close_epollfd_def close_timerfd_def
  by (rule fds_close_var [OF mvars_split(1)], simp_all add: mvars_def)
    (rule fds_close_var [OF mvars_split(2)], simp_all add: mvars_def,
     rule fds_close_var [OF mvars_split(3)], simp_all add: mvars_def)

lemma quiet_call_simps [simp]:
  "quiet (Flock l op, a)" "quiet (Unlink p, a)" "quiet (Rmdir p, a)" "quiet (Kill pid n, a)"
  "quiet (WaitPid, a)" "quiet (Clone b, a)" "quiet (Getppid, a)" "quiet (Signals, a)"
  "quiet (Sigaction n, a)" "quiet (Pdeathsig n, a)" "quiet (Write fd d, a)" "quiet (Read fd k, a)"
  "quiet (TimerfdSettime fd n, a)" "quiet (EpollWait fd k n, a)" "quiet (IsDirectory p, a)"
  "quiet (CreateDirectories p, a)" "quiet (ListDir p, a)" "quiet (LastWriteTime p, a)"
  "quiet (Sleep n, a)" "quiet (ShutdownProtobuf, a)"
  by (simp_all add: quiet_def opened_by_def)

lemma file_event_quiet: "file_event p how e \<Longrightarrow> quiet e"
  by (cases e; cases "fst e") (auto simp: file_event_def quiet_def opened_by_def)

lemma fds_files [fds]:
  "obeys (loose inh mvars) (write_file os path data)" "obeys (loose inh mvars) (read_file os path)"
  by (rule looseness.r_write_file looseness.r_read_file, erule file_event_quiet)+

text \<open>Opening a descriptor into a variable, at once.\<close>

lemma fds_open:
  fixes h :: "int \<Rightarrow> (mgr, 'a) prog"
  assumes "fresh_fds inh os" and "\<And>n. obeys (loose inh mvars) (h n)"
  shows "obeys (loose inh mvars) (bnd (sys_int os TimerfdCreate) (\<lambda>n. seq (modify (\<lambda>s. s\<lparr>timerfd := n\<rparr>)) (h n)))"
    and "obeys (loose inh mvars) (bnd (sys_int os EpollCreate) (\<lambda>n. seq (modify (\<lambda>s. s\<lparr>epollfd := n\<rparr>)) (h n)))"
proof -
  have after: "loose inh mvars s t \<Longrightarrow> wp (h n) (\<lambda>_. loose inh mvars s) (\<lambda>_. loose inh mvars s) t" for s t n
    by (rule wp_mono [OF obeys_wp [OF assms(2)]]) (erule (1) looseness.R_trans)+
  have timer: "loose inh mvars s (s\<lparr>hist := (TimerfdCreate, AInt n) # hist s, errno := e, timerfd := n\<rparr>)"
    if "n = int_of os (hist s) TimerfdCreate" for s n e
    using fresh_timer [OF assms(1), of "hist s"] that
    by (intro loose_open_var [OF mvars_split(3)]) (auto simp: mvars_def opened_by_def)
  have epoll: "loose inh mvars s (s\<lparr>hist := (EpollCreate, AInt n) # hist s, errno := e, epollfd := n\<rparr>)"
    if "n = int_of os (hist s) EpollCreate" for s n e
    using fresh_epoll [OF assms(1), of "hist s"] that
    by (intro loose_open_var [OF mvars_split(2)]) (auto simp: mvars_def opened_by_def)
  show "obeys (loose inh mvars) (bnd (sys_int os TimerfdCreate) (\<lambda>n. seq (modify (\<lambda>s. s\<lparr>timerfd := n\<rparr>)) (h n)))"
    by (auto intro!: obeysI after timer simp: wp)
  show "obeys (loose inh mvars) (bnd (sys_int os EpollCreate) (\<lambda>n. seq (modify (\<lambda>s. s\<lparr>epollfd := n\<rparr>)) (h n)))"
    by (auto intro!: obeysI after epoll simp: wp)
qed

lemma fds_locked [fds]: "obeys (loose inh mvars) body \<Longrightarrow> obeys (loose inh mvars) (locked op body)"
  by (auto simp: locked_def intro!: fds)

lemma fds_loops [fds]:
  "obeys (loose inh mvars) (search_paths os cmd ps)" "obeys (loose inh mvars) (list_procs os files acc)"
  "obeys (loose inh mvars) (load_request g keyfiles)" "obeys (loose inh mvars) (read_all os data)"
proof -
  show "obeys (loose inh mvars) (search_paths os cmd ps)"
    by (induction ps) (auto simp: is_command_def intro!: fds)
  show "obeys (loose inh mvars) (list_procs os files acc)"
    by (induction files arbitrary: acc) (auto simp: last_write_time_def intro!: fds split: option.split)
  show "obeys (loose inh mvars) (load_request g keyfiles)"
    by (auto simp: obeys_def load_request_def loose_def split: option.splits)
  show "obeys (loose inh mvars) (read_all os data)"
    by (rule obeys_read_all [OF loose_contract]) (auto intro!: fds)
qed

lemma fds_wait_child [fds]: "obeys (loose inh mvars) (wait_child os)"
  by (rule obeys_wait_child [OF loose_contract])
    (auto simp: wait_step_def reaped_def args0_def clear_clonepid_def Let_def
      intro!: fds split: wstatus.split list.split)

lemma fds_ops [fds]:
  "obeys (loose inh mvars) args0" "obeys (loose inh mvars) signal_register"
  "obeys (loose inh mvars) (sigterm_handler os p)" "obeys (loose inh mvars) (exit_process n)"
  "obeys (loose inh mvars) (send_message os m)" "obeys (loose inh mvars) (is_command os path)"
  "obeys (loose inh mvars) (limit_memory os pid)" "obeys (loose inh mvars) stop_child"
  "obeys (loose inh mvars) (clone_child os)" "obeys (loose inh mvars) (stop_proc os proc)"
  by (auto simp: args0_def signal_register_def sigterm_handler_def exit_process_def send_message_def
      is_command_def limit_memory_def write_limits_def write_limit_def stop_child_def clone_child_def stop_proc_def Let_def
      intro!: fds split: list.split option.split)

lemma fds_set_timeout [fds]: "fresh_fds inh os \<Longrightarrow> obeys (loose inh mvars) (set_timeout os)"
  unfolding set_timeout_def Let_def by (auto intro!: fds fds_open)

lemma fds_ops2 [fds]:
  "obeys (loose inh mvars) (read_process_stop os)" "obeys (loose inh mvars) (send_response os r)"
  "obeys (loose inh mvars) (find_command os)" "obeys (loose inh mvars) (receive_list os)"
  "obeys (loose inh mvars) (check_client os)" "obeys (loose inh mvars) (receive_stop os procs)"
  "obeys (loose inh mvars) connection_closed" "obeys (loose inh mvars) timer_expired"
  "obeys (loose inh mvars) (manager_destroy os)"
  by (auto simp: read_process_stop_def send_response_def find_command_def receive_list_def
      check_client_def receive_stop_def connection_closed_def timer_expired_def manager_destroy_def
      intro!: fds split: list.split)

lemma fds_handle_request [fds]: "fresh_fds inh os \<Longrightarrow> obeys (loose inh mvars) (handle_request os data)"
  by (auto simp: handle_request_def launch_def intro!: fds)

lemma fds_recv_message [fds]: "fresh_fds inh os \<Longrightarrow> obeys (loose inh mvars) (recv_message os g keyfiles)"
  by (auto simp: recv_message_def handle_message_def receive_exe_def intro!: fds
      split: option.split msgmethod.split)

lemma fds_iteration: "fresh_fds inh os \<Longrightarrow> obeys (loose inh mvars) (iteration os g keyfiles)"
  by (auto simp: iteration_def deal_with_exit_def dispatch_def intro!: fds)

lemma fds_after_connection:
  assumes "fresh_fds inh os" and "manager_start os g keyfiles fd s = Some (r, t)"
  shows "loose inh mvars (s\<lparr>connection := fd\<rparr>) t"
proof -
  define rest where "rest = seq (seq signal_register
     (bnd (sys_int os EpollCreate) (\<lambda>ep.
      seq (modify (\<lambda>s. s\<lparr>epollfd := ep\<rparr>))
      (seq (ThrowCAPIExceptionIf (- 1 = ep) ''epoll_create1'')
      (bnd (sys_int os (EpollCtl ep EPOLL_CTL_ADD fd)) (\<lambda>n.
       ThrowCAPIExceptionIf (- 1 = n) ''epoll_ctl'')))))) (manager_loop os g keyfiles)"
  have "obeys (loose inh mvars) rest"
    unfolding rest_def using assms(1)
    by (intro fds fds_open obeys_manager_loop loose_contract fds_iteration) simp_all
  moreover have "rest (s\<lparr>connection := fd\<rparr>) = Some (r, t)"
    using assms(2) by (simp add: manager_start_def manager_setup_def rest_def seq_def bnd_def modify_def)
  ultimately show ?thesis
    by (rule obeysD)
qed

text \<open>
  C6: the manager closes no descriptor but its own, and none twice. In every run of
  \<^verbatim>\<open>manager_start\<close> on an open connection, however it ends, every descriptor it closed was open, the
  descriptors the process had open besides the connection are still open, and the variables name
  distinct open descriptors outside them.
\<close>

theorem manager_closes_its_own:
  assumes "fresh_fds inh os" and "closes_ok inh h" and "fd \<in> open_fds inh h" and "fd \<noteq> - 1"
    and "manager_start os g keyfiles fd (initial h e stop lock) = Some (r, t)"
  shows "closes_ok inh (hist t) \<and> open_fds inh h - {fd} \<subseteq> open_fds inh (hist t) - held (mvars t) \<and>
    held (mvars t) \<subseteq> open_fds inh (hist t) \<and> distinct (filter (\<lambda>x. x \<noteq> - 1) (mvars t))"
  using fds_after_connection [OF assms(1,5)] assms(2-4)
  by (simp add: loose_def fd_ok_def others_def mvars_def fds_of_output_def initial_def Output_def)

end
