(* ===== verification/ManagerRequest.thy ===== *)
theory ManagerRequest
  imports ManagerSafe
begin

text \<open>
  What starting a command does: finding the program, setting the timer, writing the control group,
  and what the child does before it runs the command.
\<close>

section \<open>Finding the command\<close>

text \<open>The paths that are tried, in order.\<close>

definition candidates :: "string list \<Rightarrow> string list" where
  "candidates args = (case args of
      [] \<Rightarrow> []
    | cmd # _ \<Rightarrow> if cmd = [] then [] else if hd cmd = CHR ''/'' then [cmd] else map (\<lambda>p. p @ cmd) find_paths)"

definition accepted :: "string \<Rightarrow> event list \<Rightarrow> bool" where
  "accepted p es \<longleftrightarrow> es = [(IsDirectory p, ABool (Some False)), (Exists p, ABool (Some True))]"

definition refused :: "string \<Rightarrow> event list \<Rightarrow> bool" where
  "refused p es \<longleftrightarrow> es = [(Exists p, ABool (Some False))] \<or>
     es = [(IsDirectory p, ABool (Some True)), (Exists p, ABool (Some True))]"

text \<open>A stretch of the record in which each of the paths is refused in turn.\<close>

inductive all_refused :: "string list \<Rightarrow> event list \<Rightarrow> bool" where
  refused_none: "all_refused [] []"
| refused_more: "refused p es \<Longrightarrow> all_refused ps es' \<Longrightarrow> all_refused (p # ps) (es' @ es)"

inductive_simps all_refused_simps [simp]: "all_refused [] es" "all_refused (p # ps) es"

lemma is_command_wp:
  fixes s :: "'z sys_scheme"
  shows "wp (is_command os p)
    (\<lambda>found t. \<exists>es. t = s\<lparr>hist := es @ hist s\<rparr> \<and> (if found then accepted p es else refused p es))
    (\<lambda>a t. a = Raise filesystem_error) s"
proof -
  have "\<exists>es. s\<lparr>hist := (Exists p, ABool (Some False)) # hist s\<rparr> = s\<lparr>hist := es @ hist s\<rparr> \<and> refused p es"
    "\<exists>es. s\<lparr>hist := (IsDirectory p, ABool (Some True)) # (Exists p, ABool (Some True)) # hist s\<rparr> =
       s\<lparr>hist := es @ hist s\<rparr> \<and> refused p es"
    "\<exists>es. s\<lparr>hist := (IsDirectory p, ABool (Some False)) # (Exists p, ABool (Some True)) # hist s\<rparr> =
       s\<lparr>hist := es @ hist s\<rparr> \<and> accepted p es"
    by (rule exI [of _ "[_]"] exI [of _ "[_, _]"], simp add: refused_def accepted_def)+
  then show ?thesis
    by (simp add: is_command_def wp all_bool_eq split: option.split)
qed

text \<open>The result of a search among \<open>ps\<close>, as a relation between the states.\<close>

definition searched :: "string list \<Rightarrow> bool \<Rightarrow> mgr \<Rightarrow> mgr \<Rightarrow> bool" where
  "searched ps found s t \<longleftrightarrow>
     (if found then \<exists>before p after es es'. ps = before @ p # after \<and> all_refused before es \<and> accepted p es' \<and>
        t = s\<lparr>hist := es' @ es @ hist s, request := (request s)\<lparr>rq_args := (rq_args (request s))[0 := p]\<rparr>\<rparr>
      else \<exists>es. all_refused ps es \<and> t = s\<lparr>hist := es @ hist s\<rparr>)"

lemma searchedI:
  "ps = before @ p # after \<Longrightarrow> all_refused before es \<Longrightarrow> accepted p es' \<Longrightarrow>
     t = s\<lparr>hist := es' @ es @ hist s, request := (request s)\<lparr>rq_args := (rq_args (request s))[0 := p]\<rparr>\<rparr> \<Longrightarrow>
   searched ps True s t"
  "all_refused ps es \<Longrightarrow> t = s\<lparr>hist := es @ hist s\<rparr> \<Longrightarrow> searched ps False s t"
  unfolding searched_def by auto

lemma searched_first:
  assumes "accepted p es"
  shows "searched (p # ps) True s (s\<lparr>hist := es @ hist s, request := (request s)\<lparr>rq_args := (rq_args (request s))[0 := p]\<rparr>\<rparr>)"
  by (rule searchedI(1) [of _ "[]" p ps "[]" es]) (simp_all add: assms)

lemma searched_next:
  assumes "refused p es" and "searched ps found (s\<lparr>hist := es @ hist s\<rparr>) t"
  shows "searched (p # ps) found s t"
proof (cases found)
  case True
  then obtain before q after es1 es2 where *: "ps = before @ q # after" "all_refused before es1" "accepted q es2"
    "t = s\<lparr>hist := es2 @ es1 @ es @ hist s, request := (request s)\<lparr>rq_args := (rq_args (request s))[0 := q]\<rparr>\<rparr>"
    using assms(2) by (auto simp: searched_def)
  have "searched (p # ps) True s t"
    by (rule searchedI(1) [OF _ refused_more [OF assms(1) *(2)] *(3)]) (simp_all add: *)
  then show ?thesis
    using True by simp
next
  case False
  then obtain es' where "all_refused ps es'" "t = s\<lparr>hist := es' @ es @ hist s\<rparr>"
    using assms(2) by (auto simp: searched_def)
  then show ?thesis
    using False searchedI(2) [OF refused_more [OF assms(1)]] by simp
qed

lemma search_paths_wp:
  "wp (search_paths os cmd ps) (\<lambda>found t. searched (map (\<lambda>p. p @ cmd) ps) found s t)
     (\<lambda>a _. a = Raise filesystem_error) s"
proof (induction ps arbitrary: s)
  case (Cons p ps)
  have found: "searched ((p @ cmd) # map (\<lambda>p. p @ cmd) ps) True s
      (s\<lparr>hist := es @ hist s, request := (request s)\<lparr>rq_args := (rq_args (request s))[0 := p @ cmd]\<rparr>\<rparr>)"
    if "accepted (p @ cmd) es" for es
    using searched_first [OF that] by simp
  have more: "wp (search_paths os cmd ps) (\<lambda>found t. searched ((p @ cmd) # map (\<lambda>p. p @ cmd) ps) found s t)
      (\<lambda>a _. a = Raise filesystem_error) (s\<lparr>hist := es @ hist s\<rparr>)" if "refused (p @ cmd) es" for es
    by (rule wp_mono [OF Cons]) (simp_all add: searched_next [OF that])
  show ?case
    unfolding search_paths.simps wp_bnd
    by (rule wp_mono [OF is_command_wp]) (auto simp: wp split: if_splits intro: found more)
qed (simp add: wp searched_def)

lemma returns_find_command [returns]: "returns (is_command os p) s" "returns (search_paths os cmd ps) s'"
  "returns (find_command os) s''"
proof -
  show i: "returns (is_command os p) s" for p and s :: "'z sys_scheme"
    by (auto simp: is_command_def intro!: returns)
  show p: "returns (search_paths os cmd ps) s" for cmd ps s
    by (induction ps arbitrary: s) (auto intro!: returns i)
  show "returns (find_command os) s''"
    by (auto simp: find_command_def intro!: returns i p split: list.split)
qed

text \<open>
  C23: the command is looked for in order and the first hit is taken. The search always comes to an
  end. When it succeeds, the candidates before the hit were each refused (absent, or a directory),
  the hit was found present and no directory, and \<^verbatim>\<open>args(0)\<close> becomes the hit, nothing else of the
  state changing; when it fails, all candidates were refused and the request is as it was. It
  throws only what the file system throws.
\<close>

theorem find_command_first_hit:
  "(\<exists>found t. find_command os s = Some (Inr found, t) \<and>
      searched (candidates (rq_args (request s))) found s t) \<or>
   (\<exists>t. find_command os s = Some (Inl (Raise filesystem_error), t))"
proof -
  have absolute: "searched [cmd] True s (s\<lparr>hist := es @ hist s\<rparr>)"
    if "accepted cmd es" "rq_args (request s) = cmd # rest" for cmd es rest
  proof -
    have "(request s)\<lparr>rq_args := (rq_args (request s))[0 := cmd]\<rparr> = request s"
      using that(2) by simp
    then show ?thesis
      using searched_first [OF that(1), of "[]" s] by (cases s) simp
  qed
  have "wp (find_command os) (\<lambda>found t. searched (candidates (rq_args (request s))) found s t)
      (\<lambda>a _. a = Raise filesystem_error) s"
  proof (cases "rq_args (request s)")
    case Nil
    then show ?thesis
      by (simp add: find_command_def candidates_def wp searched_def)
  next
    case (Cons cmd rest)
    consider "cmd = []" | "cmd \<noteq> []" "hd cmd = CHR ''/''" | "cmd \<noteq> []" "hd cmd \<noteq> CHR ''/''"
      by blast
    then show ?thesis
    proof cases
      case 2
      have single: "searched [cmd] False s (s\<lparr>hist := es @ hist s\<rparr>)" if "refused cmd es" for es
        using refused_more [OF that refused_none] by (auto intro: searchedI(2))
      have "wp (is_command os cmd) (\<lambda>found t. searched [cmd] found s t) (\<lambda>a _. a = Raise filesystem_error) s"
        using single absolute [OF _ Cons]
        by (intro wp_mono [OF is_command_wp [of os cmd s]]) (elim exE conjE, case_tac x; simp)+
      then show ?thesis
        using Cons 2 by (simp add: find_command_def candidates_def wp)
    next
      case 3
      then show ?thesis
        using search_paths_wp [of os cmd find_paths s] Cons
        by (simp add: find_command_def candidates_def wp)
    qed (simp add: find_command_def candidates_def wp searched_def Cons)
  qed
  from wp_total [OF returns_find_command(3) this] show ?thesis
    by blast
qed

section \<open>The timer\<close>

definition effective_timeout :: "request \<Rightarrow> int" where
  "effective_timeout rq =
     (if rq_timeout rq = 0 then (if rq_backend rq then 7200 else 600) else rq_timeout rq)"

text \<open>
  The timer. A negative timeout sets none: nothing is called and nothing changes. Otherwise, when
  the operation ends normally, a new timer descriptor was created, armed with the timeout asked for
  (0 standing for ten minutes, or two hours in the background), added to the epoll set, and is
  \<^verbatim>\<open>timerfd\<close>; each failing call ends in the exception that names it.
\<close>

lemma set_timeout_outcome:
  assumes "rq_args (request s) \<noteq> []"
  shows "\<exists>r t. set_timeout os s = Some (r, t) \<and>
    (if rq_timeout (request s) < 0 then r = Inr () \<and> t = s
     else (case r of
        Inr _ \<Rightarrow> \<exists>fd m n. fd \<noteq> - 1 \<and> m \<noteq> - 1 \<and> n \<noteq> - 1 \<and> timerfd t = fd \<and>
          hist t = [(EpollCtl (epollfd s) EPOLL_CTL_ADD fd, AInt n),
            (TimerfdSettime fd (effective_timeout (request s)), AInt m), (TimerfdCreate, AInt fd)] @ hist s
      | Inl a \<Rightarrow> \<exists>what e. a = Raise (CAPIException what e) \<and> (case hist t of
          (TimerfdCreate, AInt fd) # _ \<Rightarrow> fd = - 1 \<and> what = ''timerfd_create''
        | (TimerfdSettime _ _, AInt m) # _ \<Rightarrow> m = - 1 \<and> what = ''timerfd_settime''
        | (EpollCtl _ _ _, AInt n) # _ \<Rightarrow> n = - 1 \<and> what = ''epoll_ctl''
        | _ \<Rightarrow> False)))"
proof -
  obtain a rest where args: "rq_args (request s) = a # rest"
    using assms by (cases "rq_args (request s)") auto
  have "returns (set_timeout os) s"
    by (auto simp: set_timeout_def args0_def Let_def intro!: returns split: list.split)
  moreover have "wp (set_timeout os)
      (\<lambda>_ t. if rq_timeout (request s) < 0 then t = s
         else \<exists>fd m n. fd \<noteq> - 1 \<and> m \<noteq> - 1 \<and> n \<noteq> - 1 \<and> timerfd t = fd \<and>
          hist t = [(EpollCtl (epollfd s) EPOLL_CTL_ADD fd, AInt n),
            (TimerfdSettime fd (effective_timeout (request s)), AInt m), (TimerfdCreate, AInt fd)] @ hist s)
      (\<lambda>a t. \<not> rq_timeout (request s) < 0 \<and> (\<exists>what e. a = Raise (CAPIException what e) \<and> (case hist t of
          (TimerfdCreate, AInt fd) # _ \<Rightarrow> fd = - 1 \<and> what = ''timerfd_create''
        | (TimerfdSettime _ _, AInt m) # _ \<Rightarrow> m = - 1 \<and> what = ''timerfd_settime''
        | (EpollCtl _ _ _, AInt n) # _ \<Rightarrow> n = - 1 \<and> what = ''epoll_ctl''
        | _ \<Rightarrow> False))) s"
    by (simp add: set_timeout_def args0_def args wp effective_timeout_def [symmetric] Let_def)
  ultimately show ?thesis
    by (auto dest: wp_total split: if_splits)
qed

section \<open>The control group\<close>

text \<open>The files a stretch of the record wrote whole, oldest first: path and data.\<close>

definition written_now :: "event \<Rightarrow> event list \<Rightarrow> (string \<times> string) list" where
  "written_now e h = (case fst e of
      Fwrite _ d \<Rightarrow> (case h of e' # _ \<Rightarrow> (case fst e' of Fopen p _ \<Rightarrow> [(p, d)] | _ \<Rightarrow> []) | [] \<Rightarrow> [])
    | _ \<Rightarrow> [])"

fun file_writes :: "event list \<Rightarrow> (string \<times> string) list" where
  "file_writes [] = []"
| "file_writes (e # h) = file_writes h @ written_now e h"

text \<open>What the request asks to be written for process \<open>pid\<close>; \<open>swap\<close> is whether swap is accounted.\<close>

definition limit_writes :: "request \<Rightarrow> int \<Rightarrow> bool \<Rightarrow> (string \<times> string) list" where
  "limit_writes rq pid swap = (let leaf = cgroup_leaf pid in
     (if rq_memlimit rq = [] then [(leaf @ ''/memory.limit_in_bytes'', ''100M'')]
      else if atoi (c_str (rq_memlimit rq)) > 0 then [(leaf @ ''/memory.limit_in_bytes'', rq_memlimit rq)]
      else []) @
     (if \<not> swap then []
      else if rq_memswlimit rq = [] then [(leaf @ ''/memory.memsw.limit_in_bytes'', ''1G'')]
      else if atoi (c_str (rq_memswlimit rq)) > 0 then [(leaf @ ''/memory.memsw.limit_in_bytes'', rq_memswlimit rq)]
      else []) @
     [(leaf @ ''/cgroup.procs'', to_string pid), (leaf @ ''/notify_on_release'', ''1'')])"

text \<open>A file operation as a step that adds one entry to the files written.\<close>

definition wrote :: "(string \<times> string) list \<Rightarrow> mgr \<Rightarrow> mgr \<Rightarrow> bool" where
  "wrote ws s t \<longleftrightarrow> (\<exists>es. hist t = es @ hist s \<and> request t = request s \<and>
     (\<forall>h. file_writes (es @ h) = file_writes h @ ws))"

lemma wrote_trans: "wrote ws s t \<Longrightarrow> wrote ws' t u \<Longrightarrow> wrote (ws @ ws') s u"
  unfolding wrote_def by (elim exE) (rule_tac x = "esa @ es" in exI, simp)

lemma wrote_refl: "wrote [] s s"
  by (simp add: wrote_def)

interpretation same_request: recording "\<lambda>s t. request t = request (s :: mgr)" "\<lambda>_. True"
  by unfold_locales auto

lemma write_file_wrote:
  assumes "c_str x = x"
  shows "wp (write_file os (cgroup_leaf pid @ x) d) (\<lambda>_. wrote [(cgroup_leaf pid @ x, d)] s) (\<lambda>a _. \<exists>e. a = Raise e) s"
proof -
  have "wp (write_file os (cgroup_leaf pid @ x) d)
      (\<lambda>_ t. (\<exists>stream. stream \<noteq> - 1 \<and> hist t = [(Fclose stream, AUnit), (Fwrite stream d, AInt (int (length d))),
          (Fopen (cgroup_leaf pid @ x) ''w'', AInt stream)] @ hist s) \<and> request t = request s)
      (\<lambda>a t. (\<exists>e. a = Raise e) \<and> request t = request s) s"
    unfolding wp_conj
    by (intro conjI wp_mono [OF write_file_events [of os "cgroup_leaf pid @ x" d s]]
        obeys_wp [OF same_request.r_write_file]) (auto simp: assms)
  then show ?thesis
    by (rule wp_mono) (auto simp: wrote_def written_now_def)
qed

lemma only_probe:
  "wp (sys_bool os c) (\<lambda>_. wrote [] s) (\<lambda>a _. \<exists>e. a = Raise e) s" if "\<And>st d. c \<noteq> Fwrite st d" "\<And>p how. c \<noteq> Fopen p how"
proof -
  have "file_writes ((c, a) # h) = file_writes h" for a h
    using that by (auto simp: written_now_def split: call.split)
  then show ?thesis
    by (auto simp: wp wrote_def intro: exI [of _ "[_]"] split: option.split)
qed

definition raised :: "abrupt \<Rightarrow> 's \<Rightarrow> bool" where
  "raised a t \<longleftrightarrow> (\<exists>e. a = Raise e)"

lemma raisedI [simp]: "raised (Raise e) t"
  by (simp add: raised_def)

text \<open>Steps that carry what has been written so far.\<close>

lemma write_step:
  assumes "wrote ws s t" and "c_str x = x" and "\<And>u. wrote (ws @ [(cgroup_leaf pid @ x, d)]) s u \<Longrightarrow> Q () u"
  shows "wp (write_file os (cgroup_leaf pid @ x) d) Q raised t"
  by (rule wp_mono [OF write_file_wrote [OF assms(2)]]) (auto simp: raised_def intro: assms(3) wrote_trans assms(1))

lemma probe_step:
  assumes "wrote ws s t" and "\<And>st d. c \<noteq> Fwrite st d" "\<And>p how. c \<noteq> Fopen p how"
    and "\<And>b u. wrote ws s u \<Longrightarrow> Q b u"
  shows "wp (sys_bool os c) Q raised t"
  using wrote_trans [OF assms(1), of "[]"]
  by (intro wp_mono [OF only_probe [OF assms(2,3)]]) (auto simp: raised_def intro: assms(4))

definition limit_entry :: "string \<Rightarrow> string \<Rightarrow> string \<Rightarrow> (string \<times> string) list" where
  "limit_entry path fallback lim =
     (if lim = [] then [(path, fallback)] else if atoi (c_str lim) > 0 then [(path, lim)] else [])"

lemma limit_step:
  assumes "wrote ws s t" and "c_str x = x"
    and "\<And>u. wrote (ws @ limit_entry (cgroup_leaf pid @ x) fallback lim) s u \<Longrightarrow> Q () u"
    and "wrote ws s t \<Longrightarrow> lim \<noteq> [] \<Longrightarrow> \<not> atoi (c_str lim) > 0 \<Longrightarrow> wp skip Q raised t"
  shows "wp (write_limit os (cgroup_leaf pid @ x) fallback lim skip) Q raised t"
  unfolding write_limit_def wp_if
  using assms(3,4) by (auto simp: limit_entry_def assms(1) intro!: write_step [OF assms(1,2)])

lemma limit_writes_entries:
  "limit_writes rq pid swap = (let leaf = cgroup_leaf pid in
     limit_entry (leaf @ ''/memory.limit_in_bytes'') ''100M'' (rq_memlimit rq) @
     (if swap then limit_entry (leaf @ ''/memory.memsw.limit_in_bytes'') ''1G'' (rq_memswlimit rq) else []) @
     [(leaf @ ''/cgroup.procs'', to_string pid), (leaf @ ''/notify_on_release'', ''1'')])"
  by (simp add: limit_writes_def limit_entry_def Let_def)

lemma procs_step:
  assumes "wrote ws s t"
    and "\<And>u. wrote (ws @ [(cgroup_leaf pid @ ''/cgroup.procs'', to_string pid), (cgroup_leaf pid @ ''/notify_on_release'', ''1'')]) s u \<Longrightarrow> Q () u"
  shows "wp (seq (write_file os (cgroup_leaf pid @ ''/cgroup.procs'') (to_string pid))
      (write_file os (cgroup_leaf pid @ ''/notify_on_release'') ''1'')) Q raised t"
  unfolding wp_seq
  by (rule write_step [OF assms(1)], simp add: c_str_def, rule write_step, assumption, simp add: c_str_def)
    (simp add: assms(2))

lemma swap_step:
  assumes "wrote ws s t"
    and "\<And>b u. wrote (ws @ (if b then limit_entry (cgroup_leaf pid @ ''/memory.memsw.limit_in_bytes'') ''1G'' lim else [])) s u \<Longrightarrow>
      wp rest Q raised u"
  shows "wp (seq (whenp swap (write_limit os (cgroup_leaf pid @ ''/memory.memsw.limit_in_bytes'') ''1G'' lim (ret ()))) rest)
      Q raised t"
  unfolding wp_seq wp_whenp
  using assms(2) [of False] assms(2) [of True]
  by (auto simp: assms(1) c_str_def wp limit_entry_def intro!: limit_step [OF assms(1)])

lemma write_limits_wp:
  assumes "rq_args (request s) \<noteq> []" and u: "wrote [] s u"
  shows "wp (write_limits os pid) (\<lambda>_ t. \<exists>swap. wrote (limit_writes (request s) pid swap) s t) raised u"
proof -
  have rq: "request u = request s"
    using u by (auto simp: wrote_def)
  let ?mem = "cgroup_leaf pid @ ''/memory.limit_in_bytes''"
    and ?swap = "cgroup_leaf pid @ ''/memory.memsw.limit_in_bytes''"
  let ?lim = "limit_entry ?mem ''100M'' (rq_memlimit (request s))"
  have limits: "wp (write_limit os ?mem ''100M'' (rq_memlimit (request s)) (bnd args0 (\<lambda>_. ret ()))) Q raised u"
    if "\<And>v. wrote ?lim s v \<Longrightarrow> Q () v" for Q
  proof (rule limit_step [OF u])
    assume "rq_memlimit (request s) \<noteq> []" "\<not> 0 < atoi (c_str (rq_memlimit (request s)))"
    then have "Q () u"
      using that u by (simp add: limit_entry_def)
    then show "wp (bnd args0 (\<lambda>_. ret ())) Q raised u"
      using assms(1) by (cases "rq_args (request s)") (auto simp: args0_def wp rq)
  qed (simp_all add: c_str_def that)
  show ?thesis
    unfolding write_limits_def Let_def wp_bnd [of "get request"] wp_get rq wp_seq [of "write_limit _ _ _ _ _"]
  proof (rule limits, unfold wp_bnd, rule probe_step, assumption, simp, simp, rule swap_step, assumption,
      rule procs_step, assumption, rule exI)
    fix b y
    assume "wrote ((?lim @ (if b then limit_entry ?swap ''1G'' (rq_memswlimit (request s)) else [])) @
      [(cgroup_leaf pid @ ''/cgroup.procs'', to_string pid), (cgroup_leaf pid @ ''/notify_on_release'', ''1'')]) s y"
    then show "wrote (limit_writes (request s) pid b) s y"
      by (simp add: limit_writes_entries Let_def)
  qed
qed

lemma limit_memory_wp:
  assumes "rq_args (request s) \<noteq> []"
  shows "wp (limit_memory os pid) (\<lambda>_ t. \<exists>swap. wrote (limit_writes (request s) pid swap) s t) raised s"
proof -
  have made: "wp (if there then ret True else sys_bool os (CreateDirectories (cgroup_leaf pid))) Q raised t"
    if "wrote [] s t" "\<And>b u. wrote [] s u \<Longrightarrow> Q b u" for there Q t
    using that by (auto simp: wp_ret intro: probe_step)
  show ?thesis
    unfolding limit_memory_def Let_def wp_bnd [of "sys_bool os (IsDirectory (cgroup_leaf pid))"]
    by (rule probe_step [OF wrote_refl], simp, simp, unfold wp_bnd [of "if _ then _ else _"], rule made, assumption)
      (simp add: wp_seq wp_ThrowIf write_limits_wp [OF assms])
qed

text \<open>
  C24: the memory of a command is limited before the command is put into its control group. When the
  set-up ends normally it has written exactly these files, in this order: the memory limit (100 MB
  when none is asked for, none when the text asked for is not a positive number), the limit with
  swap if the kernel has one (1 GB by default), then the process number into \<^verbatim>\<open>cgroup.procs\<close>, then the
  release flag. It ends otherwise only in an exception.
\<close>

theorem limit_memory_writes:
  assumes "rq_args (request s) \<noteq> []"
  shows "\<exists>r t es. limit_memory os pid s = Some (r, t) \<and>
     (case r of
        Inr _ \<Rightarrow> hist t = es @ hist s \<and>
          (\<exists>swap. file_writes (hist t) = file_writes (hist s) @ limit_writes (request s) pid swap)
      | Inl a \<Rightarrow> \<exists>e. a = Raise e)"
proof -
  have "returns (limit_memory os pid) s"
    by (auto simp: limit_memory_def write_limits_def write_limit_def args0_def Let_def intro!: returns split: list.split)
  from wp_total [OF this limit_memory_wp [OF assms]] show ?thesis
    by (auto simp: wrote_def raised_def)
qed

end
