(* ===== verification/ManagerMessages.thy ===== *)
theory ManagerMessages
  imports ManagerRequest
begin

text \<open>
  The messages of the manager: what is sent and what that says about the result, and what each
  kind of message received does.
\<close>

section \<open>Sending\<close>

text \<open>
  Sending a message is one \<^verbatim>\<open>write\<close> of its encoding to the connection. It succeeds exactly when
  the message has an encoding, a nonempty one, and the whole of it was written; then the result
  counts as sent unless the message is \<open>SYN\<close> or \<open>ACK\<close>; otherwise it throws and nothing but the record
  changes.
\<close>

lemma send_message_outcome:
  "\<exists>r t. send_message os m s = Some (r, t) \<and> (case serialize os m of
      None \<Rightarrow> r = Inl (Raise (runtime_error ''Message SerializeToString failed'')) \<and> t = s
    | Some data \<Rightarrow>
        if data = [] then r = Inl (Raise (runtime_error ''Message SerializeToString empty.'')) \<and> t = s
        else (\<exists>n. hist t = (Write (connection s) data, AInt n) # hist s \<and>
          (if cint n = cint (int (length data))
           then r = Inr () \<and> (result_sendback t \<longleftrightarrow> result_sendback s \<or> ms_method m \<notin> {SYN, ACK})
           else (\<exists>e. r = Inl (Raise (CAPIException ''SendMessage'' e))) \<and> result_sendback t = result_sendback s)))"
proof (cases "serialize os m")
  case (Some data)
  then show ?thesis
    by (auto simp: send_message_def seq_def bnd_def ThrowRuntimeIf_def ThrowCAPIExceptionIf_def ret_def throw_def halt_def
        get_def sys_int_def whenp_def modify_def Let_def)
qed (simp add: send_message_def throw_def halt_def)

text \<open>A message that goes out whole, as one step.\<close>

definition sent :: "os \<Rightarrow> message \<Rightarrow> mgr \<Rightarrow> mgr \<Rightarrow> bool" where
  "sent os m s t \<longleftrightarrow> (\<exists>data n. serialize os m = Some data \<and> data \<noteq> [] \<and>
     hist t = (Write (connection s) data, AInt n) # hist s \<and> request t = request s \<and> clonepid t = clonepid s \<and>
     child_status t = child_status s \<and> connection t = connection s)"

lemma send_message_sent: "wp (send_message os m) (\<lambda>_. sent os m s) (\<lambda>a _. \<exists>e. a = Raise e) s"
  by (auto simp: send_message_def wp sent_def split: option.split)

section \<open>SYN\<close>

text \<open>
  A \<open>SYN\<close> is answered by the same \<open>SYN\<close>, not by an \<open>ACK\<close>: the answer that is prepared is not the
  one that is sent. What the manager writes on a \<open>SYN\<close> decodes, at the other end, to a \<open>SYN\<close>.
\<close>

lemma syn_is_echoed:
  assumes "codec_ok os" and "ms_method m = SYN"
    and "handle_message os g keyfiles m data s = Some (Inr (), t)"
  shows "\<exists>answer n. hist t = (Write (connection s) answer, AInt n) # hist s \<and> parse os answer = Some m \<and>
    (\<forall>m'. ms_method m' = ACK \<longrightarrow> parse os answer \<noteq> Some m')"
proof -
  have "send_message os m s = Some (Inr (), t)"
    using assms(2,3) by (simp add: handle_message_def)
  then have "sent os m s t"
    by (rule wpD [OF send_message_sent])
  then show ?thesis
    using assms(1,2) by (auto simp: sent_def codec_ok_def)
qed

section \<open>EXE\<close>

lemma handle_request_busy: "clonepid s > 0 \<Longrightarrow> handle_request os data s = Some (Inr (), s)"
  by (simp add: handle_request_def bnd_def get_def ret_def)

text \<open>
  C19: while a command runs, a second \<open>EXE\<close> starts nothing, but it has already replaced the request of
  the running one: nothing is called, the child stays, and \<^verbatim>\<open>request\<close> is the new one, as completed from
  the configuration. Later decisions (whether a lost client stops the command, the log line of a
  killed child) are then taken on the wrong request; with an empty one, reaping the killed child is
  undefined behaviour.
\<close>

theorem second_exe_overwrites:
  assumes "clonepid s > 0" and "loadRequest g keyfiles (the_request m) = Some (b, rq)"
  shows "receive_exe os g keyfiles m data s = Some (Inr (), s\<lparr>request := rq\<rparr>) \<and>
    (rq_args rq = [] \<longrightarrow> (\<forall>u. clonepid u = clonepid s \<and> request u = rq \<longrightarrow>
       (\<exists>t. reaped (clonepid s) (Signaled n) u = Some (Inl Undefined, t))))"
proof (intro conjI impI allI)
  show "receive_exe os g keyfiles m data s = Some (Inr (), s\<lparr>request := rq\<rparr>)"
    using assms by (simp add: receive_exe_def seq_def bnd_def modify_def load_request_def handle_request_busy)
next
  fix u :: mgr
  assume "rq_args rq = []" and u: "clonepid u = clonepid s \<and> request u = rq"
  then show "\<exists>t. reaped (clonepid s) (Signaled n) u = Some (Inl Undefined, t)"
    by (simp add: reaped_def bnd_def seq_def get_def whenp_def modify_def args0_def halt_def)
qed

text \<open>
  C22: a request whose command is not found is refused: no process is created and no output opened;
  the answer on the connection decodes to an \<open>EXE\<close> message whose response is \<open>BADARGS\<close>.
\<close>

theorem unknown_command_is_refused:
  assumes "codec_ok os" and "\<not> clonepid s > 0"
    and "find_command os (if rq_backend (request s) then s\<lparr>syn_timeout := - 1\<rparr> else s) = Some (Inr False, u)"
    and "handle_request os data s = Some (Inr (), t)"
  shows "\<exists>answer n es m. hist t = (Write (connection u) answer, AInt n) # es @ hist s \<and>
    (\<forall>e\<in>set es. case fst e of Exists _ \<Rightarrow> True | IsDirectory _ \<Rightarrow> True | _ \<Rightarrow> False) \<and>
    parse os answer = Some m \<and> ms_method m = EXE \<and> rs_stat (the_response m) = BADARGS \<and>
    clonepid t = clonepid u \<and> child_status t = child_status u"
proof -
  let ?s = "if rq_backend (request s) then s\<lparr>syn_timeout := - 1\<rparr> else s"
  let ?m = "message0\<lparr>ms_method := EXE, ms_response := Some (response0\<lparr>rs_stat := BADARGS\<rparr>)\<rparr>"
  have "send_message os ?m u = Some (Inr (), t)"
    using assms(2-4)
    by (auto simp: handle_request_def bnd_def seq_def get_def whenp_def modify_def ret_def send_response_def split: if_splits)
  then have sent: "sent os ?m u t"
    by (rule wpD [OF send_message_sent])
  have only: "all_refused ps es \<Longrightarrow> \<forall>e\<in>set es. case fst e of Exists _ \<Rightarrow> True | IsDirectory _ \<Rightarrow> True | _ \<Rightarrow> False" for ps es
    by (induction rule: all_refused.induct) (auto simp: refused_def)
  have "searched (candidates (rq_args (request ?s))) False ?s u"
    using find_command_first_hit [of os ?s] assms(3) by auto
  then obtain es where "all_refused (candidates (rq_args (request ?s))) es" "hist u = es @ hist s"
    by (auto simp: searched_def split: if_splits)
  with sent assms(1) only show ?thesis
    by (fastforce simp: sent_def codec_ok_def the_response_def)
qed

theorem second_exe_overwrites_witness:
  "receive_exe calm one_group [] (message0\<lparr>ms_request := Some request0\<rparr>) ''m'' ((initial [] 0 False 9)\<lparr>clonepid := 7\<rparr>)
     = Some (Inr (), (initial [] 0 False 9)\<lparr>clonepid := 7, request := request0\<rparr>)"
  using second_exe_overwrites [where s = "(initial [] 0 False 9)\<lparr>clonepid := 7\<rparr>" and g = one_group and keyfiles = "[]"
      and m = "message0\<lparr>ms_request := Some request0\<rparr>" and b = True and rq = request0 and os = calm and data = "''m''"]
  by (simp add: initial_def loadRequest_def the_request_def request0_def)

section \<open>LIST\<close>

text \<open>An entry of the reply: the process, and the request of the message registered for it.\<close>

definition listed :: "os \<Rightarrow> int \<Rightarrow> runproc \<Rightarrow> bool" where
  "listed os pid p \<longleftrightarrow> rp_pid p = pid \<and>
     (\<exists>u v d m. read_file os (proc_file pid) (u :: mgr) = Some (Inr d, v) \<and> parse os d = Some m \<and>
        rp_request p = Some (the_request m))"

lemma list_procs_listed:
  assumes "\<And>pid. stem_of os (proc_file pid) = to_string pid" and "\<forall>pid\<in>set pids. int32 pid"
  shows "wp (list_procs os (map proc_file pids) acc)
    (\<lambda>procs _. \<exists>new. procs = acc @ new \<and> list_all2 (listed os) pids new) (\<lambda>_ _. True) s"
  using assms(2)
proof (induction pids arbitrary: acc s)
  case (Cons pid pids acc s)
  have number: "atoi (c_str (to_string pid)) = pid"
    using Cons.prems by (simp add: c_str_id to_string_no_nul pid_names.read_back)
  have entry: "listed os pid \<lparr>rp_pid = atoi (c_str (stem_of os (proc_file pid))), rp_since = since,
      rp_request = Some (the_request m)\<rparr>"
    if "read_file os (proc_file pid) (u :: mgr) = Some (Inr d, v)" "parse os d = Some m" for u v d m since
    using that by (auto simp: listed_def assms(1) number)
  have rest: "wp (list_procs os (map proc_file pids) (acc @ [p]))
      (\<lambda>procs _. \<exists>new. procs = acc @ new \<and> list_all2 (listed os) (pid # pids) new) (\<lambda>_ _. True) v"
    if "listed os pid p" for p v
    by (rule wp_mono [OF Cons.IH]) (use Cons.prems that in auto)
  have read: "wp (read_file os (proc_file pid)) (\<lambda>d v. read_file os (proc_file pid) s = Some (Inr d, v)) (\<lambda>_ _. True) s"
    by (rule wpI) simp_all
  show ?case
    by (simp add: wp, rule wp_mono [OF read])
      (auto simp: wp last_write_time_def intro: rest entry split: option.split)
qed (simp add: wp)

definition same_front :: "mgr \<Rightarrow> mgr \<Rightarrow> bool" where
  "same_front s t \<longleftrightarrow> connection t = connection s \<and> request t = request s"

interpretation fronts: recording same_front "\<lambda>_. True"
  by unfold_locales (auto simp: same_front_def)

lemma list_procs_front: "obeys same_front (list_procs os ps acc)"
  by (induction ps arbitrary: acc)
    (auto simp: last_write_time_def intro!: fronts.r_calls fronts.r_read_file split: option.split)

text \<open>
  C20: \<open>LIST\<close> reports what is registered. When the directory holds the registrations of the processes
  \<open>pids\<close>, the answer on the connection decodes to a \<open>LIST\<close> message with exactly these process numbers,
  in the order of the directory, each read back from the name of its file, and with each the request
  of the message stored in that file. As a side effect the own request stops being a background one.
\<close>

theorem list_reports_registrations:
  assumes "codec_ok os" and "\<forall>pid. stem_of os (proc_file pid) = to_string pid" and "\<forall>pid\<in>set pids. int32 pid"
    and "names_of os ((Flock (lockfd s) LOCK_SH, AUnit) # hist s) (ListDir tmpfs) = Some (map proc_file pids)"
    and "receive_list os s = Some (Inr (), t)"
  shows "\<exists>answer n h m. hist t = (Write (connection s) answer, AInt n) # h \<and> parse os answer = Some m \<and>
    ms_method m = LIST \<and> list_all2 (listed os) pids (ms_runlist m) \<and> \<not> rq_backend (request t)"
proof -
  define replied where "replied t \<longleftrightarrow> (\<exists>answer n h m. hist t = (Write (connection s) answer, AInt n) # h \<and>
    parse os answer = Some m \<and> ms_method m = LIST \<and> list_all2 (listed os) pids (ms_runlist m) \<and>
    \<not> rq_backend (request t))" for t :: mgr
  let ?s = "s\<lparr>request := (request s)\<lparr>rq_backend := False\<rparr>\<rparr>"
  have send: "wp (send_message os (message0\<lparr>ms_method := LIST, ms_runlist := procs\<rparr>)) (\<lambda>_. replied) (\<lambda>_ _. True) u"
    if "list_all2 (listed os) pids procs" "connection u = connection s" "\<not> rq_backend (request u)" for procs u
    by (rule wp_mono [OF send_message_sent])
      (use that assms(1) in \<open>auto simp: sent_def codec_ok_def replied_def\<close>)
  have procs: "wp (list_procs os (map proc_file pids) [])
      (\<lambda>procs u. list_all2 (listed os) pids procs \<and> same_front v u) (\<lambda>_ _. True) v" for v
  proof -
    have "wp (list_procs os (map proc_file pids) [])
      (\<lambda>procs u. (\<exists>new. procs = [] @ new \<and> list_all2 (listed os) pids new) \<and> same_front v u)
      (\<lambda>_ u. True \<and> same_front v u) v"
      unfolding wp_conj using assms(2,3) by (intro conjI list_procs_listed obeys_wp [OF list_procs_front]) simp_all
    then show ?thesis
      by (rule wp_mono) auto
  qed
  have "wp (receive_list os) (\<lambda>_. replied) (\<lambda>_ _. True) s"
    using assms(4)
    by (auto simp: receive_list_def locked_def wp_seq wp_modify wp_bnd wp_try_catch wp_get wp_sys_do wp_sys_names wp_ret wp_throw
        intro!: wp_mono [OF procs] send split: abrupt.split simp: same_front_def)
  from wpD [OF this assms(5)] show ?thesis
    by (simp add: replied_def)
qed

section \<open>STOP\<close>

text \<open>What stopping one process adds to the record; \<open>there\<close> is whether it was registered.\<close>

definition stop_events :: "int \<Rightarrow> int \<Rightarrow> bool \<Rightarrow> event list" where
  "stop_events L pid there = (Flock L LOCK_UN, AUnit) # (if there then [(Kill pid SIGTERM, AUnit)] else []) @
     [(Exists (proc_file pid), ABool (Some there)), (Flock L LOCK_SH, AUnit)]"

definition stopped :: "int \<Rightarrow> runproc list \<Rightarrow> mgr \<Rightarrow> mgr \<Rightarrow> bool" where
  "stopped L procs s t \<longleftrightarrow> (\<exists>found. length found = length procs \<and>
     t = s\<lparr>hist := concat (rev (map2 (stop_events L) (map rp_pid procs) found)) @ hist s\<rparr>)"

lemma stop_proc_wp:
  "wp (stop_proc os p) (\<lambda>_. stopped (lockfd s) [p] s) (\<lambda>a _. a = Raise std_exception) s"
proof -
  have one: "stopped (lockfd s) [p] s (s\<lparr>hist := stop_events (lockfd s) (rp_pid p) there @ hist s\<rparr>)" for there
    unfolding stopped_def by (intro exI [of _ "[there]"]) simp
  show ?thesis
    using one [of True] one [of False]
    by (auto simp: stop_proc_def locked_def wp stop_events_def split: option.split)
qed

lemma stop_procs_wp:
  "wp (for_each procs (stop_proc os)) (\<lambda>_. stopped (lockfd s) procs s) (\<lambda>a _. a = Raise std_exception) s"
proof (induction procs arbitrary: s)
  case (Cons p procs s)
  have "stopped (lockfd s) (p # procs) s u" if "stopped (lockfd s) [p] s t" "stopped (lockfd t) procs t u" for t u
  proof -
    from that(1) obtain b where t: "t = s\<lparr>hist := stop_events (lockfd s) (rp_pid p) b @ hist s\<rparr>"
      by (auto simp: stopped_def length_Suc_conv)
    with that(2) obtain found where "length found = length procs"
      "u = t\<lparr>hist := concat (rev (map2 (stop_events (lockfd s)) (map rp_pid procs) found)) @ hist t\<rparr>"
      by (auto simp: stopped_def)
    then show ?thesis
      unfolding stopped_def using t by (intro exI [of _ "b # found"]) simp
  qed
  then show ?case
    by (simp add: wp, intro wp_mono [OF stop_proc_wp] wp_mono [OF Cons.IH]) auto
qed (simp add: wp stopped_def)

lemma receive_stop_sends:
  "wp (receive_stop os procs) (\<lambda>_ t. \<exists>u. stopped (lockfd s) procs s u \<and> sent os (message0\<lparr>ms_method := STOP\<rparr>) u t) (\<lambda>_ _. True) s"
  unfolding receive_stop_def wp_seq
  by (rule wp_mono [OF stop_procs_wp]) (auto intro!: wp_mono [OF send_message_sent])


section \<open>A client that is gone\<close>

text \<open>
  When the client closes the connection, the manager stops asking whether it is alive, takes the
  descriptor out of the epoll set and closes it; it stops the command exactly if one is running, it
  is not a background command and no result was sent.
\<close>

lemma connection_closed_outcome:
  "\<exists>t. connection_closed s = Some (Inr (), t) \<and> connection t = - 1 \<and> syn_timeout t = - 1 \<and>
    hist t = (if child_status s = PROC_RUNNING \<and> \<not> rq_backend (request s) \<and> \<not> result_sendback s
         then [(Kill (clonepid s) SIGTERM, AUnit)] else []) @
       (if connection s = - 1 then [] else [(Close (connection s), AUnit)]) @
       (EpollCtl (epollfd s) EPOLL_CTL_DEL (connection s), AUnit) # hist s"
proof -
  have "returns connection_closed s"
    by (auto simp: connection_closed_def close_connection_def stop_child_def intro!: returns)
  moreover have "wp connection_closed (\<lambda>_ t. connection t = - 1 \<and> syn_timeout t = - 1 \<and>
    hist t = (if child_status s = PROC_RUNNING \<and> \<not> rq_backend (request s) \<and> \<not> result_sendback s
         then [(Kill (clonepid s) SIGTERM, AUnit)] else []) @
       (if connection s = - 1 then [] else [(Close (connection s), AUnit)]) @
       (EpollCtl (epollfd s) EPOLL_CTL_DEL (connection s), AUnit) # hist s) (\<lambda>_ _. False) s"
    by (simp add: connection_closed_def close_connection_def stop_child_def wp)
  ultimately show ?thesis
    by (rule wp_total_normal [THEN exE]) auto
qed

end
