(* ===== verification/ManagerLoop.thy ===== *)
theory ManagerLoop
  imports ManagerMessages
begin

text \<open>
  The waiting and the event loop: that reaping ends and reports the child's status, what happens to
  the status of a command that is stopped by its timer, when the manager answers, when it leaves.
\<close>

section \<open>Reaping\<close>

text \<open>Children born and reaped in a record.\<close>

definition is_birth :: "event \<Rightarrow> bool" where
  "is_birth e \<longleftrightarrow> (case e of (Clone _, AInt n) \<Rightarrow> n > 0 | _ \<Rightarrow> False)"

definition is_reap :: "event \<Rightarrow> bool" where
  "is_reap e \<longleftrightarrow> (case e of (WaitPid, AWait p _) \<Rightarrow> p > 0 | _ \<Rightarrow> False)"

definition births :: "event list \<Rightarrow> nat" where
  "births h = length (filter is_birth h)"

definition reaps :: "event list \<Rightarrow> nat" where
  "reaps h = length (filter is_reap h)"

text \<open>
  What \<^verbatim>\<open>waitpid\<close> promises: it delivers no more processes than there are children, those cloned and
  \<open>k\<close> inherited ones.
\<close>

definition child_bound :: "nat \<Rightarrow> os \<Rightarrow> bool" where
  "child_bound k os \<longleftrightarrow> (\<forall>h. fst (wait_of os h) > 0 \<longrightarrow> reaps h < k + births h)"

definition to_reap :: "nat \<Rightarrow> mgr \<Rightarrow> nat" where
  "to_reap k s = k + births (hist s) - reaps (hist s)"

text \<open>The status \<^verbatim>\<open>waitpid\<close> delivered for a process in a stretch of the record; the oldest counts.\<close>

fun status_in :: "int \<Rightarrow> event list \<Rightarrow> wstatus option" where
  "status_in p [] = None"
| "status_in p (e # es) = (case status_in p es of
      Some st \<Rightarrow> Some st
    | None \<Rightarrow> (case e of (WaitPid, AWait q st) \<Rightarrow> if q = p then Some st else None | _ \<Rightarrow> None))"

lemma status_in_append:
  "status_in p (es @ es') = (case status_in p es' of Some st \<Rightarrow> Some st | None \<Rightarrow> status_in p es)"
  by (induction es) (auto split: option.split)

definition response_for :: "wstatus \<Rightarrow> response \<Rightarrow> response" where
  "response_for st r = (case st of
      Exited n \<Rightarrow> r\<lparr>rs_stat := NORMAL, rs_retval := n\<rparr>
    | _ \<Rightarrow> r\<lparr>rs_stat := ABNORMAL\<rparr>)"

text \<open>What waiting leaves.\<close>

definition after_wait :: "event list \<Rightarrow> mgr \<Rightarrow> mgr \<Rightarrow> bool" where
  "after_wait es s t \<longleftrightarrow>
     (case (if clonepid s > 0 then status_in (clonepid s) es else None) of
        None \<Rightarrow> clonepid t = clonepid s \<and> child_status t = child_status s \<and> response t = response s
      | Some st \<Rightarrow> clonepid t = 0 \<and> child_status t = PROC_EXIT \<and> response t = response_for st (response s) \<and>
          (Unlink (proc_file (clonepid s)), AUnit) \<in> set es)"

definition waited :: "mgr \<Rightarrow> mgr \<Rightarrow> bool" where
  "waited s t \<longleftrightarrow> (\<exists>es. hist t = es @ hist s \<and> request t = request s \<and> after_wait es s t)"

lemma reaped_other:
  "clonepid s \<noteq> pid \<Longrightarrow> wp (reaped pid stat) Q E s = Q () s"
  by (simp add: reaped_def wp)

lemma reaped_own:
  assumes "clonepid s = pid" and "pid > 0" and "rq_args (request s) \<noteq> []"
  shows "wp (reaped pid stat) (\<lambda>_ t. clonepid t = 0 \<and> child_status t = PROC_EXIT \<and> request t = request s \<and>
     response t = response_for stat (response s) \<and>
     hist t = [(Rmdir (c_str (cgroup_leaf pid)), AUnit), (Flock (lockfd s) LOCK_UN, AUnit),
       (Unlink (proc_file pid), AUnit), (Flock (lockfd s) LOCK_EX, AUnit)] @ hist s) (\<lambda>_ _. False) s"
  using assms by (cases stat; cases "rq_args (request s)")
    (simp_all add: reaped_def clear_clonepid_def args0_def Let_def wp response_for_def)

lemma to_reap_less:
  assumes "child_bound k os" and "wait_of os h = (pid, stat)" and "pid > 0"
    and "hist s = h" and "hist u = es @ (WaitPid, AWait pid stat) # h" and "\<forall>e\<in>set es. \<not> is_birth e \<and> \<not> is_reap e"
  shows "to_reap k u < to_reap k s"
proof -
  have "reaps h < k + births h"
    using assms(1-3) by (auto simp: child_bound_def)
  moreover have "filter is_birth es = []" "filter is_reap es = []"
    using assms(6) by (auto simp: filter_empty_conv)
  ultimately show ?thesis
    using assms(3-5) by (simp add: to_reap_def births_def reaps_def is_birth_def is_reap_def)
qed

text \<open>One reaped process more.\<close>

lemma waited_other:
  assumes "clonepid s \<noteq> q" and "waited (s\<lparr>hist := (WaitPid, AWait q st) # hist s\<rparr>) t"
  shows "waited s t"
proof -
  obtain es where es: "hist t = es @ (WaitPid, AWait q st) # hist s" "request t = request s"
    "after_wait es (s\<lparr>hist := (WaitPid, AWait q st) # hist s\<rparr>) t"
    using assms(2) by (auto simp: waited_def)
  have "status_in (clonepid s) (es @ [(WaitPid, AWait q st)]) = status_in (clonepid s) es"
    using assms(1) by (simp add: status_in_append)
  then have "after_wait (es @ [(WaitPid, AWait q st)]) s t"
    using es(3) by (auto simp: after_wait_def split: option.splits if_splits)
  then show ?thesis
    unfolding waited_def using es by (intro exI [of _ "es @ [(WaitPid, AWait q st)]"]) simp
qed

lemma waited_own:
  assumes "clonepid s > 0" and "hist u = es' @ (WaitPid, AWait (clonepid s) st) # hist s"
    and "(Unlink (proc_file (clonepid s)), AUnit) \<in> set es'"
    and u: "clonepid u = 0" "child_status u = PROC_EXIT" "request u = request s" "response u = response_for st (response s)"
    and "waited u t"
  shows "waited s t"
proof -
  obtain es where es: "hist t = es @ hist u" "request t = request u" "after_wait es u t"
    using assms(8) by (auto simp: waited_def)
  have "status_in (clonepid s) (es @ es' @ [(WaitPid, AWait (clonepid s) st)]) = Some st"
    by (simp add: status_in_append)
  then have "after_wait (es @ es' @ [(WaitPid, AWait (clonepid s) st)]) s t"
    using es(3) assms(1,3) u by (simp add: after_wait_def)
  then show ?thesis
    unfolding waited_def using es assms(2) u
    by (intro exI [of _ "es @ es' @ [(WaitPid, AWait (clonepid s) st)]"]) simp
qed

lemma waited_refl: "waited s s"
  unfolding waited_def after_wait_def by (intro exI [of _ "[]"]) (simp split: option.split)

lemma waited_end: "waited s (s\<lparr>hist := (WaitPid, AWait q st) # hist s\<rparr>)" if "q \<le> 0"
  unfolding waited_def after_wait_def using that by (intro exI [of _ "[(WaitPid, AWait q st)]"]) simp

lemma wait_child_steps:
  assumes "wait_of os (hist s) = (pid, stat)"
  shows "pid \<le> 0 \<Longrightarrow> wait_child os s = Some (Inr (), s\<lparr>hist := (WaitPid, AWait pid stat) # hist s\<rparr>)"
    and "pid > 0 \<Longrightarrow> reaped pid stat (s\<lparr>hist := (WaitPid, AWait pid stat) # hist s\<rparr>) = Some (Inr (), u) \<Longrightarrow>
      wait_child os s = wait_child os u"
  using assms
  by (subst wait_child_unfold, simp add: bnd_def seq_def sys_waitpid_def Let_def ret_def)+

lemma returns_reaped [returns]: "returns (reaped pid stat) s"
  by (auto simp: reaped_def clear_clonepid_def args0_def Let_def intro!: returns split: wstatus.split list.split)

lemma wait_child_waits:
  assumes "child_bound k os"
  shows "rq_args (request s) \<noteq> [] \<Longrightarrow> \<exists>t. wait_child os s = Some (Inr (), t) \<and> waited s t"
proof (induction "to_reap k s" arbitrary: s rule: less_induct)
  case less
  obtain pid stat where w: "wait_of os (hist s) = (pid, stat)"
    by (cases "wait_of os (hist s)")
  let ?u = "s\<lparr>hist := (WaitPid, AWait pid stat) # hist s\<rparr>"
  consider "pid \<le> 0" | "pid > 0" "clonepid s \<noteq> pid" | "pid > 0" "clonepid s = pid"
    by linarith
  then show ?case
  proof cases
    case 1
    then show ?thesis
      using wait_child_steps(1) [OF w] waited_end by blast
  next
    case 2
    have run: "reaped pid stat ?u = Some (Inr (), ?u)"
      using 2 by (simp add: reaped_def bnd_def get_def whenp_def ret_def)
    have "to_reap k ?u < to_reap k s"
      by (rule to_reap_less [OF assms w 2(1) refl, of _ "[]"]) simp_all
    then obtain t where "wait_child os ?u = Some (Inr (), t)" "waited ?u t"
      using less.hyps [of ?u] less.prems by auto
    then show ?thesis
      using wait_child_steps(2) [OF w 2(1) run] waited_other [OF 2(2)] by auto
  next
    case 3
    have "wp (reaped pid stat) (\<lambda>_ t. clonepid t = 0 \<and> child_status t = PROC_EXIT \<and> request t = request ?u \<and>
       response t = response_for stat (response ?u) \<and>
       hist t = [(Rmdir (c_str (cgroup_leaf pid)), AUnit), (Flock (lockfd ?u) LOCK_UN, AUnit),
         (Unlink (proc_file pid), AUnit), (Flock (lockfd ?u) LOCK_EX, AUnit)] @ hist ?u) (\<lambda>_ _. False) ?u"
      using 3 less.prems by (intro reaped_own) simp_all
    from wp_total_normal [OF returns_reaped this] obtain v where run: "reaped pid stat ?u = Some (Inr (), v)"
      and v: "clonepid v = 0" "child_status v = PROC_EXIT" "request v = request s" "response v = response_for stat (response s)"
      "hist v = [(Rmdir (c_str (cgroup_leaf pid)), AUnit), (Flock (lockfd s) LOCK_UN, AUnit),
         (Unlink (proc_file pid), AUnit), (Flock (lockfd s) LOCK_EX, AUnit)] @ (WaitPid, AWait pid stat) # hist s"
      by auto
    have "to_reap k v < to_reap k s"
      by (rule to_reap_less [OF assms w 3(1) refl v(5)]) (simp add: is_birth_def is_reap_def)
    then obtain t where t: "wait_child os v = Some (Inr (), t)" "waited v t"
      using less.hyps [of v] less.prems v(3) by auto
    have "waited s t"
      by (rule waited_own [OF _ _ _ v(1-3) v(4) t(2)]) (use 3 v(5) in \<open>auto\<close>)
    then show ?thesis
      using wait_child_steps(2) [OF w 3(1) run] t(1) by auto
  qed
qed


section \<open>The timer and the status\<close>


section \<open>Answering and leaving\<close>

lemma returns_read_process_stop [returns]: "returns (read_process_stop os) s"
  by (auto simp: read_process_stop_def sigterm_handler_def intro!: returns)

definition result_message :: "mgr \<Rightarrow> message" where
  "result_message u = message0\<lparr>ms_method := EXE,
     ms_response := Some ((response u)\<lparr>rs_outstr := str (out u), rs_errstr := str (err u)\<rparr>)\<rparr>"

lemma result_sent:
  assumes "exec_over s" and "connection s \<noteq> - 1" and "read_process_stop os s = Some (Inr False, u)"
    and "\<not> result_sendback u" and "deal_with_exit os s = Some (Inr (), t)"
  shows "sent os (result_message u) u t \<and> result_sendback t"
proof -
  have send: "send_message os (result_message u) u = Some (Inr (), t)"
    using assms by (simp add: deal_with_exit_def bnd_def get_def whenp_def send_response_def result_message_def)
  then have "result_sendback t"
    using wpD [of "send_message os (result_message u)" "\<lambda>_ t. result_sendback t" "\<lambda>_ _. True" u]
    by (auto simp: send_message_def result_message_def wp split: option.split)
  with wpD [OF send_message_sent send] show ?thesis
    by blast
qed

text \<open>Rounds of the loop that end normally, whatever they receive and start.\<close>

inductive rounds :: "os \<Rightarrow> 'k glib \<Rightarrow> (string \<times> 'k) list \<Rightarrow> mgr \<Rightarrow> mgr \<Rightarrow> bool" for os g keyfiles where
  no_round: "rounds os g keyfiles s s"
| one_more: "rounds os g keyfiles s t \<Longrightarrow> iteration os g keyfiles t = Some (Inr (), u) \<Longrightarrow> rounds os g keyfiles s u"

lemma rounds_keep_answered:
  "rounds os g keyfiles s t \<Longrightarrow> clone_pids os \<Longrightarrow> result_sendback s \<Longrightarrow> result_sendback t"
  by (induction rule: rounds.induct) (auto dest: obeys_keepsD [OF answering.k_iteration])

lemma answered_before:
  assumes "result_sendback s" and "exec_over s" and "connection s \<noteq> - 1"
    and "read_process_stop os s = Some (Inr False, u)" and "deal_with_exit os s = Some (Inr (), t)"
  shows "t = u"
proof -
  have "result_sendback u"
    using obeysD [OF still_ops2(1) assms(4)] assms(1) by (simp add: steady_def)
  then show ?thesis
    using assms by (simp add: deal_with_exit_def bnd_def get_def whenp_def ret_def)
qed


text \<open>All that the manager holds is closed.\<close>

definition all_closed :: "mgr \<Rightarrow> bool" where
  "all_closed t \<longleftrightarrow> connection t = - 1 \<and> epollfd t = - 1 \<and> timerfd t = - 1 \<and>
     pipefd0 (out t) = - 1 \<and> pipefd1 (out t) = - 1 \<and> redirect_fd (out t) = - 1 \<and>
     pipefd0 (err t) = - 1 \<and> pipefd1 (err t) = - 1 \<and> redirect_fd (err t) = - 1"

text \<open>Closing without a case distinction on what is open.\<close>

lemma wp_closefd_flat:
  "wp (closefd fd) Q E s = Q (- 1) (s\<lparr>hist := (if fd = - 1 then [] else [(Close fd, AUnit)]) @ hist s\<rparr>)"
  by (cases s) (simp add: wp)

lemma leave:
  assumes "child_status s \<noteq> PROC_RUNNING"
  shows "\<exists>t. seq (manager_destroy os) (exit_process 0 :: (mgr, unit) prog) s = Some (Inl (Exit 0), t) \<and> all_closed t"
proof -
  have "returns (seq (manager_destroy os) (exit_process 0 :: (mgr, unit) prog)) s"
    using assms
    by (auto simp: manager_destroy_def close_connection_def close_epollfd_def close_timerfd_def exit_process_def
        with_out_def with_err_def destroy_def close_pipe0_def close_pipe1_def close_redirect_def fld_def upd_def bnd_def get_def
        intro!: returns)
  moreover have "wp (seq (manager_destroy os) (exit_process 0 :: (mgr, unit) prog)) (\<lambda>_ _. False) (\<lambda>a t. a = Exit 0 \<and> all_closed t) s"
    using assms
    by (simp add: manager_destroy_def close_connection_def close_epollfd_def close_timerfd_def exit_process_def
        with_out_def with_err_def destroy_def close_pipe0_def close_pipe1_def close_redirect_def wp wp_closefd_flat
        all_closed_def view_out_def view_err_def put_out_def put_err_def del: wp_closefd)
  ultimately show ?thesis
    by (auto dest: wp_total)
qed


section \<open>A round returns\<close>

lemma reaped_emits: "obeys (emits (\<lambda>e. \<not> is_birth e \<and> \<not> is_reap e)) (reaped pid stat)"
  by (auto simp: reaped_def clear_clonepid_def args0_def Let_def is_birth_def is_reap_def
      intro!: emit emit_modify split: wstatus.split list.split)

lemma returns_wait_child:
  assumes "child_bound k os"
  shows "returns (wait_child os) s"
proof (induction "to_reap k s" arbitrary: s rule: less_induct)
  case less
  obtain pid stat where w: "wait_of os (hist s) = (pid, stat)"
    by (cases "wait_of os (hist s)")
  let ?u = "s\<lparr>hist := (WaitPid, AWait pid stat) # hist s\<rparr>"
  have "returns (wait_child os) v" if "pid > 0" and run: "reaped pid stat ?u = Some (Inr (), v)" for v
  proof -
    obtain es where "hist v = es @ (WaitPid, AWait pid stat) # hist s" "\<forall>e\<in>set es. \<not> is_birth e \<and> \<not> is_reap e"
      using obeysD [OF reaped_emits run] by (auto simp: emits_def)
    then have "to_reap k v < to_reap k s"
      by (rule to_reap_less [OF assms w that(1) refl])
    then show ?thesis
      by (rule less)
  qed
  then show ?case
    using w by (subst wait_child_unfold) (auto intro!: returns simp: sys_waitpid_def Let_def split: prod.split)
qed

lemma returns_read_all:
  assumes "input_bound n os"
  shows "returns (read_all os data) s"
proof (induction "n - length (filter is_input (hist s))" arbitrary: data s rule: less_induct)
  case less
  let ?c = "Read (connection s) BUFSIZE"
  have "returns (read_all os (data @ b)) u"
    if "bytes_of os (hist s) ?c = Some b'" "b = take BUFSIZE b'" "b \<noteq> []" "hist u = (?c, ABytes (Some b)) # hist s" for b b' u
  proof (rule less)
    have "length (filter is_input (hist s)) < n"
      using assms that by (auto simp: input_bound_def)
    then show "n - length (filter is_input (hist u)) < n - length (filter is_input (hist s))"
      using that(3,4) by (simp add: is_input_def)
  qed
  then show ?case
    by (subst read_all_unfold) (auto intro!: returns simp: get_def sys_read_def Let_def split: option.splits)
qed

lemma returns_file_parts [returns]:
  "returns (list_procs os ps acc) s" "returns (locked op m) s" if "\<And>u. returns m u" for m :: "(mgr, 'a) prog"
proof -
  show "returns (list_procs os ps acc) s"
    by (induction ps arbitrary: acc s) (auto simp: last_write_time_def intro!: returns split: option.split)
  show "returns (locked op m) s"
    using that by (auto simp: locked_def intro!: returns)
qed

lemma returns_ops [returns]:
  "returns (send_message os m) s" "returns (set_timeout os) s" "returns args0 s" "returns stop_child s"
  "returns (limit_memory os pid) s" "returns (clone_child os) s" "returns close_connection s"
  "returns close_epollfd s" "returns close_timerfd s" "returns (exit_process n :: (mgr, unit) prog) s"
  by (auto simp: send_message_def set_timeout_def args0_def stop_child_def limit_memory_def write_limits_def
      write_limit_def clone_child_def close_connection_def close_epollfd_def close_timerfd_def exit_process_def Let_def
      intro!: returns split: option.split list.split)

lemma returns_handle_request [returns]: "returns (handle_request os data) s"
  by (auto simp: handle_request_def launch_def send_response_def intro!: returns)

lemma returns_load_request:
  "(\<And>rq. loadRequest g keyfiles rq \<noteq> None) \<Longrightarrow> returns (load_request g keyfiles) s"
  using option.exhaust by (fastforce simp: returns_def load_request_def split: option.splits)

text \<open>
  C16: a round of the event loop always comes to an end: under the promise on \<^verbatim>\<open>waitpid\<close>, if the peers
  send finitely much and the configuration can be applied to every request (it cannot if it has an
  \<^verbatim>\<open>env1\<close> entry), one iteration from any state either returns or ends the process.
\<close>

theorem iteration_returns:
  assumes "child_bound k os" and "input_bound n os" and "\<forall>rq. loadRequest g keyfiles rq \<noteq> None"
  shows "\<exists>r t. iteration os g keyfiles s = Some (r, t)"
proof -
  have destroy: "returns (manager_destroy os) s" for s
    by (auto simp: manager_destroy_def intro!: returns returns_wait_child [OF assms(1)])
  have recv: "returns (recv_message os g keyfiles) s" for s
    using assms(3)
    by (auto simp: recv_message_def connection_closed_def handle_message_def receive_exe_def receive_list_def
        receive_stop_def stop_proc_def intro!: returns returns_read_all [OF assms(2)] returns_load_request
        split: option.split msgmethod.split)
  have "returns (iteration os g keyfiles) s"
    by (auto simp: iteration_def deal_with_exit_def check_client_def dispatch_def timer_expired_def send_response_def
        intro!: returns destroy recv returns_wait_child [OF assms(1)])
  then show ?thesis
    by (simp add: returns_def)
qed

lemma loop_ends_abruptly:
  "manager_loop os g keyfiles s = Some y \<Longrightarrow> \<exists>a. fst y = Inl a"
proof (erule manager_loop.raw_induct [where P = "\<lambda>os g keyfiles s y. \<exists>a. fst y = Inl a", rotated])
  fix loop :: "os \<Rightarrow> 'a glib \<Rightarrow> (string \<times> 'a) list \<Rightarrow> (mgr, unit) prog" and os g keyfiles s y
  assume ih: "\<And>os g keyfiles b y. loop os g keyfiles b = Some y \<Longrightarrow> \<exists>a. fst y = Inl a"
    and run: "seq (iteration os g keyfiles) (loop os g keyfiles) s = Some y"
  obtain r t where it: "iteration os g keyfiles s = Some (r, t)"
    using run by (cases "iteration os g keyfiles s") (auto simp: seq_def bnd_def)
  show "\<exists>a. fst y = Inl a"
  proof (cases r)
    case (Inl a)
    then show ?thesis
      using run it by (auto simp: seq_def bnd_def)
  next
    case (Inr x)
    then have "loop os g keyfiles t = Some y"
      using run it by (simp add: seq_def bnd_def)
    then show ?thesis
      by (rule ih)
  qed
qed

text \<open>
  \<^verbatim>\<open>manager_start\<close> does not return. Whatever happens outside, a run that ends does so by leaving the
  process (\<^verbatim>\<open>exit\<close>), by an exception or in undefined behaviour, so the code after the call is reached by
  an exception only.
\<close>

lemma manager_start_never_returns:
  "manager_start os g keyfiles fd s \<noteq> Some (Inr x, t)"
proof
  assume "manager_start os g keyfiles fd s = Some (Inr x, t)"
  then obtain u where "manager_loop os g keyfiles u = Some (Inr x, t)"
    by (auto simp: manager_start_def seq_def bnd_def split: option.splits sum.splits)
  then show False
    by (auto dest: loop_ends_abruptly)
qed

end
