(* ===== verification/DaemonProps.thy ===== *)
theory DaemonProps
  imports Daemon Raises ManagerFds ManagerLoop
begin

text \<open>
  What the daemon is responsible for. A run of its program is the run of one process; the record
  tells by a \<^verbatim>\<open>fork\<close> that answered 0 that this process became the child that serves a connection. The
  parent stays in a state in which the manager's variables have their first values, so every manager
  starts from \<open>initial\<close>; the parent ends after cleaning up, a child never cleans up.
\<close>

section \<open>The parent's phase\<close>

text \<open>What the parent does before it ends: it neither clones nor signals nor unmounts.\<close>

definition daemon_event :: "event \<Rightarrow> bool" where
  "daemon_event e \<longleftrightarrow> (case e of
      (Kill _ _, _) \<Rightarrow> False | (Clone _, _) \<Rightarrow> False | (Fork, AInt n) \<Rightarrow> n \<noteq> 0
    | (Host (Umount _), _) \<Rightarrow> False | _ \<Rightarrow> True)"

lemma daemon_event_simps [simp]:
  "daemon_event (Close fd, a)" "daemon_event (Unlink p, a)" "daemon_event (Rmdir p, a)" "daemon_event (WaitPid, a)"
  "daemon_event (Signals, a)" "daemon_event (Sigaction n, a)" "daemon_event (Exists p, a)" "daemon_event (IsDirectory p, a)"
  "daemon_event (IsRegularFile p, a)" "daemon_event (CreateDirectories p, a)" "daemon_event (ListDir p, a)"
  "daemon_event (LoadKeyFile p, a)" "daemon_event (Open p f, a)" "daemon_event (Fclose st, a)" "daemon_event (Socket b, a)"
  "daemon_event (Accept fd, a)" "daemon_event (Host Daemonize, a)" "daemon_event (Host Getpid, a)"
  "daemon_event (Host (Setmntent p), a)" "daemon_event (Host (Getmntent st), a)" "daemon_event (Host (Mount p q), a)"
  "daemon_event (Host (SockBind fd p), a)" "daemon_event (Host (Chmod p), a)" "daemon_event (Host (Listen fd n), a)"
  "daemon_event (Fork, AInt n) \<longleftrightarrow> n \<noteq> 0"
  by (simp_all add: daemon_event_def)

lemma file_event_daemon: "file_event p how e \<Longrightarrow> daemon_event e"
  by (cases e) (auto simp: file_event_def daemon_event_def split: call.splits hostcall.splits)

text \<open>Init (process 1) sent SIGTERM.\<close>

definition told :: "event list \<Rightarrow> bool" where
  "told es \<longleftrightarrow> (\<exists>senders. (Signals, AFds (Some senders)) \<in> set es \<and> 1 \<in> set senders)"

lemma told_append [simp]: "told (es @ es') \<longleftrightarrow> told es \<or> told es'"
  by (auto simp: told_def)

text \<open>
  A stretch of allowed calls that changes, of the variables, the two globals of the daemon only, and
  sets \<^verbatim>\<open>process_stop\<close> only when told.
\<close>

definition phase :: "(event \<Rightarrow> bool) \<Rightarrow> mgr \<Rightarrow> mgr \<Rightarrow> bool" where
  "phase ok s t \<longleftrightarrow> (\<exists>es. hist t = es @ hist s \<and> (\<forall>e\<in>set es. ok e) \<and> (process_stop t \<longrightarrow> process_stop s \<or> told es)) \<and>
     t = s\<lparr>hist := hist t, errno := errno t, process_stop := process_stop t, lockfd := lockfd t\<rparr>"

interpretation phases: recording "phase ok" ok for ok
proof unfold_locales
  fix s t u :: mgr
  show "phase ok s s"
    by (simp add: phase_def)
  show "phase ok s (s\<lparr>hist := e # hist s, errno := n\<rparr>)" if "ok e" for e n
    using that unfolding phase_def by (intro conjI exI [of _ "[e]"]) simp_all
  assume st: "phase ok s t" and tu: "phase ok t u"
  obtain es where es: "hist t = es @ hist s" "\<forall>e\<in>set es. ok e" "process_stop t \<longrightarrow> process_stop s \<or> told es"
    using st by (auto simp: phase_def)
  obtain es' where es': "hist u = es' @ hist t" "\<forall>e\<in>set es'. ok e" "process_stop u \<longrightarrow> process_stop t \<or> told es'"
    using tu by (auto simp: phase_def)
  have "u = s\<lparr>hist := hist u, errno := errno u, process_stop := process_stop u, lockfd := lockfd u\<rparr>"
    using st tu by (cases s; cases t; cases u) (simp add: phase_def)
  then show "phase ok s u"
    unfolding phase_def using es es' by (intro conjI exI [of _ "es' @ es"]) auto
qed

lemma phase_calls:
  assumes "\<forall>e\<in>set es. ok e"
  shows "phase ok s (s\<lparr>errno := n, hist := es @ hist s\<rparr>)" "phase ok s (s\<lparr>hist := es @ hist s, errno := n\<rparr>)"
  unfolding phase_def using assms by (intro conjI exI [of _ es]; simp)+

named_theorems dae

lemmas dae_calls [dae] = phases.r_calls

lemma dae_files [dae]: "obeys (phase daemon_event) (write_file os path data)"
  by (rule phases.r_write_file) (erule file_event_daemon)

lemma dae_loop [dae]: "(\<And>x. obeys (phase ok) (body x)) \<Longrightarrow> obeys (phase ok) (loop body x)"
  by (rule contract.r_loop [OF phases.contract_axioms])

lemma dae_config [dae]: "obeys (phase daemon_event) (Config os g)"
proof -
  have key: "obeys (phase daemon_event) (load_key_file g p)" for p
    by (auto simp: load_key_file_def intro!: dae)
  have "obeys (phase daemon_event) (load_dir os g ps m)" for ps m
    by (induction ps arbitrary: m) (auto intro!: dae key split: option.split)
  then show ?thesis
    by (auto simp: Config_def intro!: dae key split: option.split)
qed

lemma raises_config [raises]: "only_raises (Config os g)"
proof -
  have key: "only_raises (load_key_file g p)" for p
    by (auto simp: load_key_file_def intro!: raises)
  have "only_raises (load_dir os g ps m)" for ps m
    by (induction ps arbitrary: m) (auto intro!: raises key split: option.split)
  then show ?thesis
    by (auto simp: Config_def intro!: raises key split: option.split)
qed

text \<open>The two assignments.\<close>

lemma dae_lockfd [dae]: "obeys (phase ok) (modify (\<lambda>s. s\<lparr>lockfd := fd\<rparr>))"
  by (auto simp: obeys_def modify_def phase_def)

lemma sigterm_handlers: "wp (for_each senders sigterm_handler) (\<lambda>_ t. t = s\<lparr>process_stop := process_stop s \<or> 1 \<in> set senders\<rparr>) E s"
proof (induction senders arbitrary: s)
  case (Cons p senders)
  then show ?case
    using Cons [of "s\<lparr>process_stop := True\<rparr>"] by (auto simp: wp sigterm_handler_def elim!: wp_mono)
qed (simp add: wp)

lemma dae_stop_asked [dae]: "obeys (phase daemon_event) (stop_asked os)"
proof (rule obeysI)
  fix s :: mgr
  let ?d = "fds_of os (hist s) Signals"
  show "wp (stop_asked os) (\<lambda>_. phase daemon_event s) (\<lambda>_. phase daemon_event s) s"
    unfolding stop_asked_def wp wp_bnd wp_sys_signals Let_def
  proof (rule wp_mono [OF sigterm_handlers])
    fix t
    assume "t = s\<lparr>hist := (Signals, AFds ?d) # hist s, process_stop :=
      process_stop (s\<lparr>hist := (Signals, AFds ?d) # hist s\<rparr>) \<or> 1 \<in> set (case ?d of None \<Rightarrow> [] | Some ps \<Rightarrow> ps)\<rparr>"
    then show "phase daemon_event s t"
      unfolding phase_def
      by (intro conjI exI [of _ "[(Signals, AFds ?d)]"]) (auto simp: told_def split: option.splits)
  qed
qed

lemma dae_ops [dae]:
  "obeys (phase daemon_event) daemon_signal_register" "obeys (phase daemon_event) (mount_tmpfs os p)"
  "obeys (phase daemon_event) (open_socket os)" "obeys (phase daemon_event) (reap_all os)"
  by (auto simp: daemon_signal_register_def mount_tmpfs_def find_mount_def search_mounts_def open_socket_def reap_all_def
      intro!: dae split: option.split prod.split)

lemma raises_ops [raises]:
  "only_raises daemon_signal_register" "only_raises (mount_tmpfs os p)" "only_raises (open_socket os)"
  "only_raises (reap_all os)" "only_raises (stop_asked os)"
  by (auto simp: daemon_signal_register_def mount_tmpfs_def find_mount_def search_mounts_def open_socket_def reap_all_def
      stop_asked_def sigterm_handler_def intro!: raises split: option.split prod.split)

lemma dae_prepare [dae]: "obeys (phase daemon_event) (prepare os g)"
  by (auto simp: prepare_def intro!: dae)

lemma raises_prepare [raises]: "only_raises (prepare os g)"
  by (auto simp: prepare_def intro!: raises)

section \<open>The child's phase\<close>

lemma wait_child_raises_nothing: "wait_child os s = Some (Inl a, t) \<Longrightarrow> a = Undefined"
proof -
  have reap: "reaped pid stat s = Some (Inl a, t) \<Longrightarrow> a = Undefined" for pid stat s a t
    by (erule wpD_abrupt [where Q = "\<lambda>_ _. True", rotated]) (auto simp: reaped_def clear_clonepid_def args0_def wp Let_def split: wstatus.split list.split)
  have "wait_child os s = Some y \<Longrightarrow> fst y = Inl a \<longrightarrow> a = Undefined" for y
  proof (erule wait_child.raw_induct [where P = "\<lambda>os s y. fst y = Inl a \<longrightarrow> a = Undefined", rotated])
    fix loop :: "os \<Rightarrow> (mgr, unit) prog" and os s y
    assume ih: "\<And>os b y. loop os b = Some y \<Longrightarrow> fst y = Inl a \<longrightarrow> a = Undefined"
      and run: "bnd (sys_waitpid os) (\<lambda>(pid, stat). if pid > 0 then seq (reaped pid stat) (loop os) else ret ()) s = Some y"
    then show "fst y = Inl a \<longrightarrow> a = Undefined"
      using reap by (cases y) (fastforce simp: bnd_def seq_def sys_waitpid_def ret_def Let_def split: prod.splits option.splits sum.splits if_splits)
  qed
  then show "wait_child os s = Some (Inl a, t) \<Longrightarrow> a = Undefined"
    by fastforce
qed

lemma manager_destroy_raises_nothing: "manager_destroy os s = Some (Inl a, t) \<Longrightarrow> a = Undefined"
  by (erule wpD_abrupt [where Q = "\<lambda>_ _. True", rotated])
    (auto simp: manager_destroy_def close_connection_def close_epollfd_def close_timerfd_def wp
      intro!: wpI dest: wait_child_raises_nothing)

text \<open>
  Serving a connection: the manager's run, and after an exception its clean-up and the exit status
  \<open>- 1\<close>.
\<close>

definition served :: "os \<Rightarrow> 'k glib \<Rightarrow> (string \<times> 'k) list \<Rightarrow> int \<Rightarrow> mgr \<Rightarrow> int outcome \<Rightarrow> mgr \<Rightarrow> bool" where
  "served os g keyfiles fd s r t \<longleftrightarrow> (\<exists>a u. manager_start os g keyfiles fd s = Some (Inl a, u) \<and>
     (case a of
        Raise x \<Rightarrow> manager_destroy os u = Some (Inr (), t) \<and> r = Inr (- 1) \<or>
          manager_destroy os u = Some (Inl Undefined, t) \<and> r = Inl Undefined
      | _ \<Rightarrow> r = Inl a \<and> t = u))"

lemma manager_ends_abruptly: "manager_start os g keyfiles fd s = Some (r, t) \<Longrightarrow> \<exists>a. r = Inl a"
  by (cases r) (auto simp: manager_start_def seq_def bnd_def split: option.splits sum.splits dest!: loop_ends_abruptly)

lemma serve_served:
  "wp (serve os g keyfiles sock fd)
     (\<lambda>x t. \<exists>n. x = Some n \<and> served os g keyfiles fd (s\<lparr>hist := (Close sock, AUnit) # hist s\<rparr>) (Inr n) t)
     (\<lambda>a t. (\<forall>x. a \<noteq> Raise x) \<and> served os g keyfiles fd (s\<lparr>hist := (Close sock, AUnit) # hist s\<rparr>) (Inl a) t) s"
proof -
  let ?s = "s\<lparr>hist := (Close sock, AUnit) # hist s\<rparr>"
  let ?Q = "\<lambda>x t. \<exists>n. x = Some n \<and> served os g keyfiles fd ?s (Inr n) t"
  let ?E = "\<lambda>a t. (\<forall>x. a \<noteq> Raise x) \<and> served os g keyfiles fd ?s (Inl a) t"
  have handler: "wp (seq (manager_destroy os) (ret (Some (- 1)))) ?Q ?E u"
    if "manager_start os g keyfiles fd ?s = Some (Inl (Raise x), u)" for x u
    unfolding wp_seq wp_ret
    by (rule wpI) (auto simp: served_def that dest: manager_destroy_raises_nothing)
  have other: "served os g keyfiles fd ?s (Inl a) u"
    if "manager_start os g keyfiles fd ?s = Some (Inl a, u)" and "\<forall>x. a \<noteq> Raise x" for a u
    using that by (auto simp: served_def split: abrupt.split)
  have "wp (manager_start os g keyfiles fd) (\<lambda>_ _. False)
      (\<lambda>a u. case a of Raise x \<Rightarrow> wp (seq (manager_destroy os) (ret (Some (- 1)))) ?Q ?E u | _ \<Rightarrow> ?E a u) ?s"
    by (rule wpI) (auto dest: manager_ends_abruptly intro: handler other split: abrupt.split)
  then show ?thesis
    unfolding serve_def wp_seq wp_sys_do wp_try_catch
    by (elim wp_mono) auto
qed

text \<open>The parent forked, and the run went on in the child.\<close>

definition forked :: "os \<Rightarrow> 'k glib \<Rightarrow> mgr \<Rightarrow> int outcome \<Rightarrow> mgr \<Rightarrow> bool" where
  "forked os g s r t \<longleftrightarrow> (\<exists>u keyfiles sock fd e. phase daemon_event s u \<and>
     served os g keyfiles fd
       (u\<lparr>errno := e, hist := (Close sock, AUnit) # (Fork, AInt 0) # (Accept sock, AInt fd) # hist u\<rparr>) r t)"

lemma forked_trans: "phase daemon_event s u \<Longrightarrow> forked os g u r t \<Longrightarrow> forked os g s r t"
  unfolding forked_def using phases.R_trans by blast

definition ends :: "os \<Rightarrow> 'k glib \<Rightarrow> mgr \<Rightarrow> abrupt \<Rightarrow> mgr \<Rightarrow> bool" where
  "ends os g s a t \<longleftrightarrow> (case a of Raise x \<Rightarrow> phase daemon_event s t | _ \<Rightarrow> forked os g s (Inl a) t)"

lemma parent_ends:
  "only_raises m \<Longrightarrow> obeys (phase daemon_event) m \<Longrightarrow> phase daemon_event s u \<Longrightarrow>
   wp m (\<lambda>_. phase daemon_event s) (ends os g s) u"
  by (rule wpI) (fastforce simp: ends_def only_raises_def dest!: obeysD intro: phases.R_trans)+

text \<open>What a round of the loop comes to: going on, a child's end, or a stop that was asked for.\<close>

definition round_post :: "os \<Rightarrow> 'k glib \<Rightarrow> mgr \<Rightarrow> unit + int option \<Rightarrow> mgr \<Rightarrow> bool" where
  "round_post os g s y t \<longleftrightarrow> (case y of
      Inl _ \<Rightarrow> phase daemon_event s t
    | Inr None \<Rightarrow> phase daemon_event s t \<and> process_stop t
    | Inr (Some n) \<Rightarrow> forked os g s (Inr n) t)"

lemma accept_round_post:
  "wp (accept_round os g keyfiles sock) (round_post os g s) (ends os g s) s"
proof -
  let ?h = "(Accept sock, AInt (int_of os (hist s) (Accept sock))) # hist s"
  let ?fd = "int_of os (hist s) (Accept sock)"
  let ?s1 = "s\<lparr>hist := ?h, errno := errno_of os (hist s) (Accept sock)\<rparr>"
  have s1: "phase daemon_event s ?s1"
    by (rule phases.R_event) simp
  show ?thesis
  proof (cases "?fd = - 1")
    case True
    have "wp (seq (reap_all os) (bnd (stop_asked os) (\<lambda>stop. ret (if stop then Inr None else Inl ()))))
        (round_post os g s) (ends os g s) ?s1"
      unfolding wp_seq
    proof (rule wp_mono [OF parent_ends [OF raises_ops(4) dae_ops(4) s1]])
      fix x :: unit and u
      assume u: "phase daemon_event s u"
      have "wp (stop_asked os) (\<lambda>stop t. stop = process_stop t) (\<lambda>_ _. True) u"
        by (simp add: stop_asked_def wp Let_def, rule wp_mono [OF sigterm_handlers]) simp_all
      with parent_ends [OF raises_ops(5) dae_stop_asked u]
      have "wp (stop_asked os) (\<lambda>stop t. phase daemon_event s t \<and> stop = process_stop t) (\<lambda>a t. ends os g s a t \<and> True) u"
        unfolding wp_conj by blast
      then show "wp (bnd (stop_asked os) (\<lambda>stop. ret (if stop then Inr None else Inl ()))) (round_post os g s) (ends os g s) u"
        unfolding wp_bnd wp_ret by (rule wp_mono) (auto simp: round_post_def)
    qed
    then show ?thesis
      using True s1 by (cases "errno_of os (hist s) (Accept sock) = EINTR")
        (auto simp: accept_round_def wp ends_def round_post_def EINTR_def ECONNABORTED_def intro: phases.R_event)
  next
    case False
    let ?n = "int_of os ?h Fork" and ?s2 = "?s1\<lparr>hist := (Fork, AInt (int_of os ?h Fork)) # ?h, errno := errno_of os ?h Fork\<rparr>"
    have child: "forked os g s r t"
      if "served os g keyfiles ?fd (s\<lparr>errno := e, hist := (Close sock, AUnit) # (Fork, AInt 0) # ?h\<rparr>) r t" for e r t
      unfolding forked_def
      by (rule exI [of _ s], rule exI [of _ keyfiles], rule exI [of _ sock], rule exI [of _ ?fd], rule exI [of _ e])
        (use that in \<open>simp add: phases.R_refl\<close>)
    have "wp (bnd (serve os g keyfiles sock ?fd) (\<lambda>r. ret (case r of None \<Rightarrow> Inl () | Some n \<Rightarrow> Inr (Some n))))
        (round_post os g s) (ends os g s) ?s2" if "?n = 0"
      unfolding wp_bnd wp_ret
      by (rule wp_mono [OF serve_served]) (auto simp: that round_post_def ends_def intro: child split: abrupt.split)
    moreover have "phase daemon_event s ?s2" "phase daemon_event s (?s2\<lparr>hist := (Close ?fd, AUnit) # hist ?s2\<rparr>)" if "?n \<noteq> 0"
      using phase_calls(2) [of "(Fork, AInt ?n) # [(Accept sock, AInt ?fd)]" daemon_event s "errno_of os ?h Fork"]
        phase_calls(1) [of "(Close ?fd, AUnit) # (Fork, AInt ?n) # [(Accept sock, AInt ?fd)]" daemon_event s "errno_of os ?h Fork"] that
      by simp_all
    ultimately show ?thesis
      using False by (auto simp: accept_round_def wp ends_def round_post_def)
  qed
qed

lemma ends_trans: "phase daemon_event s u \<Longrightarrow> ends os g u a t \<Longrightarrow> ends os g s a t"
  by (auto simp: ends_def intro: phases.R_trans forked_trans split: abrupt.splits)

lemma round_post_trans: "phase daemon_event s u \<Longrightarrow> round_post os g u y t \<Longrightarrow> round_post os g s y t"
  by (auto simp: round_post_def intro: phases.R_trans forked_trans split: sum.splits option.splits)

lemma round_post_case:
  "(case y of Inl x \<Rightarrow> phase daemon_event s t | Inr r \<Rightarrow> round_post os g s (Inr r) t) = round_post os g s y t"
  by (simp add: round_post_def split: sum.split)

lemma accept_loop_post: "wp (accept_loop os g keyfiles sock) (\<lambda>r. round_post os g s (Inr r)) (ends os g s) s"
  unfolding accept_loop_def
proof (rule loop_wp [where I = "\<lambda>_. phase daemon_event s"])
  show "phase daemon_event s s"
    by (rule phases.R_refl)
  show "wp (accept_round os g keyfiles sock) (\<lambda>y t. case y of Inl x' \<Rightarrow> phase daemon_event s t | Inr r \<Rightarrow> round_post os g s (Inr r) t)
      (ends os g s) u" if "phase daemon_event s u" for x :: unit and u
    unfolding round_post_case
    by (rule wp_mono [OF accept_round_post]) (erule round_post_trans [OF that] ends_trans [OF that])+
qed

section \<open>The end\<close>

definition cleaning :: "event \<Rightarrow> bool" where
  "cleaning e \<longleftrightarrow> (case fst e of IsDirectory _ \<Rightarrow> True | ListDir _ \<Rightarrow> True | Rmdir _ \<Rightarrow> True | _ \<Rightarrow> False)"

lemma clear_cgroup_setting_cleans: "wp (clear_cgroup_setting os) (\<lambda>_. emits cleaning s) (\<lambda>_ _. False) s"
proof -
  let ?body = "bnd (sys_bool os (IsDirectory CGMemoryRoot)) (\<lambda>there.
      whenp there (bnd (sys_names os (ListDir CGMemoryRoot)) (\<lambda>paths.
        for_each paths (\<lambda>path. bnd (sys_bool os (IsDirectory path)) (\<lambda>isdir.
          whenp isdir (sys_do (Rmdir (c_str path))))))))"
  have "only_raises ?body" and "obeys (emits cleaning) (clear_cgroup_setting os)"
    by (auto simp: clear_cgroup_setting_def cleaning_def intro!: raises emit)
  moreover have "wp (clear_cgroup_setting os) (\<lambda>_ _. True) (\<lambda>_ _. False) s"
    unfolding clear_cgroup_setting_def by (rule caught [OF \<open>only_raises ?body\<close>]) (auto intro!: wpI simp: wp_ret)
  ultimately show ?thesis
    by (auto intro!: wpI dest: obeysD wpD_abrupt)
qed

definition cleaned :: "mgr \<Rightarrow> mgr \<Rightarrow> bool" where
  "cleaned u t \<longleftrightarrow> (\<exists>n es. hist t = es @ [(Unlink lockfile, AUnit), (Close (lockfd u), AUnit), (Host (Umount tmpfs), AInt n)] @ hist u \<and>
     (\<forall>e\<in>set es. cleaning e))"

lemma c_str_daemon [simp]: "c_str lockfile = lockfile" "c_str tmpfs = tmpfs"
  by (simp_all add: lockfile_def tmpfs_def c_str_def)

lemma clear_resource_cleans: "wp (clear_resource os) (\<lambda>_. cleaned u) (\<lambda>_ _. False) u"
  by (auto simp: clear_resource_def umount_tmpfs_def wp cleaned_def emits_def intro!: wp_mono [OF clear_cgroup_setting_cleans])

text \<open>How a run ends: in a child, or in the parent after the clean-up.\<close>

lemma srund_main_post:
  "wp (srund_main os g)
     (\<lambda>n t. forked os g s (Inr n) t \<or> (\<exists>u. phase daemon_event s u \<and> cleaned u t \<and> (n = - 1 \<or> n = 0 \<and> process_stop u)))
     (\<lambda>a t. (\<forall>x. a \<noteq> Raise x) \<and> forked os g s (Inl a) t) s"
proof -
  let ?Q = "\<lambda>n t. forked os g s (Inr n) t \<or> (\<exists>u. phase daemon_event s u \<and> cleaned u t \<and> (n = - 1 \<or> n = 0 \<and> process_stop u))"
  let ?E = "\<lambda>a t. case a of Raise x \<Rightarrow> phase daemon_event s t | _ \<Rightarrow> forked os g s (Inl a) t"
  have clear: "wp (seq (clear_resource os) (ret n)) ?Q E' u" if "phase daemon_event s u" "n = - 1 \<or> n = 0 \<and> process_stop u" for n u E'
    unfolding wp_seq wp_ret by (rule wp_mono [OF clear_resource_cleans]) (use that in auto)
  have loop: "wp (bnd (accept_loop os g keyfiles sock) (\<lambda>r. case r of Some n \<Rightarrow> ret n | None \<Rightarrow> seq (clear_resource os) (ret 0)))
      ?Q (ends os g s) u" if "phase daemon_event s u" for keyfiles sock u
    unfolding wp_bnd
  proof (rule wp_mono [OF accept_loop_post])
    fix r t
    assume "round_post os g u (Inr r) t"
    then have "round_post os g s (Inr r) t"
      by (rule round_post_trans [OF that])
    then show "wp (case r of Some n \<Rightarrow> ret n | None \<Rightarrow> seq (clear_resource os) (ret 0)) ?Q (ends os g s) t"
      by (cases r) (auto simp: round_post_def wp_ret intro: clear)
  qed (rule ends_trans [OF that])
  have "wp (bnd (prepare os g) (\<lambda>keyfiles. bnd (open_socket os) (\<lambda>sock. bnd (accept_loop os g keyfiles sock)
      (\<lambda>r. case r of Some n \<Rightarrow> ret n | None \<Rightarrow> seq (clear_resource os) (ret 0))))) ?Q (ends os g s) s"
    unfolding wp_bnd [of "prepare os g"] wp_bnd [of "open_socket os"]
    by (rule wp_mono [OF parent_ends [OF raises_prepare dae_prepare phases.R_refl]],
        rule wp_mono [OF parent_ends [OF raises_ops(3) dae_ops(3)]]) (assumption | rule loop)+
  then show ?thesis
    unfolding srund_main_def wp_try_catch
    by (rule wp_mono) (auto simp: ends_def clear split: abrupt.splits)
qed

lemma phase_initial:
  assumes "phase ok (initial h e stop lock) u"
  obtains es e' stop' lock' where "u = initial (es @ h) e' stop' lock'" "\<forall>ev\<in>set es. ok ev" "stop' \<longrightarrow> stop \<or> told es"
proof -
  obtain es where "hist u = es @ h" "\<forall>ev\<in>set es. ok ev" "process_stop u \<longrightarrow> stop \<or> told es"
    and u: "u = (initial h e stop lock)\<lparr>hist := hist u, errno := errno u, process_stop := process_stop u, lockfd := lockfd u\<rparr>"
    using assms by (auto simp: phase_def initial_def)
  moreover have "u = initial (hist u) (errno u) (process_stop u) (lockfd u)"
    by (subst u) (simp add: initial_def)
  ultimately show ?thesis
    using that [of es "errno u" "process_stop u" "lockfd u"] by simp
qed


section \<open>Signals\<close>

lemma daemon_event_kill_ok: "daemon_event ev \<Longrightarrow> kill_ok ev h"
  by (auto simp: daemon_event_def kill_ok_def split: call.splits)

lemma daemon_kill_ok: "all_events kill_ok (es @ h) \<longleftrightarrow> all_events kill_ok h" if "\<forall>ev\<in>set es. daemon_event ev"
  using that by (intro all_events_append(2)) (auto intro: daemon_event_kill_ok)

lemma cleaning_daemon: "cleaning ev \<Longrightarrow> daemon_event ev"
  by (cases ev) (auto simp: cleaning_def daemon_event_def split: call.splits)

lemma cleaned_kill_ok: "cleaned u t \<Longrightarrow> all_events kill_ok (hist u) \<Longrightarrow> all_events kill_ok (hist t)"
  unfolding cleaned_def using daemon_kill_ok cleaning_daemon by (fastforce simp: kill_ok_def)

lemma served_sound:
  assumes "served os g keyfiles fd s r t" and "clone_pids os" and "sound s"
  shows "sound t"
proof -
  obtain a u where run: "manager_start os g keyfiles fd s = Some (Inl a, u)"
    and after: "case a of
        Raise x \<Rightarrow> manager_destroy os u = Some (Inr (), t) \<and> r = Inr (- 1) \<or>
          manager_destroy os u = Some (Inl Undefined, t) \<and> r = Inl Undefined
      | _ \<Rightarrow> r = Inl a \<and> t = u"
    using assms(1) unfolding served_def by blast
  then have fin: "t = u \<or> (\<exists>x. manager_destroy os u = Some (x, t))"
    by (cases a) auto
  have "sound u"
    by (rule obeys_keepsD [OF soundness.k_manager_start [OF assms(2)] run assms(3)])
  with fin show ?thesis
    using obeys_keepsD [OF soundness.k_manager_destroy] by blast
qed

text \<open>
  C8: the daemon and all its managers signal nothing but their own. In every run of the program, in
  whatever process it ends, each \<^verbatim>\<open>kill\<close> is a SIGTERM to a live child of the process that sends it or to a
  process whose registration was found by the call before.
\<close>

theorem daemon_kills_its_own:
  assumes "clone_pids os" and "all_events kill_ok h"
    and "srund_main os g (initial h e False lock) = Some (r, t)" and "hist t = es @ (Kill p sig, a) # h'"
  shows "sig = SIGTERM \<and> (p \<in> live h' \<or> (\<exists>h''. h' = (Exists (proc_file p), ABool (Some True)) # h''))"
proof -
  let ?s = "initial h e False lock"
  consider "forked os g ?s r t" | u where "phase daemon_event ?s u" "cleaned u t"
    using srund_main_post [of os g ?s] assms(3) by (cases r) (auto simp: wp_def)
  then have "all_events kill_ok (hist t)"
  proof cases
    case 1
    then obtain u keyfiles sock fd e' where u: "phase daemon_event ?s u"
      "served os g keyfiles fd (u\<lparr>errno := e', hist := (Close sock, AUnit) # (Fork, AInt 0) # (Accept sock, AInt fd) # hist u\<rparr>) r t"
      by (auto simp: forked_def)
    from u(1) obtain es e1 stop lock' where "u = initial (es @ h) e1 stop lock'" "\<forall>ev\<in>set es. daemon_event ev"
      by (rule phase_initial)
    then have "sound (u\<lparr>errno := e', hist := (Close sock, AUnit) # (Fork, AInt 0) # (Accept sock, AInt fd) # hist u\<rparr>)"
      using assms(2) by (simp add: sound_def coupled_def initial_def daemon_kill_ok kill_ok_def)
    from served_sound [OF u(2) assms(1) this] show ?thesis
      by (simp add: sound_def)
  next
    case (2 u)
    from 2(1) obtain es e1 stop lock' where "u = initial (es @ h) e1 stop lock'" "\<forall>ev\<in>set es. daemon_event ev"
      by (rule phase_initial)
    then show ?thesis
      using assms(2) by (intro cleaned_kill_ok [OF 2(2)]) (simp add: initial_def daemon_kill_ok)
  qed
  then show ?thesis
    using assms(4) by (auto simp: kill_ok_def dest!: all_eventsD split: list.splits)
qed

section \<open>Descriptors of the parent\<close>

text \<open>Nothing is open that was not, nothing was closed that still counts, the lock file stays.\<close>

definition level :: "int set \<Rightarrow> mgr \<Rightarrow> mgr \<Rightarrow> bool" where
  "level inh s t \<longleftrightarrow> lockfd t = lockfd s \<and> open_fds inh (hist t) = open_fds inh (hist s) \<and>
     (closes_ok inh (hist s) \<longrightarrow> closes_ok inh (hist t))"

interpretation levels: recording "level inh" quiet for inh
  by unfold_locales (auto simp: level_def quiet_open_fds quiet_closes_ok simp del: open_fds.simps closes_ok.simps)

named_theorems lev

lemmas lev_calls [lev] = levels.r_calls

lemma quiet_host_simps [simp]:
  "quiet (Host c, a)" "quiet (IsRegularFile p, a)" "quiet (LoadKeyFile p, a)" "quiet (Fclose st, a)" "quiet (Exists p, a)"
  by (simp_all add: quiet_def opened_by_def)

lemma lev_modify [lev]: "obeys (level inh) (modify (\<lambda>s. s\<lparr>process_stop := b\<rparr>))"
  by (auto simp: obeys_def modify_def level_def)

lemma lev_loop [lev]: "(\<And>x. obeys (level inh) (body x)) \<Longrightarrow> obeys (level inh) (loop body x)"
  by (rule contract.r_loop [OF levels.contract_axioms])

lemma lev_config: "obeys (level inh) (Config os g)"
proof -
  have key: "obeys (level inh) (load_key_file g p)" for p
    by (auto simp: load_key_file_def intro!: lev)
  have "obeys (level inh) (load_dir os g ps m)" for ps m
    by (induction ps arbitrary: m) (auto intro!: lev key split: option.split)
  then show ?thesis
    by (auto simp: Config_def intro!: lev key split: option.split)
qed

lemma lev_files [lev]: "obeys (level inh) (write_file os p d)"
  by (rule levels.r_write_file) (erule file_event_quiet)

lemma lev_ops [lev]:
  "obeys (level inh) daemon_signal_register" "obeys (level inh) (mount_tmpfs os p)"
  "obeys (level inh) (reap_all os)" "obeys (level inh) (stop_asked os)" "obeys (level inh) (umount_tmpfs os p)"
  "obeys (level inh) (clear_cgroup_setting os)" "obeys (level inh) (Config os g)"
  by (auto simp: daemon_signal_register_def mount_tmpfs_def find_mount_def search_mounts_def reap_all_def stop_asked_def
      sigterm_handler_def umount_tmpfs_def clear_cgroup_setting_def
      intro!: lev lev_config split: option.split prod.split)

text \<open>A level stretch at the start of a program.\<close>

lemma level_wp: "obeys (level inh) m \<Longrightarrow> level inh s u \<Longrightarrow> (\<And>x t. level inh s t \<Longrightarrow> Q x t) \<Longrightarrow> wp m Q (\<lambda>_ _. True) u"
  by (rule wp_mono [OF obeys_wp [of "level inh"]]) (auto intro: levels.R_trans)

lemma level_bnd:
  "obeys (level inh) m \<Longrightarrow> level inh s u \<Longrightarrow> (\<And>x t. level inh s t \<Longrightarrow> wp (f x) Q (\<lambda>_ _. True) t) \<Longrightarrow> wp (bnd m f) Q (\<lambda>_ _. True) u"
  unfolding wp_bnd by (rule level_wp)

lemma level_seq:
  "obeys (level inh) m \<Longrightarrow> level inh s u \<Longrightarrow> (\<And>t. level inh s t \<Longrightarrow> wp n Q (\<lambda>_ _. True) t) \<Longrightarrow> wp (seq m n) Q (\<lambda>_ _. True) u"
  unfolding wp_seq by (rule level_wp)

text \<open>\<open>plus_fd inh s d t\<close>: one more descriptor \<open>d\<close> is open in \<open>t\<close> than was in \<open>s\<close>.\<close>

definition plus_fd :: "int set \<Rightarrow> mgr \<Rightarrow> int \<Rightarrow> mgr \<Rightarrow> bool" where
  "plus_fd inh s d t \<longleftrightarrow> d \<noteq> - 1 \<and> d \<notin> open_fds inh (hist s) \<and> open_fds inh (hist t) = insert d (open_fds inh (hist s)) \<and>
     (closes_ok inh (hist s) \<longrightarrow> closes_ok inh (hist t))"

lemma prepare_fds:
  assumes "fresh_fds inh os"
  shows "wp (prepare os g) (\<lambda>_ t. plus_fd inh s (lockfd t) t) (\<lambda>_ _. True) s"
proof -
  have opened: "wp (bnd (sys_int os (Open (c_str lockfile) fl)) (\<lambda>fd. seq (modify (\<lambda>s. s\<lparr>lockfd := fd\<rparr>))
      (seq (ThrowCAPIExceptionIf (- 1 = fd) ''open lockfile'') (Config os g)))) (\<lambda>_ t. plus_fd inh s (lockfd t) t) (\<lambda>_ _. True) u"
    if "level inh s u" for fl u
  proof -
    let ?fd = "int_of os (hist u) (Open (c_str lockfile) fl)"
    let ?v = "u\<lparr>hist := (Open (c_str lockfile) fl, AInt ?fd) # hist u, errno := errno_of os (hist u) (Open (c_str lockfile) fl), lockfd := ?fd\<rparr>"
    have fresh: "?fd \<noteq> - 1 \<Longrightarrow> ?fd \<notin> open_fds inh (hist u)"
      using fresh_open [OF assms] by blast
    have "wp (Config os g) (\<lambda>_ t. plus_fd inh s (lockfd t) t) (\<lambda>_ _. True) ?v" if "?fd \<noteq> - 1"
      by (rule level_wp [OF lev_config [where inh = inh] levels.R_refl])
        (use \<open>level inh s u\<close> fresh [OF that] that in \<open>simp add: level_def plus_fd_def opened_by_def\<close>)
    then show ?thesis
      by (auto simp: wp_bnd [of "sys_int _ _"] wp_sys_int wp_seq [of "modify _"] wp_modify wp_seq [of "ThrowCAPIExceptionIf _ _"]
          wp_ThrowCAPIExceptionIf)
  qed
  show ?thesis
    unfolding prepare_def
    by (rule level_bnd [OF _ levels.R_refl], intro lev quiet_host_simps, (rule level_bnd level_seq, intro lev quiet_host_simps, assumption)+,
        rule opened)
qed

lemma open_socket_fds:
  assumes "fresh_fds inh os"
  shows "wp (open_socket os) (\<lambda>sock t. plus_fd inh s sock t \<and> lockfd t = lockfd s) (\<lambda>_ _. True) s"
  using fresh_socket [OF assms, of "hist s" False]
  by (auto simp: open_socket_def wp plus_fd_def opened_by_def)

lemma served_status: "served os g keyfiles fd s (Inr n) t \<Longrightarrow> n = - 1"
  unfolding served_def by (elim exE conjE, rename_tac a u, case_tac a) simp_all

lemma serve_fails: "wp (serve os g keyfiles sock fd) (\<lambda>r t. r = Some (- 1)) (\<lambda>_ _. True) s"
  by (rule wp_mono [OF serve_served]) (auto dest: served_status)

lemma accept_round_fds:
  assumes "fresh_fds inh os"
  shows "wp (accept_round os g keyfiles sock) (\<lambda>y t. case y of Inr (Some n) \<Rightarrow> n = - 1 | _ \<Rightarrow> level inh s t) (\<lambda>_ _. True) s"
proof -
  let ?Q = "\<lambda>y t. case y of Inr (Some n) \<Rightarrow> n = - 1 | _ \<Rightarrow> level inh s t"
  have stop: "wp (seq (reap_all os) (bnd (stop_asked os) (\<lambda>stop. ret (if stop then Inr None else Inl ())))) ?Q (\<lambda>_ _. True) u"
    if "level inh s u" for u
    by (rule level_seq [OF lev_ops(3) that], rule level_bnd [OF lev_ops(4)], assumption) (simp add: wp_ret)
  have child: "wp (bnd (serve os g keyfiles sock fd) (\<lambda>r. ret (case r of None \<Rightarrow> Inl () | Some n \<Rightarrow> Inr (Some n)))) ?Q (\<lambda>_ _. True) u" for fd u
    unfolding wp_bnd wp_ret by (rule wp_mono [OF serve_fails]) simp_all
  show ?thesis
    using fresh_accept [OF assms, of "hist s" sock]
    by (auto simp: accept_round_def wp_bnd [of "sys_int os (Accept sock)"] wp_bnd [of "get errno"] wp_bnd [of "sys_int os Fork"] wp_sys_int wp_get
        wp_if wp_seq [of "ThrowCAPIExceptionIf _ _"] wp_ThrowCAPIExceptionIf wp_seq [of "sys_do _"] wp_sys_do wp_ret wp_throw
        level_def opened_by_def intro!: child stop)
qed

lemma accept_loop_fds:
  assumes "fresh_fds inh os"
  shows "wp (accept_loop os g keyfiles sock) (\<lambda>r t. case r of None \<Rightarrow> level inh s t | Some n \<Rightarrow> n = - 1) (\<lambda>_ _. True) s"
  unfolding accept_loop_def
proof (rule loop_wp [where I = "\<lambda>_. level inh s"])
  show "level inh s s"
    by (rule levels.R_refl)
  show "wp (accept_round os g keyfiles sock) (\<lambda>y t. case y of Inl x' \<Rightarrow> level inh s t
      | Inr r \<Rightarrow> (case r of None \<Rightarrow> level inh s t | Some n \<Rightarrow> n = - 1)) (\<lambda>_ _. True) u" if "level inh s u" for x :: unit and u
    by (rule wp_mono [OF accept_round_fds [OF assms]]) (auto intro: levels.R_trans [OF that] split: sum.splits option.splits)
qed

lemma clear_resource_fds:
  assumes "lockfd u \<noteq> - 1" and "lockfd u \<in> open_fds inh (hist u)" and "closes_ok inh (hist u)"
  shows "wp (clear_resource os) (\<lambda>_ t. open_fds inh (hist t) = open_fds inh (hist u) - {lockfd u} \<and> closes_ok inh (hist t)) (\<lambda>_ _. True) u"
proof -
  let ?Q = "\<lambda>_ t. open_fds inh (hist t) = open_fds inh (hist u) - {lockfd u} \<and> closes_ok inh (hist t)"
  have "wp (clear_cgroup_setting os) ?Q (\<lambda>_ _. True) v"
    if "open_fds inh (hist v) = open_fds inh (hist u) - {lockfd u}" "closes_ok inh (hist v)" for v
    by (rule level_wp [OF lev_ops(6) [where inh = inh] levels.R_refl]) (use that in \<open>simp add: level_def\<close>)
  then show ?thesis
    unfolding clear_resource_def
    by (intro level_seq [OF lev_ops(5) [where inh = inh] levels.R_refl]) (use assms in \<open>auto simp: wp level_def opened_by_def\<close>)
qed

text \<open>
  C9: an orderly stop leaves no connection behind. However many connections it accepted, a daemon that
  ends with status 0 has, beside the descriptors it was started with, exactly its listening socket open:
  the connections it handed to managers and the lock file are closed, and nothing was closed that was not
  open.
\<close>

theorem orderly_stop_leaves_the_socket:
  assumes "fresh_fds inh os" and "closes_ok inh h"
    and "srund_main os g (initial h e False lock) = Some (Inr 0, t)"
  shows "\<exists>sock. sock \<notin> open_fds inh h \<and> open_fds inh (hist t) = insert sock (open_fds inh h) \<and> closes_ok inh (hist t)"
proof -
  let ?s = "initial h e False lock"
  let ?Q = "\<lambda>(n :: int) t. n = 0 \<longrightarrow> (\<exists>sock. sock \<notin> open_fds inh h \<and> open_fds inh (hist t) = insert sock (open_fds inh h) \<and> closes_ok inh (hist t))"
  have s: "hist ?s = h"
    by (simp add: initial_def)
  have stop: "wp (seq (clear_resource os) (ret 0)) ?Q (\<lambda>_ _. True) w"
    if "plus_fd inh ?s (lockfd u) u" "plus_fd inh u sock v \<and> lockfd v = lockfd u" "level inh v w" for u v w sock
    unfolding wp_seq wp_ret
    by (rule wp_mono [OF clear_resource_fds [of w inh]])
      (use that assms(2) in \<open>auto simp: plus_fd_def level_def s simp del: open_fds.simps intro!: exI [of _ sock]\<close>)
  have run: "wp (bnd (prepare os g) (\<lambda>keyfiles. bnd (open_socket os) (\<lambda>sock. bnd (accept_loop os g keyfiles sock)
      (\<lambda>r. case r of Some n \<Rightarrow> ret n | None \<Rightarrow> seq (clear_resource os) (ret 0))))) ?Q (\<lambda>_ _. True) ?s"
    unfolding wp_bnd [of "prepare os g"] wp_bnd [of "open_socket os"] wp_bnd [of "accept_loop os g _ _"]
  proof (rule wp_mono [OF prepare_fds [OF assms(1)]], rule wp_mono [OF open_socket_fds [OF assms(1)]],
      rule wp_mono [OF accept_loop_fds [OF assms(1)]])
    fix u v w sock and r :: "int option"
    assume "plus_fd inh ?s (lockfd u) u" "plus_fd inh u sock v \<and> lockfd v = lockfd u"
      "case r of None \<Rightarrow> level inh v w | Some n \<Rightarrow> n = - 1"
    then show "wp (case r of Some n \<Rightarrow> ret n | None \<Rightarrow> seq (clear_resource os) (ret 0)) ?Q (\<lambda>_ _. True) w"
      by (cases r) (simp_all add: wp_ret stop)
  qed simp_all
  have "wp (srund_main os g) ?Q (\<lambda>_ _. True) ?s"
    unfolding srund_main_def wp_try_catch
  proof (rule wp_mono [OF run])
    fix a u
    have "wp (seq (clear_resource os) (ret (- 1))) ?Q (\<lambda>_ _. True) u"
      unfolding wp_seq wp_ret by (rule wpI) simp_all
    then show "case a of Raise e \<Rightarrow> wp (seq (clear_resource os) (ret (- 1))) ?Q (\<lambda>_ _. True) u | _ \<Rightarrow> True"
      by (cases a) simp_all
  qed
  from wpD [OF this assms(3)] show ?thesis
    by simp
qed

section \<open>The tmpfs\<close>

definition is_mount :: "event \<Rightarrow> bool" where
  "is_mount e \<longleftrightarrow> (case fst e of Host (Mount _ _) \<Rightarrow> True | _ \<Rightarrow> False)"

text \<open>The calls of \<^verbatim>\<open>find_mount\<close> as long as no entry of the table names the directory.\<close>

definition elsewhere :: "string \<Rightarrow> event \<Rightarrow> bool" where
  "elsewhere p e \<longleftrightarrow> \<not> is_mount e \<and> (\<forall>ty. snd e \<noteq> AMnt (Some (p, ty)))"

lemma elsewhere_simps [simp]:
  "elsewhere p (IsDirectory q, ABool b)" "elsewhere p (CreateDirectories q, ABool b)" "elsewhere p (Host (Setmntent q), AInt n)"
  "elsewhere p (Fclose st, AUnit)" "elsewhere p (Host (Getmntent st), AMnt None)" "elsewhere p (Host (Getmntent st), AMnt (Some (q, ty))) \<longleftrightarrow> q \<noteq> p"
  by (simp_all add: elsewhere_def is_mount_def)

definition mount_found :: "string \<Rightarrow> mgr \<Rightarrow> bool \<Rightarrow> mgr \<Rightarrow> bool" where
  "mount_found p s found t \<longleftrightarrow> (if found
     then \<exists>es st es'. hist t = es' @ (Host (Getmntent st), AMnt (Some (p, ''tmpfs''))) # es @ hist s \<and> (\<forall>e\<in>set es. elsewhere p e) \<and>
       (\<forall>e\<in>set es'. elsewhere p e)
     else emits (elsewhere p) s t)"

lemma mount_found_after: "emits (elsewhere p) s u \<Longrightarrow> mount_found p u found t \<Longrightarrow> mount_found p s found t"
  unfolding mount_found_def emits_def by (auto split: if_splits) (metis UnE append.assoc set_append)+

lemma search_mounts_outcome:
  "wp (search_mounts os st p) (mount_found (c_str p) s) (\<lambda>a _. \<exists>x. a = Raise x) s"
  unfolding search_mounts_def
proof (rule loop_wp [where I = "\<lambda>_. emits (elsewhere (c_str p)) s"])
  show "emits (elsewhere (c_str p)) s s"
    by (rule emission.R_refl)
  fix x :: unit and u :: mgr
  assume u: "emits (elsewhere (c_str p)) s u"
  have "mount_found (c_str p) u True (u\<lparr>hist := (Host (Getmntent st), AMnt (Some (c_str p, ''tmpfs''))) # hist u\<rparr>)"
    unfolding mount_found_def if_True
    by (rule exI [of _ "[]"], rule exI [of _ st], rule exI [of _ "[]"]) simp
  note found = mount_found_after [OF u this]
  have more: "emits (elsewhere (c_str p)) s (u\<lparr>hist := (Host (Getmntent st), AMnt d) # hist u\<rparr>)"
    if "elsewhere (c_str p) (Host (Getmntent st), AMnt d)" for d
    by (rule emission.R_trans [OF u]) (simp add: emits_one that)
  show "wp (bnd (sys_getmntent os st) (\<lambda>ent. case ent of
       None \<Rightarrow> ret (Inr False)
     | Some (mnt_dir, mnt_type) \<Rightarrow>
         if mnt_dir = c_str p
         then seq (ThrowLogicIf (mnt_type \<noteq> ''tmpfs'') ''tmpfs have mount other filesystem.'') (ret (Inr True))
         else ret (Inl ()))) (\<lambda>y t. case y of Inl x' \<Rightarrow> emits (elsewhere (c_str p)) s t | Inr r \<Rightarrow> mount_found (c_str p) s r t)
      (\<lambda>a _. \<exists>x. a = Raise x) u"
    using found more by (auto simp: wp mount_found_def split: option.split)
qed

lemma find_mount_outcome: "wp (find_mount os p) (mount_found (c_str p) s) (\<lambda>a _. \<exists>x. a = Raise x) s"
proof -
  let ?p = "c_str p"
  have fclose: "mount_found ?p s found (t\<lparr>hist := (Fclose st, AUnit) # hist t\<rparr>)" if "mount_found ?p s found t" for found t st
    using that unfolding mount_found_def emits_def
    by (auto split: if_splits) (metis (no_types, lifting) append_Cons elsewhere_simps(4) set_ConsD)+
  have search: "wp (on_block_exit (MakeGuard1 (\<lambda>st. sys_do (Fclose st)) st) (search_mounts os st p)) (mount_found ?p s) (\<lambda>a _. \<exists>x. a = Raise x) u"
    if u: "emits (elsewhere ?p) s u" for st u
    unfolding wp_on_block_exit
    by (rule wp_mono [OF search_mounts_outcome]) (auto simp: wp intro: fclose mount_found_after [OF u] split: abrupt.split)
  have one: "emits (elsewhere ?p) s (s\<lparr>hist := es @ hist s, errno := n\<rparr>)" "emits (elsewhere ?p) s (s\<lparr>hist := es @ hist s\<rparr>)"
    if "\<forall>e\<in>set es. elsewhere ?p e" for es n
    using that by (auto simp: emits_def)
  have absent: "mount_found ?p s False u = emits (elsewhere ?p) s u" for u
    by (simp add: mount_found_def)
  have made: "emits (elsewhere ?p) s (s\<lparr>hist := (CreateDirectories p, ABool b) # (IsDirectory p, ABool c) # hist s\<rparr>)" for b c
    using one(2) [of "[(CreateDirectories p, ABool b), (IsDirectory p, ABool c)]"] by simp
  have read: "emits (elsewhere ?p) s (s\<lparr>hist := (Host (Setmntent q), AInt n) # (IsDirectory p, ABool c) # hist s, errno := e\<rparr>)" for n c q e
    using one(1) [of "[(Host (Setmntent q), AInt n), (IsDirectory p, ABool c)]"] by simp
  show ?thesis
    unfolding find_mount_def wp_bnd [of "sys_bool _ _"] wp_sys_bool wp_if wp_bnd [of "sys_int _ _"] wp_sys_int
      wp_seq [of "ThrowCAPIExceptionIf _ _"] wp_ThrowCAPIExceptionIf wp_ret
    by (auto simp: absent intro: made search read split: option.split)
qed

text \<open>
  The tmpfs is mounted once. \<^verbatim>\<open>mount_tmpfs\<close> ends normally only if the table of mounts named a tmpfs
  on the directory and it mounted nothing, or no entry named the directory and its one \<^verbatim>\<open>mount\<close>, the last
  call, did not fail; a different file system on the directory, or any failure, is an exception.
\<close>

theorem mount_tmpfs_outcome:
  assumes "mount_tmpfs os p s = Some (r, t)"
  shows "case r of
      Inr _ \<Rightarrow> (\<exists>es st es'. hist t = es' @ (Host (Getmntent st), AMnt (Some (c_str p, ''tmpfs''))) # es @ hist s \<and>
          (\<forall>e\<in>set es. elsewhere (c_str p) e) \<and> (\<forall>e\<in>set es'. elsewhere (c_str p) e)) \<or>
        (\<exists>es n. n \<noteq> - 1 \<and> hist t = (Host (Mount ''tmpfs'' (c_str p)), AInt n) # es @ hist s \<and> (\<forall>e\<in>set es. elsewhere (c_str p) e))
    | Inl a \<Rightarrow> \<exists>x. a = Raise x"
proof -
  let ?Q = "\<lambda>_ t. (\<exists>es st es'. hist t = es' @ (Host (Getmntent st), AMnt (Some (c_str p, ''tmpfs''))) # es @ hist s \<and>
          (\<forall>e\<in>set es. elsewhere (c_str p) e) \<and> (\<forall>e\<in>set es'. elsewhere (c_str p) e)) \<or>
        (\<exists>es n. n \<noteq> - 1 \<and> hist t = (Host (Mount ''tmpfs'' (c_str p)), AInt n) # es @ hist s \<and> (\<forall>e\<in>set es. elsewhere (c_str p) e))"
  have "wp (mount_tmpfs os p) ?Q (\<lambda>a _. \<exists>x. a = Raise x) s"
    unfolding mount_tmpfs_def wp_bnd [of "find_mount os p"]
  proof (rule wp_mono [OF find_mount_outcome])
    fix found u
    assume "mount_found (c_str p) s found u"
    then show "wp (whenp (\<not> found) (bnd (sys_int os (Host (Mount ''tmpfs'' (c_str p)))) (\<lambda>r.
       ThrowCAPIExceptionIf (- 1 = r) ''mount tmpfs''))) ?Q (\<lambda>a _. \<exists>x. a = Raise x) u"
      by (cases found) (auto simp: mount_found_def emits_def wp)
  qed
  then show ?thesis
    using assms by (cases r) (auto dest: wpD wpD_abrupt)
qed

end
