(* ===== verification/ManagerLock.thy ===== *)
theory ManagerLock
  imports ManagerSafe Raises
begin

text \<open>
  The lock discipline of the manager: the registrations of running processes, the files of the
  directory \<open>tmpfs\<close>, are touched only under the lock, and no operation leaves the lock held.
\<close>

section \<open>The discipline\<close>

definition under_tmpfs :: "string \<Rightarrow> bool" where
  "under_tmpfs p \<longleftrightarrow> take (length tmpfs + 1) p = tmpfs @ ''/''"

text \<open>Locks by their strength: none, shared, exclusive.\<close>

fun strength :: "lockop \<Rightarrow> nat" where
  "strength LOCK_UN = 0"
| "strength LOCK_SH = 1"
| "strength LOCK_EX = 2"

instantiation lockop :: linorder
begin

definition less_eq_lockop :: "lockop \<Rightarrow> lockop \<Rightarrow> bool" where
  "less_eq_lockop a b \<longleftrightarrow> strength a \<le> strength b"

definition less_lockop :: "lockop \<Rightarrow> lockop \<Rightarrow> bool" where
  "less_lockop a b \<longleftrightarrow> strength a < strength b"

instance
proof
  fix a b :: lockop
  show "a \<le> b \<Longrightarrow> b \<le> a \<Longrightarrow> a = b"
    by (cases a; cases b) (simp_all add: less_eq_lockop_def)
qed (auto simp: less_eq_lockop_def less_lockop_def)

end

lemma lock_order [simp]:
  "LOCK_UN \<le> a" "a \<le> LOCK_EX" "LOCK_EX \<le> a \<longleftrightarrow> a = LOCK_EX" "LOCK_SH \<le> a \<longleftrightarrow> a \<noteq> LOCK_UN"
  by (cases a; simp add: less_eq_lockop_def)+

text \<open>
  The lock a call needs: removing and writing a registration the exclusive one, reading one and
  listing the directory a shared one. \<open>L\<close> is the descriptor of the lock file.
\<close>

definition needs :: "event \<Rightarrow> lockop" where
  "needs e = (case fst e of
      Unlink p \<Rightarrow> if under_tmpfs p then LOCK_EX else LOCK_UN
    | Fopen p how \<Rightarrow> if \<not> under_tmpfs p then LOCK_UN else if how = ''r'' then LOCK_SH else LOCK_EX
    | ListDir p \<Rightarrow> if p = tmpfs then LOCK_SH else LOCK_UN
    | _ \<Rightarrow> LOCK_UN)"

definition lock_ok :: "int \<Rightarrow> event \<Rightarrow> event list \<Rightarrow> bool" where
  "lock_ok L e h \<longleftrightarrow> needs e \<le> lock_state h \<and> (case fst e of Flock fd _ \<Rightarrow> fd = L | _ \<Rightarrow> True)"

lemma lock_okD:
  "lock_ok L e h \<Longrightarrow> (case fst e of
      Flock l _ \<Rightarrow> l = L
    | Unlink p \<Rightarrow> under_tmpfs p \<longrightarrow> lock_state h = LOCK_EX
    | Fopen p how \<Rightarrow> under_tmpfs p \<longrightarrow> lock_state h = LOCK_EX \<or> how = ''r'' \<and> lock_state h = LOCK_SH
    | ListDir p \<Rightarrow> p = tmpfs \<longrightarrow> lock_state h \<noteq> LOCK_UN
    | _ \<Rightarrow> True)"
  by (cases "fst e"; cases "lock_state h") (auto simp: lock_ok_def needs_def split: if_splits)

definition guarded :: "int \<Rightarrow> mgr \<Rightarrow> bool" where
  "guarded L s \<longleftrightarrow> lockfd s = L \<and> lock_state (hist s) = LOCK_UN \<and> all_events (lock_ok L) (hist s)"

definition lockless :: "event \<Rightarrow> bool" where
  "lockless e \<longleftrightarrow> needs e = LOCK_UN \<and> (case fst e of Flock _ _ \<Rightarrow> False | _ \<Rightarrow> True)"

lemma lockless_ok: "lockless e \<Longrightarrow> lock_ok L e h" "lockless e \<Longrightarrow> lock_state (e # h) = lock_state h"
  by (auto simp: lockless_def lock_ok_def split: call.splits)

interpretation guardedness: recording "keeps (guarded L)" lockless for L
proof (intro recording.intro recording_axioms.intro contract_keeps)
  fix e s n
  show "lockless e \<Longrightarrow> keeps (guarded L) s (s\<lparr>hist := e # hist s, errno := n\<rparr>)"
    by (simp add: keeps_def guarded_def lockless_ok del: lock_state.simps)
qed

named_theorems locks

lemmas locks_calls [locks] = guardedness.r_calls

lemma locks_modify [locks]:
  "(\<And>s. hist (f s) = hist s \<and> lockfd (f s) = lockfd s) \<Longrightarrow> obeys (keeps (guarded L)) (modify f)"
  by (auto intro!: obeysI simp: wp keeps_def guarded_def)

lemma lockless_simps [simp]:
  "lockless (Close fd, a)" "lockless (Rmdir p, a)" "lockless (Kill pid n, a)" "lockless (WaitPid, a)"
  "lockless (Clone b, a)" "lockless (Getppid, a)" "lockless (Signals, a)" "lockless (Sigaction n, a)"
  "lockless (Pdeathsig n, a)" "lockless (Write fd d, a)" "lockless (Read fd k, a)"
  "lockless (TimerfdCreate, a)" "lockless (TimerfdSettime fd n, a)" "lockless (EpollCtl ep x fd, a)"
  "lockless (EpollWait ep k n, a)" "lockless (EpollCreate, a)" "lockless (Exists p, a)"
  "lockless (IsDirectory p, a)" "lockless (CreateDirectories p, a)" "lockless (LastWriteTime p, a)"
  "lockless (Sleep n, a)" "lockless (ShutdownProtobuf, a)"
  by (simp_all add: lockless_def needs_def)

lemma output_event_lockless: "output_event e \<Longrightarrow> lockless e"
  by (auto simp: output_event_def lockless_def needs_def split: call.splits)

lemma guarded_emits: "emits lockless s t \<Longrightarrow> lockfd t = lockfd s \<Longrightarrow> guarded L s \<Longrightarrow> guarded L t"
proof -
  have state: "\<forall>e\<in>set es. lockless e \<Longrightarrow> lock_state (es @ h) = lock_state h" for es h
    by (induction es) (simp_all add: lockless_ok del: lock_state.simps)
  show "emits lockless s t \<Longrightarrow> lockfd t = lockfd s \<Longrightarrow> guarded L s \<Longrightarrow> guarded L t"
    by (auto simp: emits_def guarded_def state all_events_append(2) lockless_ok)
qed

lemma locks_output:
  assumes "obeys (emits output_event) m"
  shows "obeys (keeps (guarded L)) (with_out m)" "obeys (keeps (guarded L)) (with_err m)"
proof -
  have "obeys (emits lockless) m"
    by (rule emits_mono [OF assms output_event_lockless])
  then have m: "m s = Some (r, t) \<Longrightarrow> emits lockless s t" for s r t
    by (simp add: obeys_def)
  show "obeys (keeps (guarded L)) (with_out m)"
    by (rule obeys_keepsI)
      (auto simp: with_out_def wp view_out_def put_out_def intro!: wpI dest!: m
        elim!: guarded_emits [rotated 2] simp: emits_def)
  show "obeys (keeps (guarded L)) (with_err m)"
    by (rule obeys_keepsI)
      (auto simp: with_err_def wp view_err_def put_err_def intro!: wpI dest!: m
        elim!: guarded_emits [rotated 2] simp: emits_def)
qed

lemma locks_outputs [locks]:
  "obeys (keeps (guarded L)) (with_out (load os m path backend))"
  "obeys (keeps (guarded L)) (with_err (load os m path backend))"
  "obeys (keeps (guarded L)) (with_out (bind os ep))" "obeys (keeps (guarded L)) (with_err (bind os ep))"
  "obeys (keeps (guarded L)) (with_out (receive os ep))" "obeys (keeps (guarded L)) (with_err (receive os ep))"
  "obeys (keeps (guarded L)) (with_out destroy)" "obeys (keeps (guarded L)) (with_err destroy)"
  by (rule locks_output emit)+

section \<open>Locked sections\<close>

text \<open>
  A body that leaves only by an exception of C++ and whose events are allowed under the lock it
  runs under makes a locked section that keeps the discipline.
\<close>

definition allowed_under :: "lockop \<Rightarrow> event \<Rightarrow> bool" where
  "allowed_under op e \<longleftrightarrow> needs e \<le> op \<and> (case fst e of Flock _ _ \<Rightarrow> False | _ \<Rightarrow> True)"

lemma allowed_step:
  "op \<noteq> LOCK_UN \<Longrightarrow> allowed_under op e \<Longrightarrow> lock_state h = op \<Longrightarrow> lock_ok L e h \<and> lock_state (e # h) = op"
  by (cases "fst e") (simp_all add: allowed_under_def lock_ok_def)

lemma allowed_ok:
  assumes "op \<noteq> LOCK_UN" and "\<forall>e\<in>set es. allowed_under op e" and "lock_state h = op"
  shows "lock_state (es @ h) = op \<and> all_events (lock_ok L) (es @ h) = all_events (lock_ok L) h"
  using assms(2)
proof (induction es)
  case (Cons e es)
  then show ?case
    using allowed_step [OF assms(1), of e "es @ h" L] by (simp del: lock_state.simps)
qed (use assms(3) in simp)

lemma locks_locked:
  assumes "op \<noteq> LOCK_UN" and "obeys (emits (allowed_under op)) body" and "only_raises body"
    and same: "\<And>s r t. body s = Some (r, t) \<Longrightarrow> lockfd t = lockfd s"
  shows "obeys (keeps (guarded L)) (locked op body)"
proof (rule obeys_keepsI)
  fix s
  assume s: "guarded L s"
  let ?s = "s\<lparr>hist := (Flock L op, AUnit) # hist s\<rparr>"
  have held: "guarded L (t\<lparr>hist := (Flock L LOCK_UN, AUnit) # hist t\<rparr>)" and fd: "lockfd t = L"
    if run: "body ?s = Some (r, t)" for r t
  proof -
    obtain es where es: "hist t = es @ (Flock L op, AUnit) # hist s" "\<forall>e\<in>set es. allowed_under op e"
      using obeysD [OF assms(2) run] by (auto simp: emits_def)
    show fd: "lockfd t = L"
      using same [OF run] s by (simp add: guarded_def)
    have "lock_state (hist t) = op \<and> all_events (lock_ok L) (hist t)"
      using allowed_ok [OF assms(1) es(2), of "(Flock L op, AUnit) # hist s" L] s es(1)
      by (simp add: guarded_def lock_ok_def needs_def)
    then show "guarded L (t\<lparr>hist := (Flock L LOCK_UN, AUnit) # hist t\<rparr>)"
      using fd by (simp add: guarded_def lock_ok_def needs_def)
  qed
  have "wp body (\<lambda>x t. lockfd t = L \<and> guarded L (t\<lparr>hist := (Flock L LOCK_UN, AUnit) # hist t\<rparr>))
      (\<lambda>a t. (\<exists>e. a = Raise e) \<and> lockfd t = L \<and> guarded L (t\<lparr>hist := (Flock L LOCK_UN, AUnit) # hist t\<rparr>)) ?s"
    using assms(3) by (auto intro!: wpI held fd simp: only_raises_def)
  then show "wp (locked op body) (\<lambda>_. guarded L) (\<lambda>_. guarded L) s"
    using s by (auto simp: locked_def wp guarded_def [of L s] elim!: wp_mono)
qed

interpretation same_lockfd: recording "\<lambda>s t. lockfd t = lockfd (s :: mgr)" "\<lambda>_. True"
  by unfold_locales auto

lemma allowed_files:
  "file_event p ''w'' e \<Longrightarrow> allowed_under LOCK_EX e" "file_event p ''r'' e \<Longrightarrow> allowed_under LOCK_SH e"
  by (auto simp: file_event_def allowed_under_def needs_def split: call.splits)

lemma list_procs_props:
  "only_raises (list_procs os ps acc)" "obeys (emits (allowed_under LOCK_SH)) (list_procs os ps acc)"
  "obeys (\<lambda>s t. lockfd t = lockfd s) (list_procs os ps acc)"
proof (induction ps arbitrary: acc)
  case (Cons p ps)
  {
    case 1
    show ?case
      by (auto simp: last_write_time_def intro!: raises Cons split: option.split)
  next
    case 2
    show ?case
      by (auto simp: last_write_time_def intro!: Cons emit emission.r_read_file
          elim: allowed_files split: option.split) (simp add: allowed_under_def needs_def)
  next
    case 3
    show ?case
      by (auto simp: last_write_time_def intro!: Cons same_lockfd.r_calls same_lockfd.r_read_file split: option.split)
  }
qed (auto intro!: raises emit same_lockfd.r_calls)

lemma locks_sections [locks]:
  "obeys (keeps (guarded L)) (locked LOCK_EX (write_file os (proc_file pid) data))"
  "obeys (keeps (guarded L)) (locked LOCK_SH (bnd (sys_names os (ListDir tmpfs)) (\<lambda>ps. list_procs os ps [])))"
  "obeys (keeps (guarded L)) (stop_proc os proc)"
proof -
  show "obeys (keeps (guarded L)) (locked LOCK_EX (write_file os (proc_file pid) data))"
    using obeysD [OF same_lockfd.r_write_file [where path = "proc_file pid"]]
    by (intro locks_locked) (auto intro!: raises emission.r_write_file elim: allowed_files)
  have "obeys (\<lambda>s t. lockfd t = lockfd s) (bnd (sys_names os (ListDir tmpfs)) (\<lambda>ps. list_procs os ps []))"
    by (auto intro!: same_lockfd.r_calls list_procs_props)
  then show "obeys (keeps (guarded L)) (locked LOCK_SH (bnd (sys_names os (ListDir tmpfs)) (\<lambda>ps. list_procs os ps [])))"
    by (intro locks_locked) (auto intro!: raises emit list_procs_props simp: allowed_under_def needs_def dest: obeysD)
  show "obeys (keeps (guarded L)) (stop_proc os proc)"
    by (rule obeys_keepsI)
      (auto simp: stop_proc_def locked_def wp guarded_def lock_ok_def needs_def split: option.split)
qed

section \<open>The operations\<close>

lemma proc_file_under: "under_tmpfs (proc_file pid)"
  by (simp add: proc_file_def under_tmpfs_def tmpfs_def)

lemma cgroup_not_tmpfs: "\<not> under_tmpfs (cgroup_leaf pid @ x)"
  by (simp add: cgroup_leaf_def CGMemoryRoot_def under_tmpfs_def tmpfs_def)

lemma file_event_cgroup: "file_event (cgroup_leaf pid @ x) how e \<Longrightarrow> lockless e"
  by (auto simp: file_event_def lockless_def needs_def cgroup_not_tmpfs split: call.splits)

lemma locks_cgroup [locks]: "obeys (keeps (guarded L)) (write_file os (cgroup_leaf pid @ x) data)"
  by (rule guardedness.r_write_file) (erule file_event_cgroup)

lemma locks_clear_clonepid [locks]: "obeys (keeps (guarded L)) clear_clonepid"
  by (rule obeys_keepsI) (auto simp: clear_clonepid_def Let_def wp guarded_def lock_ok_def needs_def)

lemma locks_wait_child [locks]: "obeys (keeps (guarded L)) (wait_child os)"
  by (rule obeys_wait_child [OF contract_keeps])
    (auto simp: wait_step_def reaped_def args0_def intro!: locks split: wstatus.split list.split)

lemma locks_read_all [locks]: "obeys (keeps (guarded L)) (read_all os data)"
  by (rule obeys_read_all [OF contract_keeps]) (auto intro!: locks)

lemma locks_load_request [locks]: "obeys (keeps (guarded L)) (load_request g keyfiles)"
  by (auto simp: obeys_def load_request_def keeps_def guarded_def split: option.splits)

lemma locks_search_paths [locks]: "obeys (keeps (guarded L)) (search_paths os cmd ps)"
  by (induction ps) (auto simp: is_command_def intro!: locks)

lemma locks_ops [locks]:
  "obeys (keeps (guarded L)) args0" "obeys (keeps (guarded L)) close_connection"
  "obeys (keeps (guarded L)) close_epollfd" "obeys (keeps (guarded L)) close_timerfd"
  "obeys (keeps (guarded L)) signal_register" "obeys (keeps (guarded L)) (sigterm_handler os p)"
  "obeys (keeps (guarded L)) (exit_process n)" "obeys (keeps (guarded L)) (send_message os m)"
  "obeys (keeps (guarded L)) (set_timeout os)" "obeys (keeps (guarded L)) (is_command os path)"
  "obeys (keeps (guarded L)) (limit_memory os pid)" "obeys (keeps (guarded L)) stop_child"
  "obeys (keeps (guarded L)) (clone_child os)"
  by (auto simp: args0_def close_connection_def close_epollfd_def close_timerfd_def signal_register_def
      sigterm_handler_def exit_process_def send_message_def set_timeout_def is_command_def
      limit_memory_def write_limits_def write_limit_def stop_child_def clone_child_def Let_def
      intro!: locks split: list.split option.split)

lemma locks_ops2 [locks]:
  "obeys (keeps (guarded L)) (read_process_stop os)" "obeys (keeps (guarded L)) (send_response os r)"
  "obeys (keeps (guarded L)) (find_command os)" "obeys (keeps (guarded L)) (receive_list os)"
  "obeys (keeps (guarded L)) (check_client os)" "obeys (keeps (guarded L)) (manager_setup os fd)"
  "obeys (keeps (guarded L)) (receive_stop os procs)" "obeys (keeps (guarded L)) connection_closed"
  "obeys (keeps (guarded L)) timer_expired" "obeys (keeps (guarded L)) (manager_destroy os)"
  by (auto simp: read_process_stop_def send_response_def find_command_def receive_list_def
      check_client_def manager_setup_def receive_stop_def connection_closed_def timer_expired_def
      manager_destroy_def intro!: locks split: list.split)

lemma locks_handle_request [locks]: "obeys (keeps (guarded L)) (handle_request os data)"
  by (auto simp: handle_request_def launch_def intro!: locks)

lemma locks_recv_message [locks]: "obeys (keeps (guarded L)) (recv_message os g keyfiles)"
  by (auto simp: recv_message_def handle_message_def receive_exe_def intro!: locks
      split: option.split msgmethod.split)

lemma locks_iteration: "obeys (keeps (guarded L)) (iteration os g keyfiles)"
  by (auto simp: iteration_def deal_with_exit_def dispatch_def intro!: locks)

lemma locks_manager_start: "obeys (keeps (guarded L)) (manager_start os g keyfiles fd)"
  unfolding manager_start_def
  by (intro locks obeys_manager_loop contract_keeps locks_iteration)


end
