(* ===== verification/ManagerChild.thy ===== *)
theory ManagerChild
  imports ManagerRequest
begin

text \<open>
  The child process, \<^verbatim>\<open>execute\<close> of \<^verbatim>\<open>manager.cpp\<close>: between \<^verbatim>\<open>clone\<close> and \<^verbatim>\<open>execv\<close> it redirects the
  outputs, becomes the user of the request, changes directory, sets the environment; and it never
  returns into the code of the manager.
\<close>

section \<open>The environment\<close>

definition env_event :: "string \<Rightarrow> event list" where
  "env_event e = (case find_first_of CHR ''='' e of
     None \<Rightarrow> [] | Some pos \<Rightarrow> [(Setenv (c_str (take pos e)) (c_str (drop (pos + 1) e)), AUnit)])"

definition env_events :: "string list \<Rightarrow> event list" where
  "env_events envs = concat (rev (map env_event envs))"

lemma wp_set_env: "wp (set_env e) Q E s = Q () (s\<lparr>hist := env_event e @ hist s\<rparr>)"
  by (auto simp: set_env_def env_event_def wp split: option.split)

lemma wp_set_envs: "wp (for_each envs set_env) Q E s = Q () (s\<lparr>hist := env_events envs @ hist s\<rparr>)"
  by (induction envs arbitrary: s) (simp_all add: wp wp_set_env env_events_def)

text \<open>
  An entry of \<^verbatim>\<open>envs\<close> is split at its first equals sign: the name before it contains none, the
  value is everything after it, further equals signs included; an entry without one sets nothing.
\<close>

lemma set_env_splits:
  assumes "CHR 0x00 \<notin> set e"
  shows "if CHR ''='' \<in> set e
    then \<exists>name val. e = name @ CHR ''='' # val \<and> CHR ''='' \<notin> set name \<and>
      set_env e s = Some (Inr (), s\<lparr>hist := (Setenv name val, AUnit) # hist s\<rparr>)
    else set_env e s = Some (Inr (), s)"
proof (cases "find_first_of CHR ''='' e")
  case None
  then show ?thesis
    using find_first_of_None [of "CHR ''=''" e] by (simp add: set_env_def ret_def)
next
  case (Some pos)
  note split = find_first_of_Some [OF Some]
  then have "CHR ''='' \<in> set e"
    by (metis nth_mem)
  have "CHR 0x00 \<notin> set (take pos e)" "CHR 0x00 \<notin> set (drop (pos + 1) e)"
    using assms by (auto dest: in_set_takeD in_set_dropD)
  then have "set_env e s = Some (Inr (), s\<lparr>hist := (Setenv (take pos e) (drop (pos + 1) e), AUnit) # hist s\<rparr>)"
    by (simp add: set_env_def Some sys_do_def record_call_def modify_def c_str_id)
  then have "\<exists>name val. e = name @ CHR ''='' # val \<and> CHR ''='' \<notin> set name \<and>
      set_env e s = Some (Inr (), s\<lparr>hist := (Setenv name val, AUnit) # hist s\<rparr>)"
    using split by blast
  then show ?thesis
    using \<open>CHR ''='' \<in> set e\<close> by simp
qed

section \<open>Becoming the user\<close>

definition user_of :: "request \<Rightarrow> string" where
  "user_of rq = (if rq_user rq = [] then ''nobody'' else rq_user rq)"

definition is_execv :: "event \<Rightarrow> bool" where
  "is_execv e \<longleftrightarrow> (case fst e of Execv _ _ \<Rightarrow> True | _ \<Rightarrow> False)"

text \<open>The record of a child that reached \<^verbatim>\<open>execv\<close>, newest first; \<open>before\<close> are the redirections.\<close>

definition child_record :: "request \<Rightarrow> int \<Rightarrow> int \<Rightarrow> int \<Rightarrow> event list \<Rightarrow> event list" where
  "child_record rq uid gid n before =
     (Execv (c_str (hd (rq_args rq))) (map c_str (rq_args rq)), AInt n) # env_events (rq_envs rq) @
     [(Nice (rq_nice rq), AUnit), (Pdeathsig SIGTERM, AUnit)] @
     (if rq_chroot rq = [] then [] else [(Chdir (c_str (rq_chroot rq)), AInt 0)]) @
     [(Setuid uid, AInt 0), (Setgid gid, AInt 0), (Getpwnam (c_str (user_of rq)), APasswd (Some (uid, gid)))] @ before"

text \<open>How a child ends.\<close>

definition child_ends :: "mgr \<Rightarrow> abrupt \<Rightarrow> mgr \<Rightarrow> bool" where
  "child_ends s a t \<longleftrightarrow> (\<exists>es. hist t = es @ hist s \<and>
     (if \<exists>e\<in>set es. is_execv e
      then \<exists>uid gid n before. es = child_record (request s) uid gid n before \<and> (\<forall>e\<in>set before. output_event e) \<and>
        rq_args (request s) \<noteq> [] \<and> a = (if n = - 1 then Abort else Replaced)
      else a = Exit (- 1) \<or> a = Undefined \<and> rq_args (request s) = []))"

lemma child_endsI:
  assumes "hist t = child_record (request s) uid gid n before @ hist s" and "rq_args (request s) \<noteq> []"
    and "\<forall>e\<in>set before. output_event e" and "a = (if n = - 1 then Abort else Replaced)"
  shows "child_ends s a t"
proof -
  have "\<exists>e\<in>set (child_record (request s) uid gid n before). is_execv e"
    by (simp add: child_record_def is_execv_def)
  then show ?thesis
    unfolding child_ends_def using assms by (intro exI [of _ "child_record (request s) uid gid n before"]) auto
qed

lemma is_execv_simps [simp]:
  "is_execv (Execv p args, a)" "\<not> is_execv (Nice n, a)" "\<not> is_execv (Pdeathsig n, a)"
  "\<not> is_execv (Chdir d, a)" "\<not> is_execv (Setuid n, a)" "\<not> is_execv (Setgid n, a)"
  "\<not> is_execv (Getpwnam d, a)" "\<not> is_execv (Setenv d v, a)"
  by (simp_all add: is_execv_def)

lemma output_not_execv: "output_event e \<Longrightarrow> \<not> is_execv e"
  by (auto simp: output_event_def is_execv_def split: call.splits)

lemma outputs_emit:
  assumes "obeys (emits output_event) m"
  shows "obeys (\<lambda>s t. emits output_event s t \<and> request t = request s) (with_out m)"
    "obeys (\<lambda>s t. emits output_event s t \<and> request t = request s) (with_err m)"
  using assms
  by (fastforce simp: obeys_def with_out_def with_err_def zoom_def view_out_def put_out_def
      view_err_def put_err_def emits_def split: option.splits)+

definition redirected :: "mgr \<Rightarrow> mgr \<Rightarrow> bool" where
  "redirected s t \<longleftrightarrow> emits output_event s t \<and> request t = request s"

interpretation redirection: contract redirected
  by unfold_locales (auto simp: redirected_def emission.R_refl intro: emission.R_trans)

lemma redirected_outputs:
  "obeys (emits output_event) m \<Longrightarrow> obeys redirected (with_out m)"
  "obeys (emits output_event) m \<Longrightarrow> obeys redirected (with_err m)"
  using outputs_emit [of m] by (simp_all add: redirected_def [abs_def])

lemma exit_ends:
  assumes "hist t = es @ hist s" and "\<forall>e\<in>set es. \<not> is_execv e"
  shows "wp (exit_process (- 1)) Q (child_ends s) t"
proof -
  have "wp (seq (with_err destroy) (with_out destroy)) (\<lambda>_. redirected t) (\<lambda>_ _. False) t"
  proof -
    have "obeys redirected (seq (with_err destroy) (with_out destroy))"
      by (intro redirection.r_seq redirected_outputs emit)
    then have "wp (seq (with_err destroy) (with_out destroy)) (\<lambda>_. redirected t) (\<lambda>_. redirected t) t"
      by (rule obeys_wp)
    moreover have "wp (seq (with_err destroy) (with_out destroy)) (\<lambda>_ _. True) (\<lambda>_ _. False) t"
      by (simp add: with_err_def with_out_def destroy_def close_pipe0_def close_pipe1_def close_redirect_def wp)
    ultimately have "wp (seq (with_err destroy) (with_out destroy)) (\<lambda>x u. redirected t u \<and> True) (\<lambda>a u. redirected t u \<and> False) t"
      by (simp only: wp_conj)
    then show ?thesis
      by simp
  qed
  moreover have "child_ends s (Exit (- 1)) u" if "redirected t u" for u
  proof -
    from that obtain es' where "hist u = es' @ hist t" "\<forall>e\<in>set es'. output_event e"
      by (auto simp: redirected_def emits_def)
    then show ?thesis
      unfolding child_ends_def using assms
      by (intro exI [of _ "es' @ es"]) (auto dest: output_not_execv)
  qed
  ultimately show ?thesis
    unfolding exit_process_def seq_assoc [symmetric] wp_seq [of "seq _ _"] wp_halt by (rule wp_mono) simp_all
qed

text \<open>The part after the redirections.\<close>

definition become_user :: "os \<Rightarrow> (mgr, unit) prog" where
  "become_user os = seq (modify (\<lambda>s. s\<lparr>request := (request s)\<lparr>rq_user :=
             (if rq_user (request s) = [] then ''nobody'' else rq_user (request s))\<rparr>\<rparr>))
     (bnd (get request) (\<lambda>rq.
      seq (drop_privileges os (rq_user rq))
      (seq (whenp (rq_chroot rq \<noteq> [])
         (bnd (sys_int os (Chdir (c_str (rq_chroot rq)))) (\<lambda>r.
          ThrowCAPIExceptionIf (0 \<noteq> r) (''chroot '' @ rq_chroot rq))))
      (seq (sys_do (Pdeathsig SIGTERM))
      (seq (sys_do (Nice (rq_nice rq)))
      (seq (for_each (rq_envs rq) set_env)
        (run_command os (rq_args rq))))))))"

lemma execute_eq:
  "execute os = try_catch (seq (with_out (dup os 1)) (seq (with_err (dup os 2)) (become_user os)))
     (\<lambda>_. exit_process (- 1))"
  by (simp add: execute_def become_user_def)

definition run_ends :: "mgr \<Rightarrow> event list \<Rightarrow> abrupt \<Rightarrow> mgr \<Rightarrow> bool" where
  "run_ends s before a t \<longleftrightarrow> (case a of
      Raise _ \<Rightarrow> \<exists>es. hist t = es @ before @ hist s \<and> (\<forall>e\<in>set es. \<not> is_execv e)
    | Undefined \<Rightarrow> (\<exists>es. hist t = es @ before @ hist s \<and> (\<forall>e\<in>set es. \<not> is_execv e)) \<and> rq_args (request s) = []
    | Exit _ \<Rightarrow> False
    | _ \<Rightarrow> \<exists>uid gid n. hist t = child_record (request s) uid gid n before @ hist s \<and>
        rq_args (request s) \<noteq> [] \<and> a = (if n = - 1 then Abort else Replaced))"

lemma env_events_not_execv: "\<forall>e\<in>set (env_events envs). \<not> is_execv e"
  by (auto simp: env_events_def env_event_def split: option.splits)

lemma run_endsI:
  "hist t = es @ before @ hist s \<Longrightarrow> \<forall>e\<in>set es. \<not> is_execv e \<Longrightarrow> run_ends s before (Raise e) t"
  "hist t = es @ before @ hist s \<Longrightarrow> \<forall>e\<in>set es. \<not> is_execv e \<Longrightarrow> rq_args (request s) = [] \<Longrightarrow>
     run_ends s before Undefined t"
  "hist t = child_record (request s) uid gid n before @ hist s \<Longrightarrow> rq_args (request s) \<noteq> [] \<Longrightarrow>
     run_ends s before (if n = - 1 then Abort else Replaced) t"
  unfolding run_ends_def by auto

lemma run_part_ends:
  assumes "hist t = (if rq_chroot (request s) = [] then [] else [(Chdir (c_str (rq_chroot (request s))), AInt 0)]) @
      [(Setuid uid, AInt 0), (Setgid gid, AInt 0), (Getpwnam (c_str (user_of (request s))), APasswd (Some (uid, gid)))] @
      before @ hist s" and "rq = (request s)\<lparr>rq_user := user\<rparr>"
  shows "wp (seq (sys_do (Pdeathsig SIGTERM)) (seq (sys_do (Nice (rq_nice rq)))
      (seq (for_each (rq_envs rq) set_env) (run_command os (rq_args rq))))) Q (run_ends s before) t"
proof (cases "rq_args rq")
  case Nil
  show ?thesis
    by (simp add: wp wp_set_envs run_command_def Nil, rule run_endsI(2))
      (use assms Nil env_events_not_execv in \<open>auto split: if_splits\<close>)
next
  case (Cons a args)
  let ?u = "(Nice (rq_nice rq), AUnit) # (Pdeathsig SIGTERM, AUnit) # hist t"
  let ?n = "int_of os (env_events (rq_envs rq) @ ?u) (Execv (c_str a) (map c_str (rq_args rq)))"
  have "run_ends s before (if ?n = - 1 then Abort else Replaced) v"
    if "hist v = (Execv (c_str a) (map c_str (rq_args rq)), AInt ?n) # env_events (rq_envs rq) @ ?u" for v
    by (rule run_endsI(3) [where uid = uid and gid = gid]) (use that assms Cons in \<open>simp_all add: child_record_def\<close>)
  then show ?thesis
    by (cases "?n = - 1") (simp_all add: wp wp_set_envs run_command_def Cons)
qed

text \<open>The steps that may fail: becoming the user and changing the directory.\<close>

definition entering :: "os \<Rightarrow> request \<Rightarrow> (mgr, unit) prog" where
  "entering os rq = seq (drop_privileges os (rq_user rq)) (whenp (rq_chroot rq \<noteq> [])
     (bnd (sys_int os (Chdir (c_str (rq_chroot rq)))) (\<lambda>r.
      ThrowCAPIExceptionIf (0 \<noteq> r) (''chroot '' @ rq_chroot rq))))"

lemma entering_wp:
  "wp (entering os rq)
     (\<lambda>_ t. \<exists>uid gid. hist t = (if rq_chroot rq = [] then [] else [(Chdir (c_str (rq_chroot rq)), AInt 0)]) @
       [(Setuid uid, AInt 0), (Setgid gid, AInt 0), (Getpwnam (c_str (rq_user rq)), APasswd (Some (uid, gid)))] @ hist s)
     (\<lambda>a t. \<exists>e es. a = Raise e \<and> hist t = es @ hist s \<and> (\<forall>e\<in>set es. \<not> is_execv e)) s"
  (is "wp _ ?Q _ _")
proof -
  have "wp (entering os rq) ?Q (\<lambda>_ _. True) s"
    by (auto simp: entering_def drop_privileges_def wp Let_def split: option.split)
  moreover have "wp (entering os rq) (\<lambda>_ _. True) (\<lambda>a _. \<exists>e. a = Raise e) s"
    by (auto simp: entering_def drop_privileges_def wp Let_def split: option.split)
  moreover have "obeys (emits (\<lambda>e. \<not> is_execv e)) (entering os rq)"
    by (auto simp: entering_def drop_privileges_def intro!: emit split: option.split)
  ultimately show ?thesis
    by (fastforce simp: wp_def obeys_def emits_def split: option.splits sum.splits)
qed

lemma become_user_ends:
  assumes "hist t = before @ hist s" and "request t = request s"
  shows "wp (become_user os) Q (run_ends s before) t"
proof -
  let ?rq = "(request s)\<lparr>rq_user := user_of (request s)\<rparr>"
  let ?run = "seq (sys_do (Pdeathsig SIGTERM)) (seq (sys_do (Nice (rq_nice ?rq)))
    (seq (for_each (rq_envs ?rq) set_env) (run_command os (rq_args ?rq))))"
  have "become_user os t = seq (entering os ?rq) ?run (t\<lparr>request := ?rq\<rparr>)"
    by (simp add: become_user_def entering_def seq_assoc seq_def [of "modify _"] bnd_def modify_def get_def assms user_of_def)
  moreover have "wp (seq (entering os ?rq) ?run) Q (run_ends s before) (t\<lparr>request := ?rq\<rparr>)"
    unfolding wp_seq [of "entering os ?rq"]
  proof (rule wp_mono [OF entering_wp], elim exE)
    fix x uid gid and u :: mgr
    assume "hist u = (if rq_chroot ?rq = [] then [] else [(Chdir (c_str (rq_chroot ?rq)), AInt 0)]) @
      [(Setuid uid, AInt 0), (Setgid gid, AInt 0), (Getpwnam (c_str (rq_user ?rq)), APasswd (Some (uid, gid)))] @
      hist (t\<lparr>request := ?rq\<rparr>)"
    then show "wp ?run Q (run_ends s before) u"
      by (intro run_part_ends [OF _ refl]) (simp add: assms(1))
  qed (use assms(1) in \<open>auto intro: run_endsI(1)\<close>)
  ultimately show ?thesis
    by (simp add: wp_def)
qed

lemma returns_execute: "returns (execute os) s"
  by (auto simp: execute_def drop_privileges_def run_command_def set_env_def exit_process_def
      intro!: returns split: option.split list.split)

lemma become_user_child:
  assumes "redirected s t"
  shows "wp (become_user os) (\<lambda>_ _. False)
    (\<lambda>a u. case a of Raise e \<Rightarrow> wp (exit_process (- 1)) (\<lambda>_ _. False) (child_ends s) u | _ \<Rightarrow> child_ends s a u) t"
proof -
  obtain before where before: "hist t = before @ hist s" "\<forall>e\<in>set before. output_event e" "request t = request s"
    using assms by (auto simp: redirected_def emits_def)
  then have none: "\<forall>e\<in>set before. \<not> is_execv e"
    by (auto dest: output_not_execv)
  have "case a of Raise e \<Rightarrow> wp (exit_process (- 1)) (\<lambda>_ _. False) (child_ends s) u | _ \<Rightarrow> child_ends s a u"
    if "run_ends s before a u" for a u
  proof (cases a)
    case (Raise e)
    with that obtain es where "hist u = (es @ before) @ hist s" "\<forall>e\<in>set es. \<not> is_execv e"
      by (auto simp: run_ends_def)
    then show ?thesis
      using Raise none by (auto intro!: exit_ends)
  next
    case Undefined
    with that obtain es where "hist u = (es @ before) @ hist s" "\<forall>e\<in>set es. \<not> is_execv e" "rq_args (request s) = []"
      by (auto simp: run_ends_def)
    then show ?thesis
      using Undefined none unfolding child_ends_def by (auto intro!: exI [of _ "es @ before"])
  qed (use that before(2) in \<open>auto simp: run_ends_def intro: child_endsI split: if_splits\<close>)
  then show ?thesis
    using become_user_ends [OF before(1,3), of os "\<lambda>_ _. False"] by (rule wp_mono [rotated 2]) simp_all
qed

text \<open>
  C13: the child runs the command as the user of the request or not at all. It never returns and no
  exception leaves it. If it reached \<^verbatim>\<open>execv\<close>, its record is exactly this: the output redirections,
  \<^verbatim>\<open>getpwnam\<close> of the user (\<^verbatim>\<open>nobody\<close> when none is named), a successful \<^verbatim>\<open>setgid\<close> and then a successful
  \<^verbatim>\<open>setuid\<close> to what that answered, a successful \<^verbatim>\<open>chdir\<close> if a directory is asked for, the parent death
  signal, the priority, the environment in order, and \<^verbatim>\<open>execv\<close> of the command with its arguments; a
  failing \<^verbatim>\<open>execv\<close> aborts. Otherwise it ends by \<^verbatim>\<open>exit(-1)\<close> (with no arguments: undefined).
\<close>

theorem execute_drops_privileges:
  "\<exists>a t es. execute os s = Some (Inl a, t) \<and> hist t = es @ hist s \<and>
     (if \<exists>e\<in>set es. is_execv e
      then \<exists>uid gid n before. es = child_record (request s) uid gid n before \<and> (\<forall>e\<in>set before. output_event e) \<and>
        rq_args (request s) \<noteq> [] \<and> a = (if n = - 1 then Abort else Replaced)
      else a = Exit (- 1) \<or> a = Undefined \<and> rq_args (request s) = [])"
proof -
  have redirect: "obeys redirected (with_out (dup os 1))" "obeys redirected (with_err (dup os 2))"
    by (intro redirected_outputs emit)+
  have normal: "wp (with_err (dup os 2)) R (\<lambda>_ _. False) v \<longleftrightarrow> wp (with_err (dup os 2)) R F v"
    "wp (with_out (dup os 1)) R (\<lambda>_ _. False) v \<longleftrightarrow> wp (with_out (dup os 1)) R F v" for R F v
    by (simp_all add: with_out_def with_err_def dup_def close_pipe0_def wp)
  have step: "wp m (\<lambda>_. redirected s) F t"
    if "obeys redirected m" "\<And>R G. wp m R (\<lambda>_ _. False) t \<longleftrightarrow> wp m R G t" "redirected s t" for m :: "(mgr, unit) prog" and F t
  proof -
    have "wp m (\<lambda>_ u. redirected s u) (\<lambda>_ _. True) t"
      by (rule wp_mono [OF obeys_wp [OF that(1)]]) (auto intro: redirection.R_trans [OF that(3)])
    then show ?thesis
      using that(2) by blast
  qed
  have "wp (execute os) (\<lambda>_ _. False) (child_ends s) s"
    unfolding execute_eq wp_try_catch wp_seq
    by (rule wp_mono [OF step [OF redirect(1) normal(2) redirection.R_refl]], rule wp_mono [OF step [OF redirect(2) normal(1)]])
      (auto intro: become_user_child)
  from wp_total [OF returns_execute this] show ?thesis
    unfolding child_ends_def by blast
qed

end
