(* ===== verification/ManagerLife.thy ===== *)
theory ManagerLife
  imports ManagerSafe
begin

text \<open>
  What a manager does about its commands, as an abstract machine: no command yet, the command with
  a process number running, or ended. The machine reads the record of calls. Every run of
  \<^verbatim>\<open>manager_start\<close> is one of its runs, and \<^verbatim>\<open>child_status\<close> and \<^verbatim>\<open>clonepid\<close> are its state.
\<close>

section \<open>The machine\<close>

datatype stage = Idle | Running int | Ended int

fun is_running :: "stage \<Rightarrow> bool" where
  "is_running (Running _) = True"
| "is_running _ = False"

text \<open>
  A command is started only while none runs; it ends when its own process is reaped; files are
  written only for the running command, and only its own; a registration and a control group are
  removed only of the command that ended. The other calls do not concern the machine.
\<close>

inductive life_step :: "stage \<Rightarrow> event \<Rightarrow> stage \<Rightarrow> bool" where
  started: "n > 0 \<Longrightarrow> \<not> is_running l \<Longrightarrow> life_step l (Clone net, AInt n) (Running n)"
| not_started: "\<not> is_running l \<Longrightarrow> life_step l (Clone net, AInt (- 1)) l"
| reaped_own: "life_step (Running n) (WaitPid, AWait n w) (Ended n)"
| reaped_other: "l \<noteq> Running p \<Longrightarrow> life_step l (WaitPid, AWait p w) l"
| wrote: "own_file n path \<Longrightarrow> life_step (Running n) (Fopen path ''w'', a) (Running n)"
| unregistered: "life_step (Ended n) (Unlink (proc_file n), a) (Ended n)"
| ungrouped: "life_step (Ended n) (Rmdir (cgroup_leaf n), a) (Ended n)"
| unconcerned: "neutral e \<Longrightarrow> life_step l e l"
| signalled: "life_step l (Kill p sig, a) l"

text \<open>A run, from the record \<open>h0\<close> with which the manager starts.\<close>

inductive life_run :: "event list \<Rightarrow> event list \<Rightarrow> stage \<Rightarrow> bool" for h0 where
  begun: "life_run h0 h0 Idle"
| went: "life_run h0 h l \<Longrightarrow> life_step l e l' \<Longrightarrow> life_run h0 (e # h) l'"

lemma life_run_stays: "life_run h0 h l \<Longrightarrow> \<forall>e\<in>set es. life_step l e l \<Longrightarrow> life_run h0 (es @ h) l"
  by (induction es) (auto intro: went)

lemma not_neutral [simp]:
  "\<not> neutral (Clone net, a)" "\<not> neutral (WaitPid, a)" "\<not> neutral (Unlink p, a)" "\<not> neutral (Rmdir p, a)"
  "\<not> neutral (Kill k sig, a)"
  by (simp_all add: neutral_def plain_def)

text \<open>The machine's state, as the manager's variables have it.\<close>

definition pictured :: "mgr \<Rightarrow> stage \<Rightarrow> bool" where
  "pictured s l \<longleftrightarrow> (case (child_status s, l) of
      (NO_PROC, Idle) \<Rightarrow> clonepid s \<le> 0
    | (PROC_RUNNING, Running n) \<Rightarrow> clonepid s = n \<and> n > 0
    | (PROC_EXIT, Ended n) \<Rightarrow> clonepid s > 0 \<longrightarrow> clonepid s = n
    | _ \<Rightarrow> False)"

lemma pictured_simps [simp]:
  "pictured s Idle \<longleftrightarrow> child_status s = NO_PROC \<and> clonepid s \<le> 0"
  "pictured s (Running n) \<longleftrightarrow> child_status s = PROC_RUNNING \<and> clonepid s = n \<and> n > 0"
  "pictured s (Ended n) \<longleftrightarrow> child_status s = PROC_EXIT \<and> (clonepid s > 0 \<longrightarrow> clonepid s = n)"
  by (auto simp: pictured_def split: pstatus.splits)

lemma pictured_cong:
  "clonepid t = clonepid s \<Longrightarrow> child_status t = child_status s \<Longrightarrow> pictured t l = pictured s l"
  by (cases l) simp_all

lemma pictured_hist [simp]: "pictured (s\<lparr>hist := h\<rparr>) l = pictured s l"
  by (rule pictured_cong) simp_all

definition tracked :: "event list \<Rightarrow> mgr \<Rightarrow> bool" where
  "tracked h0 s \<longleftrightarrow> (\<exists>l. life_run h0 (hist s) l \<and> pictured s l)"

lemma trackedI: "life_run h0 (hist s) l \<Longrightarrow> pictured s l \<Longrightarrow> tracked h0 s"
  by (auto simp: tracked_def)

lemma tracked_ended:
  "life_run h0 (hist s) (Ended n) \<Longrightarrow> child_status s = PROC_EXIT \<Longrightarrow> clonepid s = n \<or> clonepid s = 0 \<Longrightarrow>
   tracked h0 s"
  by (rule trackedI) auto

section \<open>The program follows it\<close>

lemma tracked_steady:
  assumes "steady (\<lambda>e. life_step l e l) s t" and "life_run h0 (hist s) l" and "pictured s l"
  shows "tracked h0 t"
proof (rule trackedI)
  show "life_run h0 (hist t) l"
    using assms(1,2) by (auto simp: steady_def emits_def intro: life_run_stays)
  show "pictured t l"
    using assms(1,3) pictured_cong [of t s l] by (simp add: steady_def)
qed

lemma own_file_event:
  assumes "own_file n path" and "file_event path ''w'' e"
  shows "life_step (Running n) e (Running n)"
proof (cases "\<exists>a. e = (Fopen (c_str path) ''w'', a)")
  case True
  moreover have "own_file n (c_str path)"
    using assms(1) by (auto simp: own_file_def)
  ultimately show ?thesis
    by (auto intro: wrote)
next
  case False
  then have "neutral e"
    using assms(2) by (cases e; cases "fst e") (auto simp: file_event_def neutral_def plain_def)
  then show ?thesis
    by (rule unconcerned)
qed

lemma tracked_wait_step: "obeys (keeps (tracked h0)) (wait_step os)"
proof (rule obeys_keepsI)
  fix s
  assume "tracked h0 s"
  then obtain l where l: "life_run h0 (hist s) l" "pictured s l"
    by (auto simp: tracked_def)
  obtain p w where answer: "wait_of os (hist s) = (p, w)"
    by (cases "wait_of os (hist s)")
  let ?h = "(WaitPid, AWait p w) # hist s"
  show "wp (wait_step os) (\<lambda>_. tracked h0) (\<lambda>_. tracked h0) s"
  proof (cases "p > 0 \<and> clonepid s = p")
    case False
    then have "life_step l (WaitPid, AWait p w) l"
      using l(2) by (cases l) (auto intro: reaped_other)
    then have "tracked h0 (s\<lparr>hist := ?h\<rparr>)"
      using l by (intro trackedI [of _ _ l]) (auto intro: went)
    then show ?thesis
      using False answer by (auto simp: wait_step_def reaped_def wp)
  next
    case True
    let ?p = "clonepid s"
    have answer': "wait_of os (hist s) = (?p, w)" "?p > 0"
      using True answer by simp_all
    have ended: "life_run h0 ((WaitPid, AWait ?p v) # hist s) (Ended ?p)" for v
      using l True by (cases l) (auto intro: went reaped_own reaped_other)
    have gone: "life_run h0 ((Rmdir (cgroup_leaf ?p), a) # (Flock k LOCK_UN, b) # (Unlink (proc_file ?p), c) #
        (Flock k LOCK_EX, d) # (WaitPid, AWait ?p v) # hist s) (Ended ?p)" for a b c d k v
      by (rule went [OF _ ungrouped], rule went [OF _ unconcerned], rule went [OF _ unregistered],
          rule went [OF _ unconcerned], rule ended) simp_all
    have "c_str (cgroup_leaf ?p) = cgroup_leaf ?p"
      by (rule c_str_id) (rule path_text)
    then show ?thesis
      using answer'
      by (cases w; cases "rq_args (request s)")
        (auto simp: wait_step_def reaped_def args0_def clear_clonepid_def wp Let_def
          intro!: tracked_ended [where n = ?p] gone ended)
  qed
qed

lemma tracked_start_child:
  assumes "clone_pids os" and "tracked h0 s" and "clonepid s \<le> 0"
  shows "wp (start_child os data) (\<lambda>_. tracked h0) (\<lambda>_. tracked h0) s"
proof -
  obtain l where l: "life_run h0 (hist s) l" "pictured s l"
    using assms(2) by (auto simp: tracked_def)
  have free: "\<not> is_running l"
    using l(2) assms(3) by (cases l) auto
  have tail: "wp (seq (limit_memory os n) (locked LOCK_EX (write_file os (proc_file n) data)))
      (\<lambda>_. tracked h0) (\<lambda>_. tracked h0) t"
    if "life_run h0 (hist t) (Running n)" "pictured t (Running n)" for n t
    by (rule wp_mono [OF obeys_wp [OF still_own_files [where P = "\<lambda>e. life_step (Running n) e (Running n)"]]])
      (use that in \<open>auto intro: unconcerned own_file_event tracked_steady\<close>)
  let ?c = "Clone (\<not> rq_network (request s))"
  have pid: "int_of os (hist s) ?c = - 1 \<or> int_of os (hist s) ?c > 0"
    using assms(1) by (simp add: clone_pids_def)
  have failed: "tracked h0 t"
    if "hist t = (?c, AInt (- 1)) # hist s" "clonepid t = - 1" "child_status t = child_status s" for t
  proof (rule trackedI)
    show "life_run h0 (hist t) l"
      unfolding that(1) by (rule went [OF l(1)], rule not_started, rule free)
    show "pictured t l"
      using that l(2) free by (cases l) auto
  qed
  have "wp (clone_child os) (\<lambda>n t. life_run h0 (hist t) (Running n) \<and> pictured t (Running n)) (\<lambda>_. tracked h0) s"
    using pid l free by (auto simp: clone_child_def wp intro!: failed intro: went [OF l(1)] started)
  then show ?thesis
    unfolding start_child_def wp_bnd by (rule wp_mono) (auto intro: tail)
qed

interpretation tracking: manager_invariant os "tracked h0" for os h0
proof unfold_locales
  fix s t :: mgr
  show "steady neutral s t \<Longrightarrow> tracked h0 s \<Longrightarrow> tracked h0 t"
    by (auto simp: tracked_def [of _ s] steady_def emits_def intro!: tracked_steady [of _ s t] unconcerned)
  have kill: "tracked h0 s \<Longrightarrow> tracked h0 (s\<lparr>hist := (Kill p sig, a) # hist s\<rparr>)" for p sig a
    by (auto simp: tracked_def intro: went signalled)
  then show "tracked h0 s \<Longrightarrow> tracked h0 (s\<lparr>hist := (Kill (clonepid s) SIGTERM, AUnit) # hist s\<rparr>)"
    "tracked h0 s \<Longrightarrow> tracked h0 (s\<lparr>hist := (Kill p SIGTERM, AUnit) # hist s\<rparr>)" for p
    by simp_all
qed (rule tracked_wait_step tracked_start_child; assumption)+

text \<open>The machine knows the children that are alive.\<close>

fun alive :: "stage \<Rightarrow> int set" where
  "alive (Running n) = {n}"
| "alive _ = {}"

lemma step_alive: "life_step l e l' \<Longrightarrow> live h = alive l \<Longrightarrow> live (e # h) = alive l'"
proof (induction rule: life_step.induct)
  case (started n l net)
  then show ?case
    by (cases l) auto
next
  case (reaped_other l p w)
  then show ?case
    by (cases l) auto
next
  case (unconcerned e l)
  then show ?case
    using live_plain [OF neutral_plain] by metis
qed (simp_all add: live_plain plain_def)

lemma run_alive: "life_run h0 h l \<Longrightarrow> live h0 = {} \<Longrightarrow> live h = alive l"
  by (induction rule: life_run.induct) (auto dest: step_alive simp del: live.simps)

lemma initial_tracked: "tracked h (initial h e stop lock)"
  by (rule trackedI [of _ _ Idle]) (simp_all add: initial_def begun)

text \<open>
  C1: one command at a time, from start to clean-up. The record of every run of \<^verbatim>\<open>manager_start\<close>,
  however it ends, is a run of the machine: a command is cloned only while none is running, it
  ends when its own process is reaped, and files are written for the running command only and
  removed of the ended one only. At the end \<^verbatim>\<open>child_status\<close> is the machine's state, \<^verbatim>\<open>clonepid\<close>
  the running command, and no other child is alive.
\<close>

theorem command_lifecycle:
  assumes "clone_pids os" and "live h = {}"
    and "manager_start os g keyfiles fd (initial h e stop lock) = Some (r, t)"
  shows "\<exists>l. life_run h (hist t) l \<and> live (hist t) = alive l \<and> (case l of
      Idle \<Rightarrow> child_status t = NO_PROC
    | Running n \<Rightarrow> child_status t = PROC_RUNNING \<and> clonepid t = n
    | Ended n \<Rightarrow> child_status t = PROC_EXIT \<and> (clonepid t > 0 \<longrightarrow> clonepid t = n))"
proof -
  have "tracked h t"
    using obeys_keepsD [OF tracking.k_manager_start [OF assms(1)] assms(3)] initial_tracked by blast
  then obtain l where "life_run h (hist t) l" "pictured t l"
    by (auto simp: tracked_def)
  moreover have "live (hist t) = alive l"
    by (rule run_alive [OF \<open>life_run h (hist t) l\<close> assms(2)])
  ultimately show ?thesis
    by (intro exI [of _ l]) (cases l; simp)
qed

end
