(* ===== verification/ManagerRuns.thy ===== *)
theory ManagerRuns
  imports ManagerLoop ManagerLock ManagerFds ManagerChild ManagerLife
begin

text \<open>
  Concrete runs of the manager, evaluated in the kernel: each theorem of the manager that has
  hypotheses is applied to one of them.
\<close>

section \<open>A client that stops process 42\<close>

text \<open>
  The connection is descriptor 2. Its first event delivers a \<open>STOP\<close> message; after the signal the
  next \<^verbatim>\<open>epoll_wait\<close> fails.
\<close>

definition is_kill :: "event \<Rightarrow> bool" where
  "is_kill e \<longleftrightarrow> (case fst e of Kill _ _ \<Rightarrow> True | _ \<Rightarrow> False)"

definition stop42 :: message where
  "stop42 = message0\<lparr>ms_method := STOP, ms_runlist := [\<lparr>rp_pid = 42, rp_since = 0, rp_request = None\<rparr>]\<rparr>"

definition stopper :: os where
  "stopper = calm\<lparr>
     fds_of := (\<lambda>h c. case c of EpollWait _ _ _ \<Rightarrow> if list_ex is_kill h then None else Some [2] | _ \<Rightarrow> Some []),
     errno_of := (\<lambda>_ _. 9),
     bytes_of := (\<lambda>h _. if list_ex is_input h then None else Some ''s''),
     parse := (\<lambda>_. Some stop42)\<rparr>"

lemma stopper_simps [simp]:
  "int_of stopper = calm_int" "errno_of stopper h c = 9" "bool_of stopper h c = Some True"
  "fds_of stopper h (EpollWait a b c') = (if list_ex is_kill h then None else Some [2])"
  "fds_of stopper h Signals = Some []"
  "bytes_of stopper h c = (if list_ex is_input h then None else Some ''s'')" "pipe_of stopper h = (next_fd h, next_fd h + 1)"
  "wait_of stopper h = (0, OtherStatus)" "serialize stopper m = Some ''m''" "parse stopper d = Some stop42"
  by (simp_all add: stopper_def calm_def)

lemma is_kill_simps [simp]:
  "is_kill (Kill p n, a)" "\<not> is_kill (Sigaction n, a)" "\<not> is_kill (Pdeathsig n, a)" "\<not> is_kill (EpollCreate, a)"
  "\<not> is_kill (EpollCtl ep x fd, a)" "\<not> is_kill (WaitPid, a)" "\<not> is_kill (Signals, a)" "\<not> is_kill (EpollWait ep k tmo, a)"
  by (simp_all add: is_kill_def)

lemma is_input_simps [simp]:
  "\<not> is_input (Sigaction n, a)" "\<not> is_input (Pdeathsig n, a)" "\<not> is_input (EpollCreate, a)" "\<not> is_input (EpollCtl ep x fd, a)"
  "\<not> is_input (WaitPid, a)" "\<not> is_input (Signals, a)" "\<not> is_input (EpollWait ep k tmo, a)" "is_input (Read fd k, ABytes (Some ''s''))"
  by (simp_all add: is_input_def)

lemma wait_nothing:
  "wait_of os (hist s) = (0, st) \<Longrightarrow> wait_child os s = Some (Inr (), s\<lparr>hist := (WaitPid, AWait 0 st) # hist s\<rparr>)"
  by (rule wait_child_steps(1)) simp_all

lemma stopper_read:
  "\<not> list_ex is_input (hist s) \<Longrightarrow> read_all stopper [] s = Some (Inr ''s'',
     s\<lparr>hist := [(Read (connection s) BUFSIZE, ABytes None), (Read (connection s) BUFSIZE, ABytes (Some ''s''))] @ hist s, errno := 9\<rparr>)"
  by (subst read_all_unfold, simp add: run_defs BUFSIZE_def, subst read_all_unfold, simp add: run_defs BUFSIZE_def)

text \<open>An event by which no registration is found, and none removed.\<close>

definition harmless :: "event \<Rightarrow> bool" where
  "harmless e \<longleftrightarrow> (case e of
      (Exists path, ABool (Some True)) \<Rightarrow> \<not> under_tmpfs path
    | (Unlink _, _) \<Rightarrow> False
    | _ \<Rightarrow> True)"

lemma harmless_simps [simp]:
  "harmless (Exists p, ABool (Some True)) \<longleftrightarrow> \<not> under_tmpfs p" "\<not> harmless (Unlink p, a)"
  "(\<And>p. c \<noteq> Exists p) \<Longrightarrow> (\<And>p. c \<noteq> Unlink p) \<Longrightarrow> harmless (c, a)"
  by (auto simp: harmless_def split: call.split)

lemma stopper_run:
  "\<exists>t. manager_start stopper one_group [] 2 (initial [] 0 False 9) = Some (Inl (Raise (CAPIException ''epoll_wait'' 9)), t) \<and>
     (Kill 42 SIGTERM, AUnit) \<in> set (hist t) \<and> (\<forall>e\<in>set (hist t). (fst e = Exists (proc_file 42) \<or> harmless e) \<and> (\<forall>b. fst e \<noteq> Clone b))"
proof -
  obtain s1 where s1: "manager_setup stopper 2 (initial [] 0 False 9) = Some (Inr (), s1)"
    "s1 = (initial [] 0 False 9)\<lparr>connection := 2, epollfd := 3, errno := 9, hist := [(EpollCtl 3 EPOLL_CTL_ADD 2, AInt 0),
       (EpollCreate, AInt 3), (Pdeathsig SIGTERM, AUnit), (Sigaction SIGTERM, AUnit)]\<rparr>"
    by (simp add: manager_setup_def signal_register_def run_defs initial_def)
  obtain s2 where s2: "iteration stopper one_group [] s1 = Some (Inr (), s2)" "(Kill 42 SIGTERM, AUnit) \<in> set (hist s2)"
    "\<forall>e\<in>set (hist s2). (fst e = Exists (proc_file 42) \<or> harmless e) \<and> (\<forall>b. fst e \<noteq> Clone b)"
    "list_ex is_kill (hist s2)" "child_status s2 = NO_PROC" "connection s2 = 2" "process_stop s2 = False"
    by (simp add: iteration_def s1(2) initial_def wait_nothing deal_with_exit_def exec_over_def read_process_stop_def dispatch_def
        recv_message_def stopper_read handle_message_def receive_stop_def stop_proc_def locked_def send_message_def stop42_def
        run_defs MAX_EVENTS_def message0_def cint_id int32_def)
  obtain t where t: "iteration stopper one_group [] s2 = Some (Inl (Raise (CAPIException ''epoll_wait'' 9)), t)"
    "(Kill 42 SIGTERM, AUnit) \<in> set (hist t)" "\<forall>e\<in>set (hist t). (fst e = Exists (proc_file 42) \<or> harmless e) \<and> (\<forall>b. fst e \<noteq> Clone b)"
    using s2(2-)
    by (simp add: iteration_def wait_nothing deal_with_exit_def exec_over_def read_process_stop_def run_defs EINTR_def)
  have "manager_loop stopper one_group [] s1 = Some (Inl (Raise (CAPIException ''epoll_wait'' 9)), t)"
    by (subst manager_loop.simps, simp add: seq_def bnd_def s2(1), subst manager_loop.simps, simp add: seq_def bnd_def t(1))
  with s1(1) t(2,3) show ?thesis
    by (simp add: manager_start_def seq_def bnd_def)
qed


lemma stopper_clone_pids: "clone_pids stopper"
  by (simp add: clone_pids_def)

lemma stopper_fresh: "fresh_fds {2} stopper"
  using calm_fresh [of "{2}"] unfolding fresh_fds_def stopper_simps calm_simps by simp

theorem manager_kills_its_own_witness:
  "\<exists>t es h'. manager_start stopper one_group [] 2 (initial [] 0 False 9) = Some (Inl (Raise (CAPIException ''epoll_wait'' 9)), t) \<and>
     hist t = es @ (Kill 42 SIGTERM, AUnit) # h' \<and>
     (42 \<in> live h' \<or> (\<exists>h''. h' = (Exists (proc_file 42), ABool (Some True)) # h''))"
proof -
  obtain t where t: "manager_start stopper one_group [] 2 (initial [] 0 False 9) = Some (Inl (Raise (CAPIException ''epoll_wait'' 9)), t)"
    "(Kill 42 SIGTERM, AUnit) \<in> set (hist t)"
    using stopper_run by blast
  obtain es h' where "hist t = es @ (Kill 42 SIGTERM, AUnit) # h'"
    using split_list [OF t(2)] by blast
  moreover have "all_events kill_ok []"
    by simp
  ultimately show ?thesis
    using manager_kills_its_own [OF stopper_clone_pids _ t(1)] t(1) by blast
qed


theorem manager_closes_its_own_witness:
  "\<exists>t. manager_start stopper one_group [] 2 (initial [] 0 False 9) = Some (Inl (Raise (CAPIException ''epoll_wait'' 9)), t) \<and>
     closes_ok {2} (hist t) \<and> held (mvars t) \<subseteq> open_fds {2} (hist t)"
proof -
  have "closes_ok {2} []" and "2 \<in> open_fds {2} []" and "(2::int) \<noteq> - 1"
    by simp_all
  then show ?thesis
    using stopper_run manager_closes_its_own [OF stopper_fresh] by blast
qed

theorem iteration_returns_witness:
  "\<exists>r t. iteration stopper one_group [] (initial [] 0 False 9) = Some (r, t)"
proof (rule iteration_returns)
  show "child_bound 0 stopper"
    by (simp add: child_bound_def)
  show "input_bound 1 stopper"
    by (auto simp: input_bound_def list_ex_iff filter_empty_conv)
  show "\<forall>rq. loadRequest one_group [] rq \<noteq> None"
    by (auto simp: loadRequest_def)
qed

section \<open>A client that starts a command\<close>

text \<open>The registration of the new process cannot be written, so the manager fails with the child running.\<close>

definition start_ls :: message where
  "start_ls = message0\<lparr>ms_method := EXE, ms_request := Some (request0\<lparr>rq_args := [''/bin/ls'']\<rparr>)\<rparr>"

definition starter_int :: "int \<Rightarrow> event list \<Rightarrow> call \<Rightarrow> int" where
  "starter_int n h c = (case c of Clone _ \<Rightarrow> n | Fwrite _ d \<Rightarrow> if d = ''s'' then - 1 else int (length d) | _ \<Rightarrow> calm_int h c)"

definition starter :: "int \<Rightarrow> os" where
  "starter n = stopper\<lparr>parse := (\<lambda>_. Some start_ls), int_of := starter_int n,
     bool_of := (\<lambda>h c. case c of IsDirectory _ \<Rightarrow> Some False | _ \<Rightarrow> Some True)\<rparr>"

lemma starter_simps [simp]:
  "int_of (starter n) = starter_int n" "errno_of (starter n) h c = 9" "bool_of (starter n) h (Exists p) = Some True"
  "bool_of (starter n) h (IsDirectory p) = Some False" "bool_of (starter n) h (CreateDirectories p) = Some True"
  "fds_of (starter n) h (EpollWait a b c') = (if list_ex is_kill h then None else Some [2])"
  "fds_of (starter n) h Signals = Some []"
  "bytes_of (starter n) h c = (if list_ex is_input h then None else Some ''s'')" "pipe_of (starter n) h = (next_fd h, next_fd h + 1)"
  "wait_of (starter n) h = (0, OtherStatus)" "parse (starter n) d = Some start_ls"
  by (simp_all add: starter_def stopper_def calm_def)

lemma starter_int_simps [simp]:
  "starter_int n h (Open p f) = next_fd h" "starter_int n h EpollCreate = next_fd h" "starter_int n h (Clone b) = n"
  "starter_int n h (Fwrite st d) = (if d = ''s'' then - 1 else int (length d))" "starter_int n h Pipe = 0"
  "starter_int n h (EpollCtl e x fd) = 0" "starter_int n h (Fopen p m) = 0"
  by (simp_all add: starter_int_def)

lemma starter_read:
  "\<not> list_ex is_input (hist s) \<Longrightarrow> read_all (starter n) [] s = Some (Inr ''s'',
     s\<lparr>hist := [(Read (connection s) BUFSIZE, ABytes None), (Read (connection s) BUFSIZE, ABytes (Some ''s''))] @ hist s, errno := 9\<rparr>)"
  by (subst read_all_unfold, simp add: run_defs BUFSIZE_def, subst read_all_unfold, simp add: run_defs BUFSIZE_def)

lemma not_the_request: "to_string n \<noteq> ''s''"
  using to_string_chars [of "CHR ''s''" n] by (auto simp: is_digit_def)

lemma command_not_under: "\<not> under_tmpfs ''/bin/ls''"
  by (simp add: under_tmpfs_def tmpfs_def)

definition started :: "int \<Rightarrow> mgr \<Rightarrow> bool" where
  "started n t \<longleftrightarrow> child_status t = PROC_RUNNING \<and> clonepid t = n \<and>
     Fopen (proc_file n) ''w'' \<in> fst ` set (hist t) \<and> (\<forall>e\<in>set (hist t). harmless e)"

lemma starter_handles:
  assumes "n > 0" and "clonepid s = 0" and "\<forall>e\<in>set (hist s). harmless e"
  shows "\<exists>x t. handle_message (starter n) one_group [] start_ls ''s'' s = Some (Inl (Raise x), t) \<and> started n t"
  using assms
  by (simp add: handle_message_def start_ls_def receive_exe_def load_request_def loadRequest_def handle_request_def find_command_def
      is_command_def args0_def launch_def with_out_def with_err_def zoom_def load_def make_pipe_def fld_def upd_def clone_child_def limit_memory_def
      write_limits_def write_limit_def write_file_def on_block_exit_def SafeExecute_def locked_def
      view_out_def view_err_def put_out_def put_err_def the_request_def request0_def message0_def run_defs started_def not_the_request
      cgroup_not_tmpfs command_not_under)

lemma starter_run:
  assumes "n > 0"
  shows "\<exists>x t. manager_start (starter n) one_group [] 2 (initial [] 0 False 9) = Some (Inl (Raise x), t) \<and>
     started n t"
proof -
  obtain s1 where s1: "manager_setup (starter n) 2 (initial [] 0 False 9) = Some (Inr (), s1)"
    "s1 = (initial [] 0 False 9)\<lparr>connection := 2, epollfd := 3, errno := 9, hist := [(EpollCtl 3 EPOLL_CTL_ADD 2, AInt 0),
       (EpollCreate, AInt 3), (Pdeathsig SIGTERM, AUnit), (Sigaction SIGTERM, AUnit)]\<rparr>"
    by (simp add: manager_setup_def signal_register_def run_defs initial_def)
  have "\<exists>x t. iteration (starter n) one_group [] s1 = Some (Inl (Raise x), t) \<and> started n t"
  proof -
    let ?s = "s1\<lparr>hist := [(Read 2 BUFSIZE, ABytes None), (Read 2 BUFSIZE, ABytes (Some ''s'')),
      (EpollWait 3 MAX_EVENTS 1000, AFds (Some [2])), (Signals, AFds (Some [])), (WaitPid, AWait 0 OtherStatus)] @ hist s1\<rparr>"
    obtain x t where "handle_message (starter n) one_group [] start_ls ''s'' ?s = Some (Inl (Raise x), t)"
        "started n t"
      using starter_handles [OF assms, of ?s] by (auto simp: s1(2) initial_def)
    then show ?thesis
      by (simp add: iteration_def s1(2) initial_def wait_nothing deal_with_exit_def exec_over_def read_process_stop_def dispatch_def
        recv_message_def starter_read run_defs MAX_EVENTS_def)
  qed
  then obtain x t where "iteration (starter n) one_group [] s1 = Some (Inl (Raise x), t)" "started n t"
    by blast
  moreover from this have "manager_loop (starter n) one_group [] s1 = Some (Inl (Raise x), t)"
    by (subst manager_loop.simps, simp add: seq_def bnd_def)
  ultimately show ?thesis
    using s1(1) by (simp add: manager_start_def seq_def bnd_def)
qed

theorem command_lifecycle_witness:
  "\<exists>x t. manager_start (starter 42) one_group [] 2 (initial [] 0 False 9) = Some (Inl (Raise x), t) \<and>
     life_run [] (hist t) (Running 42) \<and> live (hist t) = {42}"
proof -
  obtain x t where t: "manager_start (starter 42) one_group [] 2 (initial [] 0 False 9) = Some (Inl (Raise x), t)"
    "child_status t = PROC_RUNNING" "clonepid t = 42"
    using starter_run [of 42] by (auto simp: started_def)
  have "clone_pids (starter 42)" and "live [] = {}"
    by (simp_all add: clone_pids_def)
  from command_lifecycle [OF this t(1)] obtain l where "life_run [] (hist t) l" "live (hist t) = alive l"
    "case l of Idle \<Rightarrow> child_status t = NO_PROC | Running n \<Rightarrow> child_status t = PROC_RUNNING \<and> clonepid t = n
      | Ended n \<Rightarrow> child_status t = PROC_EXIT \<and> (clonepid t > 0 \<longrightarrow> clonepid t = n)"
    by blast
  with t show ?thesis
    by (cases l) auto
qed

section \<open>Single operations\<close>

definition running :: mgr where
  "running = (initial [] 0 False 9)\<lparr>connection := 2, epollfd := 3, clonepid := 100, child_status := PROC_RUNNING,
     request := request0\<lparr>rq_args := [''/bin/ls'']\<rparr>\<rparr>"

lemma running_simps [simp]:
  "hist running = []" "connection running = 2" "epollfd running = 3" "clonepid running = 100" "lockfd running = 9"
  "child_status running = PROC_RUNNING" "request running = request0\<lparr>rq_args := [''/bin/ls'']\<rparr>" "errno running = 0"
  "out running = Output" "err running = Output"
  by (simp_all add: running_def initial_def)

text \<open>An outside that knows one message.\<close>

definition speaks :: "message \<Rightarrow> os" where
  "speaks m = calm\<lparr>serialize := (\<lambda>m'. if m' = m then Some ''m'' else None), parse := (\<lambda>_. Some m)\<rparr>"

lemma speaks_simps [simp]:
  "int_of (speaks m) = calm_int" "errno_of (speaks m) h c = 0" "bool_of (speaks m) h c = Some True"
  "bytes_of (speaks m) h c = Some []" "names_of (speaks m) h c = Some []" "fds_of (speaks m) h c = Some []"
  "wait_of (speaks m) h = (0, OtherStatus)" "stem_of (speaks m) p = p"
  "serialize (speaks m) m' = (if m' = m then Some ''m'' else None)" "parse (speaks m) d = Some m"
  by (simp_all add: speaks_def)

lemma speaks_codec: "codec_ok (speaks m)"
  by (simp add: codec_ok_def)

theorem limit_memory_writes_witness:
  "\<exists>t swap. limit_memory calm 100 running = Some (Inr (), t) \<and> file_writes (hist t) = limit_writes (request running) 100 swap"
proof -
  have ends: "wp (limit_memory calm 100) (\<lambda>_ _. True) (\<lambda>_ _. False) running"
    by (simp add: limit_memory_def write_limits_def write_limit_def write_file_def wp Let_def request0_def)
  have "rq_args (request running) \<noteq> []"
    by simp
  from limit_memory_writes [OF this, of calm 100] obtain r t where "limit_memory calm 100 running = Some (r, t)"
    "case r of Inr _ \<Rightarrow> \<exists>swap. file_writes (hist t) = limit_writes (request running) 100 swap | Inl a \<Rightarrow> True"
    by (fastforce split: sum.splits)
  with wpD_abrupt [OF ends] show ?thesis
    by (cases r) auto
qed

definition refusal :: message where
  "refusal = message0\<lparr>ms_method := EXE, ms_response := Some (response0\<lparr>rs_stat := BADARGS\<rparr>)\<rparr>"

theorem unknown_command_is_refused_witness:
  "\<exists>t answer n es. handle_request ((speaks refusal)\<lparr>bool_of := \<lambda>_ _. Some False\<rparr>) ''s'' (running\<lparr>clonepid := 0\<rparr>) = Some (Inr (), t) \<and>
     hist t = (Write 2 answer, AInt n) # es \<and> (\<forall>e\<in>set es. case fst e of Exists _ \<Rightarrow> True | IsDirectory _ \<Rightarrow> True | _ \<Rightarrow> False)"
proof -
  let ?os = "(speaks refusal)\<lparr>bool_of := \<lambda>_ _. Some False\<rparr>" and ?s = "running\<lparr>clonepid := 0\<rparr>"
  have codec: "codec_ok ?os" and idle: "\<not> clonepid ?s > 0" and fg: "\<not> rq_backend (request ?s)"
    by (simp_all add: codec_ok_def request0_def)
  obtain u where u: "find_command ?os ?s = Some (Inr False, u)" "connection u = 2"
    by (simp add: find_command_def is_command_def run_defs)
  obtain t where t: "handle_request ?os ''s'' ?s = Some (Inr (), t)"
    by (simp add: handle_request_def find_command_def is_command_def send_response_def send_message_def run_defs cint_id int32_def
        request0_def refusal_def)
  from unknown_command_is_refused [OF codec idle, unfolded if_not_P [OF fg], OF u(1) t] u(2) t show ?thesis
    by auto
qed

lemma registered_name: "atoi (c_str (drop (Suc (length tmpfs)) (proc_file 42))) = 42"
  by (simp add: proc_file_def c_str_id to_string_no_nul atoi_to_string int32_def)

theorem list_reports_registrations_witness:
  "\<exists>os answer n h t. receive_list os running = Some (Inr (), t) \<and> hist t = (Write 2 answer, AInt n) # h \<and>
     (\<exists>m. parse os answer = Some m \<and> ms_method m = LIST \<and> map rp_pid (ms_runlist m) = [42])"
proof -
  define entry where "entry = \<lparr>rp_pid = 42, rp_since = 0, rp_request = Some request0\<rparr>"
  define m where "m = message0\<lparr>ms_method := LIST, ms_runlist := [entry]\<rparr>"
  define os where "os = (speaks m)\<lparr>names_of := \<lambda>_ _. Some (map proc_file [42]), stem_of := drop (length tmpfs + 1)\<rparr>"
  have stems: "\<forall>pid. stem_of os (proc_file pid) = to_string pid" "\<forall>pid\<in>set [42]. int32 pid"
    "codec_ok os" "names_of os ((Flock (lockfd running) LOCK_SH, AUnit) # hist running) (ListDir tmpfs) = Some (map proc_file [42])"
    by (simp_all add: os_def proc_file_def codec_ok_def int32_def)
  have "wp (receive_list os) (\<lambda>_ _. True) (\<lambda>_ _. False) running"
    by (simp add: receive_list_def locked_def read_file_def last_write_time_def send_message_def wp Let_def os_def m_def entry_def
        cint_id int32_def registered_name calm_int_def the_request_def message0_def)
  moreover have "returns (receive_list os) running"
    by (auto simp: receive_list_def intro!: returns)
  ultimately obtain t where t: "receive_list os running = Some (Inr (), t)"
    by (auto dest!: wp_total_normal)
  from list_reports_registrations [OF stems(3,1,2,4) t] t show ?thesis
    by (fastforce simp: list_all2_Cons1 listed_def)
qed



text \<open>An outside in which the command ends with status 3.\<close>

definition reaper :: os where
  "reaper = calm\<lparr>wait_of := \<lambda>h. if list_ex is_reap h then (0, OtherStatus) else (100, Exited 3)\<rparr>"

lemma reaper_bound: "child_bound 1 reaper"
  by (auto simp: child_bound_def reaper_def reaps_def list_ex_iff filter_empty_conv)

lemma running_child: "rq_args (request running) \<noteq> []" "clonepid running > 0"
  by simp_all



definition finished :: mgr where
  "finished = running\<lparr>clonepid := 0, child_status := PROC_EXIT, out := Output\<lparr>over := True, str := ''hello''\<rparr>,
     err := Output\<lparr>over := True\<rparr>\<rparr>"

definition result42 :: message where
  "result42 = message0\<lparr>ms_method := EXE, ms_response := Some (response0\<lparr>rs_outstr := ''hello''\<rparr>)\<rparr>"



theorem execute_drops_privileges_witness:
  "\<exists>t uid gid n before. execute calm running = Some (Inl Replaced, t) \<and>
     hist t = child_record (request running) uid gid n before \<and> (\<forall>e\<in>set before. output_event e)"
proof -
  have "wp (execute calm) (\<lambda>_ _. False) (\<lambda>a t. a = Replaced \<and> is_execv (hd (hist t)) \<and> hist t \<noteq> []) running"
    by (simp add: execute_def with_out_def with_err_def dup_def close_pipe0_def drop_privileges_def run_command_def set_env_def
        wp Let_def Output_def request0_def view_out_def view_err_def put_out_def put_err_def is_execv_def)
  note ends = wpD_abrupt [OF this]
  obtain a t es where run: "execute calm running = Some (Inl a, t)" "hist t = es @ hist running"
    "if \<exists>e\<in>set es. is_execv e then \<exists>uid gid n before. es = child_record (request running) uid gid n before \<and> (\<forall>e\<in>set before. output_event e)
     else a = Exit (- 1) \<or> a = Undefined"
    using execute_drops_privileges [of calm running] by (fastforce split: if_splits)
  have "a = Replaced" and "\<exists>e\<in>set es. is_execv e"
    using ends [OF run(1)] run(2) by (auto intro!: bexI [of _ "hd es"])
  with run show ?thesis
    by auto
qed

end
