(* ===== verification/DaemonRuns.thy ===== *)
theory DaemonRuns
  imports DaemonProps ManagerRuns
begin

text \<open>
  Two runs of the daemon evaluated in the kernel, to which the theorems on it are applied. In one its
  first \<^verbatim>\<open>accept4\<close> is interrupted by a SIGTERM of process 1, and it stops; in the other it accepts a
  connection and becomes the child, whose client stops a process.
\<close>

section \<open>Preparing\<close>

text \<open>An outside in which all that the daemon does before it accepts succeeds.\<close>

definition smooth :: "os \<Rightarrow> bool" where
  "smooth os \<longleftrightarrow> (\<forall>h p f. int_of os h (Open p f) = next_fd h) \<and> (\<forall>h b. int_of os h (Socket b) = next_fd h) \<and>
     (\<forall>h x. int_of os h (Host x) = 0) \<and> (\<forall>h p m. int_of os h (Fopen p m) = 0) \<and>
     (\<forall>h st d. int_of os h (Fwrite st d) = int (length d)) \<and> (\<forall>h c. bool_of os h c = Some True) \<and>
     (\<forall>h c. names_of os h c = Some []) \<and> (\<forall>h st. mnt_of os h st = None)"

lemma smooth_simps [simp]:
  assumes "smooth os"
  shows "int_of os h (Open p f) = next_fd h" "int_of os h (Socket b) = next_fd h" "int_of os h (Host x) = 0" "int_of os h (Fopen p m) = 0"
    "int_of os h (Fwrite st d) = int (length d)" "bool_of os h c = Some True" "names_of os h c = Some []" "mnt_of os h st = None"
  using assms by (simp_all add: smooth_def)

lemma one_group_load [simp]: "kf_load one_group h p = Some 1"
  by (simp add: one_group_def)

lemma smooth_mount: "smooth os \<Longrightarrow> \<exists>t. mount_tmpfs os tmpfs s = Some (Inr (), t) \<and> is_mount (hd (hist t)) \<and> hist t \<noteq> []"
  unfolding mount_tmpfs_def find_mount_def search_mounts_def
  by (simp add: run_defs on_block_exit_def SafeExecute_def, subst loop_unfold, simp add: run_defs is_mount_def)

lemma smooth_config: "smooth os \<Longrightarrow> \<exists>m t. Config os one_group s = Some (Inr m, t)"
  by (simp add: Config_def run_defs load_key_file_def)

lemma runs_bnd:
  "\<exists>x u. m s = Some (Inr x, u) \<Longrightarrow> (\<And>x u. m s = Some (Inr x, u) \<Longrightarrow> \<exists>y t. f x u = Some (Inr y, t)) \<Longrightarrow> \<exists>y t. bnd m f s = Some (Inr y, t)"
  by (auto simp: bnd_def)

lemma runs_seq:
  "\<exists>x u. m s = Some (Inr x, u) \<Longrightarrow> (\<And>u. \<exists>y t. n u = Some (Inr y, t)) \<Longrightarrow> \<exists>y t. seq m n s = Some (Inr y, t)"
  unfolding seq_def by (rule runs_bnd)

lemma smooth_prepare:
  assumes [simp]: "smooth os"
  shows "\<exists>m t. prepare os one_group s = Some (Inr m, t)"
proof -
  have written: "\<exists>x t. write_file os pidfile d u = Some (Inr x, t)" for d u
    by (simp add: write_file_def run_defs on_block_exit_def SafeExecute_def)
  have opened: "next_fd h \<noteq> - 1" for h
    using next_fd_positive [of h] by simp
  have last: "\<exists>m t. bnd (sys_int os (Open (c_str lockfile) fl)) (\<lambda>fd. seq (modify (\<lambda>s. s\<lparr>lockfd := fd\<rparr>))
      (seq (ThrowCAPIExceptionIf (- 1 = fd) ''open lockfile'') (Config os one_group))) u = Some (Inr m, t)" for fl u
    by (rule runs_bnd) (auto simp: sys_int_def Let_def ThrowCAPIExceptionIf_def opened [THEN not_sym] intro!: runs_seq smooth_config; simp add: modify_def ret_def)+
  show ?thesis
    unfolding prepare_def
    by (rule runs_bnd, simp add: sys_int_def Let_def, rule runs_seq, simp add: sys_int_def Let_def ThrowCAPIExceptionIf_def ret_def,
        rule runs_bnd, simp add: sys_int_def Let_def, rule runs_seq, rule written, rule runs_seq, simp add: daemon_signal_register_def run_defs,
        rule runs_seq, use smooth_mount [OF assms] in blast, rule last)
qed

lemma smooth_socket: "smooth os \<Longrightarrow> \<exists>sock t. open_socket os s = Some (Inr sock, t)"
  using next_fd_positive [of "hist s"] by (simp add: open_socket_def run_defs)

section \<open>An orderly stop\<close>

definition halter :: os where
  "halter = calm\<lparr>int_of := (\<lambda>h c. case c of Accept _ \<Rightarrow> - 1 | _ \<Rightarrow> calm_int h c), errno_of := (\<lambda>_ _. EINTR),
     fds_of := (\<lambda>_ _. Some [1])\<rparr>"

lemma halter_simps [simp]:
  "int_of halter h (Accept fd) = - 1" "int_of halter h (Open p f) = next_fd h" "int_of halter h (Socket b) = next_fd h"
  "int_of halter h (Host x) = 0" "int_of halter h (Fopen p m) = 0" "int_of halter h (Fwrite st d) = int (length d)"
  "errno_of halter h c = EINTR" "bool_of halter h c = Some True" "names_of halter h c = Some []"
  "fds_of halter h c = Some [1]" "wait_of halter h = (0, OtherStatus)" "mnt_of halter h st = None"
  by (simp_all add: halter_def calm_int_def)

lemma halter_smooth: "smooth halter"
  by (simp add: smooth_def)

lemma halter_fresh: "inh \<subseteq> {0..<3} \<Longrightarrow> fresh_fds inh halter"
  using calm_fresh [of inh] unfolding fresh_fds_def halter_def
  by (auto split: call.splits)

lemma halter_clone_pids: "clone_pids halter"
  by (simp add: clone_pids_def halter_def)

lemma halter_loop: "\<exists>t. accept_loop halter g keyfiles sock s = Some (Inr None, t)"
  unfolding accept_loop_def
  by (subst loop_unfold, simp add: accept_round_def run_defs EINTR_def ECONNABORTED_def reap_all_def, subst loop_unfold,
      simp add: run_defs stop_asked_def sigterm_handler_def)

lemma halter_clear: "\<exists>t. clear_resource halter s = Some (Inr (), t)"
  by (simp add: clear_resource_def umount_tmpfs_def clear_cgroup_setting_def run_defs)

lemma halter_run: "\<exists>t. srund_main halter one_group (initial [] 0 False (- 1)) = Some (Inr 0, t)"
proof -
  obtain m t1 where t1: "prepare halter one_group (initial [] 0 False (- 1)) = Some (Inr m, t1)"
    using smooth_prepare [OF halter_smooth] by blast
  obtain sock t2 where t2: "open_socket halter t1 = Some (Inr sock, t2)"
    using smooth_socket [OF halter_smooth] by blast
  obtain t3 where t3: "accept_loop halter one_group m sock t2 = Some (Inr None, t3)"
    using halter_loop by blast
  obtain t4 where t4: "clear_resource halter t3 = Some (Inr (), t4)"
    using halter_clear by blast
  show ?thesis
    by (simp add: srund_main_def try_catch_def bnd_def seq_def ret_def t1 t2 t3 t4)
qed


theorem orderly_stop_leaves_the_socket_witness:
  "\<exists>t sock. srund_main halter one_group (initial [] 0 False (- 1)) = Some (Inr 0, t) \<and> open_fds {0, 1, 2} (hist t) = insert sock {0, 1, 2} \<and> sock \<notin> {0, 1, 2}"
proof -
  obtain t where t: "srund_main halter one_group (initial [] 0 False (- 1)) = Some (Inr 0, t)"
    using halter_run by blast
  have "fresh_fds {0, 1, 2} halter" "closes_ok {0, 1, 2} []"
    by (auto intro!: halter_fresh)
  from orderly_stop_leaves_the_socket [OF this t] t show ?thesis
    by auto
qed

theorem mount_tmpfs_outcome_witness:
  "\<exists>t es n. mount_tmpfs halter tmpfs (initial [] 0 False (- 1)) = Some (Inr (), t) \<and> n \<noteq> - 1 \<and>
     hist t = (Host (Mount ''tmpfs'' tmpfs), AInt n) # es"
proof -
  obtain t where t: "mount_tmpfs halter tmpfs (initial [] 0 False (- 1)) = Some (Inr (), t)" "is_mount (hd (hist t))"
    using smooth_mount [OF halter_smooth] by blast
  have no: False if "hist t = es' @ (Host (Getmntent st), AMnt (Some (tmpfs, ''tmpfs''))) # es" "\<forall>e\<in>set es'. elsewhere tmpfs e" for es' st es
    using t(2) that by (cases es') (auto simp: is_mount_def elsewhere_def)
  from mount_tmpfs_outcome [OF t(1)] t(1) show ?thesis
    by (auto dest: no)
qed

section \<open>A connection on which process 42 is stopped\<close>

text \<open>
  The accepted connection is descriptor 2, and \<^verbatim>\<open>fork\<close> answers 0: the run goes on in the child. The
  connection delivers a \<open>STOP\<close> message; after the signal \<^verbatim>\<open>epoll_wait\<close> fails.
\<close>

fun just_read :: "event list \<Rightarrow> bool" where
  "just_read ((Read _ _, _) # _) = True"
| "just_read _ = False"

definition stopd :: os where
  "stopd = calm\<lparr>int_of := (\<lambda>h c. case c of Accept _ \<Rightarrow> 2 | Fork \<Rightarrow> 0 | _ \<Rightarrow> calm_int h c), errno_of := (\<lambda>_ _. 9),
     fds_of := (\<lambda>h c. case c of EpollWait _ _ _ \<Rightarrow> if list_ex is_kill h then None else Some [2] | _ \<Rightarrow> Some []),
     bytes_of := (\<lambda>h _. if just_read h then None else Some ''s''), parse := (\<lambda>_. Some stop42)\<rparr>"

lemma stopd_simps [simp]:
  "int_of stopd h (Accept fd) = 2" "int_of stopd h Fork = 0" "int_of stopd h (Open p f) = next_fd h" "int_of stopd h (Socket b) = next_fd h"
  "int_of stopd h (Host x) = 0" "int_of stopd h (Fopen p m) = 0" "int_of stopd h (Fwrite st d) = int (length d)"
  "int_of stopd h EpollCreate = next_fd h" "int_of stopd h (EpollCtl ep opn fd) = 0" "int_of stopd h (Write fd d) = int (length d)"
  "errno_of stopd h c = 9" "bool_of stopd h c = Some True" "names_of stopd h c = Some []" "wait_of stopd h = (0, OtherStatus)"
  "mnt_of stopd h st = None" "fds_of stopd h (EpollWait ep k tmo) = (if list_ex is_kill h then None else Some [2])"
  "fds_of stopd h Signals = Some []" "bytes_of stopd h c = (if just_read h then None else Some ''s'')"
  "serialize stopd msg = Some ''m''" "parse stopd d = Some stop42"
  by (simp_all add: stopd_def calm_int_def)

lemma stopd_clone_pids: "clone_pids stopd"
  by (simp add: clone_pids_def stopd_def calm_int_def)

lemma is_kill_daemon [simp]: "\<not> is_kill (Close fd, a)" "\<not> is_kill (Fork, a)" "\<not> is_kill (Accept fd, a)"
  by (simp_all add: is_kill_def)

lemma daemon_no_kill: "phase daemon_event s t \<Longrightarrow> \<not> list_ex is_kill (hist s) \<Longrightarrow> \<not> list_ex is_kill (hist t)"
  by (auto simp: phase_def list_ex_iff daemon_event_def is_kill_def split: call.splits)

lemma stopd_read:
  "\<not> just_read (hist s) \<Longrightarrow> read_all stopd [] s = Some (Inr ''s'',
     s\<lparr>hist := [(Read (connection s) BUFSIZE, ABytes None), (Read (connection s) BUFSIZE, ABytes (Some ''s''))] @ hist s, errno := 9\<rparr>)"
  by (subst read_all_unfold, simp add: run_defs BUFSIZE_def, subst read_all_unfold, simp add: run_defs BUFSIZE_def)

lemma stopd_wait:
  "wait_child stopd s = Some (Inr (), s\<lparr>hist := (WaitPid, AWait 0 OtherStatus) # hist s\<rparr>)"
  by (rule wait_child_steps(1)) simp_all

lemma stopd_manager:
  assumes "\<not> list_ex is_kill h"
  shows "\<exists>t. manager_start stopd one_group keyfiles 2 (initial h e stop lock) = Some (Inl (Raise (CAPIException ''epoll_wait'' 9)), t) \<and>
     (Kill 42 SIGTERM, AUnit) \<in> set (hist t) \<and> child_status t = NO_PROC"
proof -
  obtain s1 where s1: "manager_setup stopd 2 (initial h e stop lock) = Some (Inr (), s1)"
    "s1 = (initial h e stop lock)\<lparr>connection := 2, epollfd := next_fd ((Pdeathsig SIGTERM, AUnit) # (Sigaction SIGTERM, AUnit) # h), errno := 9,
       hist := [(EpollCtl (next_fd ((Pdeathsig SIGTERM, AUnit) # (Sigaction SIGTERM, AUnit) # h)) EPOLL_CTL_ADD 2, AInt 0),
       (EpollCreate, AInt (next_fd ((Pdeathsig SIGTERM, AUnit) # (Sigaction SIGTERM, AUnit) # h))), (Pdeathsig SIGTERM, AUnit), (Sigaction SIGTERM, AUnit)] @ h\<rparr>"
    using next_fd_positive [of h] by (simp add: manager_setup_def signal_register_def run_defs initial_def)
  obtain s2 where s2: "iteration stopd one_group keyfiles s1 = Some (Inr (), s2)" "(Kill 42 SIGTERM, AUnit) \<in> set (hist s2)"
    "list_ex is_kill (hist s2)" "child_status s2 = NO_PROC" "connection s2 = 2" "process_stop s2 = stop"
    using assms by (cases stop; simp add: iteration_def s1(2) initial_def stopd_wait stop_child_def deal_with_exit_def exec_over_def read_process_stop_def dispatch_def
        recv_message_def stopd_read handle_message_def receive_stop_def stop_proc_def locked_def send_message_def stop42_def
        run_defs MAX_EVENTS_def message0_def cint_id int32_def)
  obtain t where t: "iteration stopd one_group keyfiles s2 = Some (Inl (Raise (CAPIException ''epoll_wait'' 9)), t)"
    "(Kill 42 SIGTERM, AUnit) \<in> set (hist t)" "child_status t = NO_PROC"
    using s2(2-)
    by (cases stop; simp add: iteration_def stopd_wait deal_with_exit_def exec_over_def read_process_stop_def stop_child_def run_defs EINTR_def)
  have "manager_loop stopd one_group keyfiles s1 = Some (Inl (Raise (CAPIException ''epoll_wait'' 9)), t)"
    by (subst manager_loop.simps, simp add: seq_def bnd_def s2(1), subst manager_loop.simps, simp add: seq_def bnd_def t(1))
  with s1(1) t(2,3) show ?thesis
    by (simp add: manager_start_def seq_def bnd_def)
qed

lemma stopd_smooth: "smooth stopd"
  by (simp add: smooth_def)

lemma stopd_destroy:
  "child_status s = NO_PROC \<Longrightarrow> \<exists>t. manager_destroy stopd s = Some (Inr (), t) \<and> set (hist s) \<subseteq> set (hist t)"
  by (auto simp: manager_destroy_def close_connection_def close_epollfd_def close_timerfd_def closefd_def run_defs)

lemma stopd_serve:
  assumes "\<not> list_ex is_kill h"
  shows "\<exists>t. serve stopd one_group keyfiles sock 2 (initial h e stop lock) = Some (Inr (Some (- 1)), t) \<and> (Kill 42 SIGTERM, AUnit) \<in> set (hist t)"
proof -
  have s: "(initial h e stop lock)\<lparr>hist := (Close sock, AUnit) # h\<rparr> = initial ((Close sock, AUnit) # h) e stop lock" "hist (initial h e stop lock) = h"
    by (simp_all add: initial_def)
  have "\<not> list_ex is_kill ((Close sock, AUnit) # h)"
    using assms by simp
  from stopd_manager [OF this] obtain u where
    u: "manager_start stopd one_group keyfiles 2 (initial ((Close sock, AUnit) # h) e stop lock) = Some (Inl (Raise (CAPIException ''epoll_wait'' 9)), u)"
      "(Kill 42 SIGTERM, AUnit) \<in> set (hist u)" "child_status u = NO_PROC"
    by blast
  from stopd_destroy [OF u(3)] u(2) obtain t where "manager_destroy stopd u = Some (Inr (), t)" "(Kill 42 SIGTERM, AUnit) \<in> set (hist t)"
    by blast
  then show ?thesis
    by (simp add: serve_def try_catch_def seq_def bnd_def ret_def sys_do_def modify_def record_call_def s u(1))
qed

lemma initial_updates:
  "(initial h e stop lock)\<lparr>hist := h', errno := n\<rparr> = initial h' n stop lock" "(initial h e stop lock)\<lparr>errno := n, hist := h'\<rparr> = initial h' n stop lock"
  "hist (initial h e stop lock) = h"
  by (simp_all add: initial_def)

lemma stopd_run:
  "\<exists>t. srund_main stopd one_group (initial [] 0 False (- 1)) = Some (Inr (- 1), t) \<and> (Kill 42 SIGTERM, AUnit) \<in> set (hist t)"
proof -
  let ?s = "initial [] 0 False (- 1)"
  obtain m t1 where t1: "prepare stopd one_group ?s = Some (Inr m, t1)"
    using smooth_prepare [OF stopd_smooth] by blast
  obtain sock t2 where t2: "open_socket stopd t1 = Some (Inr sock, t2)"
    using smooth_socket [OF stopd_smooth] by blast
  have "phase daemon_event ?s t2"
    using phases.R_trans [OF obeysD [OF dae_prepare t1] obeysD [OF dae_ops(3) t2]] .
  then obtain h e stop lock where h: "t2 = initial h e stop lock"
    by (rule phase_initial)
  have "\<not> list_ex is_kill (hist t2)"
    using daemon_no_kill [OF \<open>phase daemon_event ?s t2\<close>] by (simp add: initial_def)
  then have "\<not> list_ex is_kill ((Fork, AInt 0) # (Accept sock, AInt 2) # h)"
    by (simp add: h initial_def)
  from stopd_serve [OF this] obtain t where
    t: "serve stopd one_group m sock 2 (initial ((Fork, AInt 0) # (Accept sock, AInt 2) # h) 9 stop lock) = Some (Inr (Some (- 1)), t)"
      "(Kill 42 SIGTERM, AUnit) \<in> set (hist t)"
    by blast
  have "accept_loop stopd one_group m sock t2 = Some (Inr (Some (- 1)), t)"
    unfolding accept_loop_def by (subst loop_unfold) (simp add: accept_round_def run_defs h initial_updates t(1))
  with t(2) show ?thesis
    by (simp add: srund_main_def try_catch_def bnd_def ret_def t1 t2)
qed

theorem daemon_kills_its_own_witness:
  "\<exists>t es h'. srund_main stopd one_group (initial [] 0 False (- 1)) = Some (Inr (- 1), t) \<and> hist t = es @ (Kill 42 SIGTERM, AUnit) # h' \<and>
     (42 \<in> live h' \<or> (\<exists>h''. h' = (Exists (proc_file 42), ABool (Some True)) # h''))"
proof -
  obtain t where t: "srund_main stopd one_group (initial [] 0 False (- 1)) = Some (Inr (- 1), t)" "(Kill 42 SIGTERM, AUnit) \<in> set (hist t)"
    using stopd_run by blast
  obtain es h' where es: "hist t = es @ (Kill 42 SIGTERM, AUnit) # h'"
    using split_list [OF t(2)] by blast
  moreover have "all_events kill_ok []"
    by simp
  ultimately show ?thesis
    using daemon_kills_its_own [OF stopd_clone_pids _ t(1) es] t(1) by blast
qed

end
