(* ===== verification/Session.thy ===== *)
theory Session
  imports SrunctlProps ManagerRuns
begin

text \<open>
  The conversation of a client and its manager. Each side is its own program on its own state, with its
  own outside; what connects them is that one encoding is used by both and that what one side wrote is
  what the reading loop of the other side collects.
\<close>

section \<open>The connection\<close>

text \<open>Both sides use the same generated code.\<close>

definition shared_codec :: "os \<Rightarrow> os \<Rightarrow> bool" where
  "shared_codec osm osc \<longleftrightarrow> codec_ok osm \<and> serialize osc = serialize osm \<and> parse osc = parse osm"

text \<open>The reading loop of either side collects the bytes \<open>d\<close>.\<close>

definition manager_hears :: "os \<Rightarrow> mgr \<Rightarrow> string \<Rightarrow> mgr \<Rightarrow> bool" where
  "manager_hears os s d t \<longleftrightarrow> read_all os [] s = Some (Inr d, t)"

definition client_hears :: "os \<Rightarrow> client \<Rightarrow> string \<Rightarrow> client \<Rightarrow> bool" where
  "client_hears os c d c' \<longleftrightarrow> recv_all os [] c = Some (Inr d, c')"

text \<open>Reading changes nothing but the record.\<close>

definition only_record :: "'z sys_scheme \<Rightarrow> 'z sys_scheme \<Rightarrow> bool" where
  "only_record s t \<longleftrightarrow> t = s\<lparr>hist := hist t, errno := errno t\<rparr>"

interpretation records: recording only_record "\<lambda>_. True"
proof unfold_locales
  fix s t u :: "'a sys_scheme"
  assume "only_record s t" and "only_record t u"
  then show "only_record s u"
    unfolding only_record_def by (metis sys.surjective sys.update_convs(1,2))
qed (auto simp: only_record_def)

lemma read_all_record: "obeys only_record (read_all os d)"
  by (rule obeys_read_all) (rule records.contract_axioms records.r_sys | simp)+

lemma manager_receives:
  assumes "manager_hears os s d t" and "d \<noteq> []" and "parse os d = Some m"
  shows "recv_message os g keyfiles s = handle_message os g keyfiles m d t"
  using assms by (simp add: manager_hears_def recv_message_def bnd_def)

lemma client_receives:
  assumes "client_hears os c d c'" and "d \<noteq> []" and "parse os d = Some m"
  shows "recvMessage os c = Some (Inr (), c'\<lparr>cmsg := m\<rparr>)"
  using assms by (simp add: client_hears_def recvMessage_def bnd_def seq_def ThrowCAPIExceptionIf_def ret_def modify_def)

lemma client_ends:
  assumes "client_hears os c d c'" and "d \<noteq> []" and "parse os d = Some m" and "ms_method m \<noteq> SYN"
  shows "\<exists>c''. poll_round os (Suc n) c = Some (Inr True, c'') \<and> cmsg c'' = m \<and> sockfd c'' = - 1 \<and> outbox (hist c'') = outbox (hist c')"
  using client_receives [OF assms(1-3)] assms(4)
  by (simp add: run_defs close_sockfd_def closefd_def)

lemma client_acknowledges:
  assumes "client_hears os c d c'" and "d \<noteq> []" and "parse os d = Some m" and "ms_method m = SYN"
    and "poll_round os 1 c = Some (Inr b, c'')"
  shows "\<not> b \<and> (\<exists>data n. serialize os ack = Some data \<and> hist c'' = (Write (sockfd c') data, AInt n) # hist c')"
proof -
  have "wp (seq (sendMessage os ack) (ret False)) (\<lambda>b t. \<not> b \<and> (\<exists>data n. serialize os ack = Some data \<and>
      hist t = (Write (sockfd c') data, AInt n) # hist c')) (\<lambda>_ _. True) (c'\<lparr>cmsg := m\<rparr>)"
    by (auto simp: sendMessage_def wp split: option.split)
  moreover have "seq (sendMessage os ack) (ret False) (c'\<lparr>cmsg := m\<rparr>) = Some (Inr b, c'')"
    using client_receives [OF assms(1-3)] assms(4,5) by (simp add: seq_def bnd_def get_def ack_def)
  ultimately show ?thesis
    by (rule wpD)
qed

section \<open>Keeping alive\<close>

text \<open>
  C12: a client that is alive survives the question whether it is. A manager that asks writes a \<open>SYN\<close> and
  remembers that it waits; a client that hears it goes on waiting for its answer after one \<open>ACK\<close>; a
  manager that hears that one no longer waits, and nothing else of it changes, so the next question does
  not fail with \<^verbatim>\<open>syn timeout\<close>.
\<close>

theorem keepalive_round_trip:
  assumes "shared_codec osm osc" and "connection s \<noteq> - 1" and "\<not> rq_backend (request s)"
    and "check_client osm s = Some (Inr (), s1)"
  shows "\<not> is_syn s \<and> is_syn s1 \<and> (\<exists>syn n. hist s1 = (Write (connection s) syn, AInt n) # hist s \<and>
    (\<forall>c c1 b c2. client_hears osc c syn c1 \<and> poll_round osc 1 c = Some (Inr b, c2) \<longrightarrow>
       \<not> b \<and> (\<exists>data n'. hist c2 = (Write (sockfd c1) data, AInt n') # hist c1 \<and>
         (\<forall>s2 s3. manager_hears osm s2 data s3 \<and> data \<noteq> [] \<longrightarrow>
            recv_message osm g keyfiles s2 = Some (Inr (), s3\<lparr>is_syn := False\<rparr>) \<and>
            s3 = s2\<lparr>hist := hist s3, errno := errno s3\<rparr>))))"
proof -
  let ?syn = "message0\<lparr>ms_method := SYN\<rparr>"
  have pending: "\<not> is_syn s"
    using assms(2-4) by (auto simp: check_client_def bnd_def get_def whenp_def seq_def ThrowLogicIf_def throw_def halt_def)
  have "send_message osm ?syn (s\<lparr>is_syn := True\<rparr>) = Some (Inr (), s1)"
    using assms(2-4) pending by (simp add: check_client_def bnd_def get_def whenp_def seq_def ThrowLogicIf_def ret_def modify_def)
  then have "sent osm ?syn (s\<lparr>is_syn := True\<rparr>) s1 \<and> is_syn s1"
    by (rule wpD [rotated, where E = "\<lambda>_ _. True"]) (auto simp: send_message_def wp sent_def split: option.split)
  then obtain syn n where s1: "is_syn s1" "serialize osm ?syn = Some syn" "syn \<noteq> []" "hist s1 = (Write (connection s) syn, AInt n) # hist s"
    by (auto simp: sent_def)
  have codec: "parse osc syn = Some ?syn" "\<And>data. serialize osc ack = Some data \<Longrightarrow> parse osm data = Some ack"
    using assms(1) s1(2) by (auto simp: shared_codec_def codec_ok_def)
  have client: "\<not> b \<and> (\<exists>data n'. serialize osc ack = Some data \<and> hist c2 = (Write (sockfd c1) data, AInt n') # hist c1)"
    if "client_hears osc c syn c1" "poll_round osc 1 c = Some (Inr b, c2)" for c c1 b c2
    by (rule client_acknowledges [OF that(1) s1(3) codec(1) _ that(2)]) simp
  have manager: "recv_message osm g keyfiles s2 = Some (Inr (), s3\<lparr>is_syn := False\<rparr>) \<and> s3 = s2\<lparr>hist := hist s3, errno := errno s3\<rparr>"
    if "manager_hears osm s2 data s3" "data \<noteq> []" "serialize osc ack = Some data" for s2 s3 data
    using manager_receives [OF that(1,2) codec(2) [OF that(3)], of g keyfiles] obeysD [OF read_all_record] that(1)
    by (auto simp: handle_message_def ack_def modify_def manager_hears_def only_record_def)
  have answered: "\<not> b \<and> (\<exists>data n'. hist c2 = (Write (sockfd c1) data, AInt n') # hist c1 \<and>
      (\<forall>s2 s3. manager_hears osm s2 data s3 \<and> data \<noteq> [] \<longrightarrow>
        recv_message osm g keyfiles s2 = Some (Inr (), s3\<lparr>is_syn := False\<rparr>) \<and> s3 = s2\<lparr>hist := hist s3, errno := errno s3\<rparr>))"
    if "client_hears osc c syn c1 \<and> poll_round osc 1 c = Some (Inr b, c2)" for c c1 b c2
    using client [OF conjunct1 [OF that] conjunct2 [OF that]] manager by metis
  show ?thesis
    by (intro conjI exI [of _ syn] exI [of _ n] allI impI answered) (use pending s1(1,4) in auto)
qed

section \<open>Stopping\<close>

lemma manager_stops:
  assumes codec: "shared_codec osm osc" and req: "parse osm req = Some (stop_message pids)" "req \<noteq> []"
    and hears: "manager_hears osm s req s1" and run: "recv_message osm g keyfiles s = Some (Inr (), t)"
  shows "\<exists>found answer n. length found = length pids \<and>
    hist t = (Write (connection s) answer, AInt n) # concat (rev (map2 (stop_events (lockfd s)) pids found)) @ hist s1 \<and>
    answer \<noteq> [] \<and> parse osm answer = Some (message0\<lparr>ms_method := STOP\<rparr>)"
proof -
  have s1: "s1 = s\<lparr>hist := hist s1, errno := errno s1\<rparr>"
    using obeysD [OF read_all_record hears [unfolded manager_hears_def]] by (simp add: only_record_def)
  have same: "lockfd s1 = lockfd s" "connection s1 = connection s"
    by (subst s1, simp)+
  have names: "map rp_pid (ms_runlist (stop_message pids)) = pids" "length (ms_runlist (stop_message pids)) = length pids"
    by (simp_all add: stop_message_def comp_def)
  have "receive_stop osm (ms_runlist (stop_message pids)) s1 = Some (Inr (), t)"
    using run manager_receives [OF hears req(2,1), of g keyfiles] by (simp add: handle_message_def stop_message_def)
  then obtain u where "stopped (lockfd s1) (ms_runlist (stop_message pids)) s1 u" "sent osm (message0\<lparr>ms_method := STOP\<rparr>) u t"
    using wpD [OF receive_stop_sends] by blast
  then show ?thesis
    using codec same names unfolding stopped_def sent_def shared_codec_def codec_ok_def by fastforce
qed

lemma client_is_told:
  assumes "shared_codec osm osc" and "parse osm answer = Some (message0\<lparr>ms_method := STOP\<rparr>)" and "answer \<noteq> []"
    and "client_hears osc k answer k1"
  shows "\<exists>k2. poll_round osc (Suc m) k = Some (Inr True, k2) \<and> ms_method (cmsg k2) = STOP \<and> sockfd k2 = - 1"
  using client_ends [OF assms(4,3), of "message0\<lparr>ms_method := STOP\<rparr>" m] assms(1,2) by (auto simp: shared_codec_def)

text \<open>
  C10: what a client asks to stop is stopped. A \<^verbatim>\<open>stop\<close> that went well wrote one request first; a manager
  that hears it looks up and signals the registered ones of just the processes that were named, in their
  order, and then writes one answer; a client that hears that answer ends its exchange with success.
\<close>

theorem stop_reaches_the_registered:
  assumes "shared_codec osm osc" and "fst (inbox osc (hist c)) = []"
    and "stop_cmd osc pids c = Some (Inr True, c')"
  shows "\<exists>req acks. outbox (hist c') = outbox (hist c) @ req # acks \<and>
    (\<forall>s s1 t. manager_hears osm s req s1 \<and> req \<noteq> [] \<and> recv_message osm g keyfiles s = Some (Inr (), t) \<longrightarrow>
      (\<exists>found answer n. length found = length pids \<and>
        hist t = (Write (connection s) answer, AInt n) # concat (rev (map2 (stop_events (lockfd s)) pids found)) @ hist s1 \<and>
        (\<forall>k k1 m. client_hears osc k answer k1 \<longrightarrow>
          (\<exists>k2. poll_round osc (Suc m) k = Some (Inr True, k2) \<and> ms_method (cmsg k2) = STOP \<and> sockfd k2 = - 1))))"
proof -
  let ?c = "c\<lparr>cmsg := stop_message pids\<rparr>"
  have "exec osc ?c = Some (Inr True, c')"
    using assms(3) by (simp add: stop_cmd_def stop_message_def seq_def bnd_def modify_def)
  moreover have "fst (inbox osc (hist ?c)) = []"
    using assms(2) by simp
  ultimately have "went_well osc ?c c'"
    using wpD [OF exec_went_well] by blast
  then obtain req acks where req: "serialize osc (stop_message pids) = Some req" "outbox (hist c') = outbox (hist c) @ req # acks"
    by (auto simp: went_well_def answered_def talked_def)
  have decoded: "parse osm req = Some (stop_message pids)"
    using assms(1) req(1) by (auto simp: shared_codec_def codec_ok_def)
  have "\<exists>found answer n. length found = length pids \<and>
      hist t = (Write (connection s) answer, AInt n) # concat (rev (map2 (stop_events (lockfd s)) pids found)) @ hist s1 \<and>
      (\<forall>k k1 m. client_hears osc k answer k1 \<longrightarrow>
        (\<exists>k2. poll_round osc (Suc m) k = Some (Inr True, k2) \<and> ms_method (cmsg k2) = STOP \<and> sockfd k2 = - 1))"
    if "manager_hears osm s req s1 \<and> req \<noteq> [] \<and> recv_message osm g keyfiles s = Some (Inr (), t)" for s s1 t
    using manager_stops [OF assms(1) decoded, of s s1 g keyfiles t] client_is_told [OF assms(1)] that by blast
  then show ?thesis
    by (intro exI [of _ req] exI [of _ acks]) (use req(2) in blast)
qed

section \<open>The result\<close>

text \<open>What a program has printed, and what \<^verbatim>\<open>srunctl\<close> prints of a result.\<close>

primrec printed :: "event list \<Rightarrow> string" where
  "printed [] = []"
| "printed (e # h) = printed h @ (case e of (Host (Cout d), _) \<Rightarrow> d | _ \<Rightarrow> [])"

definition shown :: "response \<Rightarrow> string" where
  "shown r = (let line = (\<lambda>x. if x = [] then [] else x @ newline) in case rs_stat r of
      NORMAL \<Rightarrow> line (rs_outstr r) @ line (rs_errstr r)
    | ABNORMAL \<Rightarrow> ''stat: Abnormal'' @ newline
    | TIMEOUT \<Rightarrow> ''stat: Timeout'' @ newline
    | BADARGS \<Rightarrow> ''stat: ArgsError'' @ newline
    | UNKNOWN_STATE _ \<Rightarrow> [])"

lemma report_shows:
  "\<exists>t. report r s = Some (Inr (if rs_stat r = NORMAL then rs_retval r else - 1), t) \<and> printed (hist t) = printed (hist s) @ shown r"
  by (cases "rs_stat r")
    (simp_all add: report_def fail_with_def leave_def destroy_client_def close_sockfd_def closefd_def shown_def Let_def run_defs)

lemma client_gets:
  assumes "client_hears os c d c'" and "d \<noteq> []" and "parse os d = Some m" and "ms_method m \<noteq> SYN"
  shows "\<exists>c''. poll_round os (Suc n) c = Some (Inr True, c'') \<and> cmsg c'' = m \<and> sockfd c'' = - 1 \<and> printed (hist c'') = printed (hist c')"
  using client_receives [OF assms(1-3)] assms(4)
  by (simp add: run_defs close_sockfd_def closefd_def)

text \<open>
  C11: the user is shown what the command did. The manager of a command that is over, outputs and all,
  writes one answer; a client that hears it stops waiting, closes its socket, and \<^verbatim>\<open>srunctl\<close> (not quiet)
  prints the two outputs the manager collected, each unless it is empty, and ends with the exit status
  of the command; for a command that ended in another way it prints how and ends with \<open>- 1\<close>.
\<close>

theorem result_reaches_the_user:
  assumes "shared_codec osm osc" and "exec_over s" and "connection s \<noteq> - 1"
    and "read_process_stop osm s = Some (Inr False, u)" and "\<not> result_sendback u"
    and "deal_with_exit osm s = Some (Inr (), t)"
  shows "\<exists>answer n. hist t = (Write (connection u) answer, AInt n) # hist u \<and>
    (\<forall>k k1 m. client_hears osc k answer k1 \<longrightarrow>
      (\<exists>k2 k3. poll_round osc (Suc m) k = Some (Inr True, k2) \<and> sockfd k2 = - 1 \<and>
        report (the_response (cmsg k2)) k2 =
          Some (Inr (if rs_stat (response u) = NORMAL then rs_retval (response u) else - 1), k3) \<and>
        printed (hist k3) = printed (hist k1) @
          shown ((response u)\<lparr>rs_outstr := str (out u), rs_errstr := str (err u)\<rparr>)))"
proof -
  let ?m = "result_message u" and ?r = "(response u)\<lparr>rs_outstr := str (out u), rs_errstr := str (err u)\<rparr>"
  have m: "the_response ?m = ?r" "ms_method ?m \<noteq> SYN"
    by (simp_all add: result_message_def the_response_def)
  obtain answer n where answer: "serialize osm ?m = Some answer" "answer \<noteq> []"
      "hist t = (Write (connection u) answer, AInt n) # hist u"
    using result_sent [OF assms(2-6)] by (auto simp: sent_def)
  have "parse osc answer = Some ?m"
    using assms(1) answer(1) by (auto simp: shared_codec_def codec_ok_def)
  have heard: "\<exists>k2 k3. poll_round osc (Suc n) k = Some (Inr True, k2) \<and> sockfd k2 = - 1 \<and>
      report (the_response (cmsg k2)) k2 = Some (Inr (if rs_stat (response u) = NORMAL then rs_retval (response u) else - 1), k3) \<and>
      printed (hist k3) = printed (hist k1) @ shown ?r"
    if "client_hears osc k answer k1" for k k1 n
    using client_gets [OF that answer(2) \<open>parse osc answer = Some ?m\<close> m(2), of n] report_shows [of ?r] m(1) by fastforce
  show ?thesis
    by (rule exI [of _ answer], rule exI [of _ n]) (use answer(3) heard in blast)
qed

section \<open>Conversations\<close>

text \<open>An outside that delivers \<open>d\<close> on every connection, with a code for the four messages used.\<close>

definition code :: "(message \<times> string) list" where
  "code = [(message0\<lparr>ms_method := SYN\<rparr>, ''s''), (message0\<lparr>ms_method := ACK\<rparr>, ''a''), (message0\<lparr>ms_method := STOP\<rparr>, ''t''),
     (stop_message [42], ''q'')]"

definition delivers :: "string \<Rightarrow> os" where
  "delivers d = calm\<lparr>bytes_of := (\<lambda>h _. case h of (Read _ _, _) # _ \<Rightarrow> None | _ \<Rightarrow> Some d),
     serialize := map_of code, parse := map_of (map (\<lambda>(m, d). (d, m)) code)\<rparr>"

lemma delivers_codec: "shared_codec (delivers d) (delivers d')"
proof -
  have "map_of (map (\<lambda>(m, d). (d, m)) code) data = Some m" if "map_of code m = Some data" for m data
    using that by (auto simp: code_def stop_message_def message0_def split: if_splits)
  then show ?thesis
    by (simp add: shared_codec_def codec_ok_def delivers_def)
qed

lemma delivers_code [simp]:
  "serialize (delivers d) (message0\<lparr>ms_method := SYN\<rparr>) = Some ''s''" "serialize (delivers d) (message0\<lparr>ms_method := ACK\<rparr>) = Some ''a''"
  "serialize (delivers d) (message0\<lparr>ms_method := STOP\<rparr>) = Some ''t''" "serialize (delivers d) (stop_message [42]) = Some ''q''"
  "parse (delivers d) ''s'' = Some (message0\<lparr>ms_method := SYN\<rparr>)" "parse (delivers d) ''a'' = Some (message0\<lparr>ms_method := ACK\<rparr>)"
  "parse (delivers d) ''t'' = Some (message0\<lparr>ms_method := STOP\<rparr>)" "parse (delivers d) ''q'' = Some (stop_message [42])"
  by (simp_all add: delivers_def code_def stop_message_def message0_def)

lemma delivers_simps [simp]:
  "int_of (delivers d) = calm_int" "errno_of (delivers d) h x = 0" "bool_of (delivers d) h x = Some True"
  "bytes_of (delivers d) ((Read fd n, a) # h) x = None" "bytes_of (delivers d) [] x = Some d"
  "bytes_of (delivers d) ((Write fd w, a) # h) x = Some d" "bytes_of (delivers d) ((Poll fd, a) # h) x = Some d"
  by (simp_all add: delivers_def)

lemma delivers_client:
  assumes "bytes_of (delivers [ch]) (hist c) (Read (sockfd c) BUFSIZE) = Some [ch]"
  shows "recv_all (delivers [ch]) [] c = Some (Inr [ch], c\<lparr>hist := [(Read (sockfd c) BUFSIZE, ABytes None), (Read (sockfd c) BUFSIZE, ABytes (Some [ch]))] @ hist c,
      errno := 0\<rparr>)"
  unfolding recv_all_def
  using assms by (subst loop_unfold, simp add: run_defs BUFSIZE_def, subst loop_unfold, simp add: run_defs BUFSIZE_def)

lemma delivers_manager:
  assumes "bytes_of (delivers [ch]) (hist s) (Read (connection s) BUFSIZE) = Some [ch]"
  shows "read_all (delivers [ch]) [] s = Some (Inr [ch], s\<lparr>hist := [(Read (connection s) BUFSIZE, ABytes None), (Read (connection s) BUFSIZE, ABytes (Some [ch]))] @ hist s,
      errno := 0\<rparr>)"
  using assms by (subst read_all_unfold, simp add: run_defs BUFSIZE_def, subst read_all_unfold, simp add: run_defs BUFSIZE_def)

theorem keepalive_round_trip_witness:
  "\<exists>s1 h c2 n n' s3. check_client (delivers ''a'') running = Some (Inr (), s1) \<and> is_syn s1 \<and> hist s1 = [(Write 2 ''s'', AInt n)] \<and>
     poll_round (delivers ''s'') 1 (Srunc [] 0) = Some (Inr False, c2) \<and> hist c2 = (Write (- 1) ''a'', AInt n') # h \<and>
     recv_message (delivers ''a'') one_group [] s1 = Some (Inr (), s3) \<and> \<not> is_syn s3"
proof -
  have fg: "connection running \<noteq> - 1" "\<not> rq_backend (request running)" "is_syn running = False"
    by (simp_all add: request0_def) (simp add: running_def initial_def)
  obtain s1 n where s1: "check_client (delivers ''a'') running = Some (Inr (), s1)" "hist s1 = [(Write 2 ''s'', AInt n)]"
    using fg by (simp add: check_client_def send_message_def run_defs cint_id int32_def)
  obtain c1 where c1: "client_hears (delivers ''s'') (Srunc [] 0) ''s'' c1" "sockfd c1 = - 1"
    using delivers_client [of "CHR ''s''" "Srunc [] 0"] by (simp add: client_hears_def Srunc_def)
  obtain c2 n' where c2: "poll_round (delivers ''s'') 1 (Srunc [] 0) = Some (Inr False, c2)" "hist c2 = (Write (- 1) ''a'', AInt n') # hist c1"
    using client_receives [OF c1(1), of "message0\<lparr>ms_method := SYN\<rparr>"] c1(2) by (simp add: sendMessage_def run_defs cint_id int32_def)
  obtain s2 where s2: "manager_hears (delivers ''a'') s1 ''a'' s2"
    using delivers_manager [of "CHR ''a''" s1] s1(2) by (simp add: manager_hears_def)
  obtain syn n0 where k: "is_syn s1" "hist s1 = (Write (connection running) syn, AInt n0) # hist running"
    and all: "\<forall>c c1 b c2. client_hears (delivers ''s'') c syn c1 \<and> poll_round (delivers ''s'') 1 c = Some (Inr b, c2) \<longrightarrow>
       \<not> b \<and> (\<exists>data n'. hist c2 = (Write (sockfd c1) data, AInt n') # hist c1 \<and>
         (\<forall>s2 s3. manager_hears (delivers ''a'') s2 data s3 \<and> data \<noteq> [] \<longrightarrow>
            recv_message (delivers ''a'') one_group [] s2 = Some (Inr (), s3\<lparr>is_syn := False\<rparr>) \<and>
            s3 = s2\<lparr>hist := hist s3, errno := errno s3\<rparr>))"
    using keepalive_round_trip [OF delivers_codec [of "''a''" "''s''"] fg(1,2) s1(1), of one_group "[]"] by blast
  have "syn = ''s''"
    using k(2) s1(2) by simp
  with all c1(1) c2(1) obtain data n'' where data: "hist c2 = (Write (sockfd c1) data, AInt n'') # hist c1"
    and fin: "\<forall>s2 s3. manager_hears (delivers ''a'') s2 data s3 \<and> data \<noteq> [] \<longrightarrow>
      recv_message (delivers ''a'') one_group [] s2 = Some (Inr (), s3\<lparr>is_syn := False\<rparr>)"
    by blast
  have "data = ''a''"
    using data c2(2) by simp
  with fin s2 have heard: "recv_message (delivers ''a'') one_group [] s1 = Some (Inr (), s2\<lparr>is_syn := False\<rparr>)"
    by simp
  show ?thesis
    by (rule exI [of _ s1], rule exI [of _ "hist c1"], rule exI [of _ c2], rule exI [of _ n], rule exI [of _ n'], rule exI [of _ "s2\<lparr>is_syn := False\<rparr>"])
      (use s1 c2 k(1) heard in simp)
qed

theorem stop_reaches_the_registered_witness:
  "\<exists>c' t. stop_cmd (delivers ''t'') [42] (Srunc [] 0) = Some (Inr True, c') \<and> outbox (hist c') = [''q''] \<and>
     recv_message (delivers ''q'') one_group [] running = Some (Inr (), t) \<and> (Kill 42 SIGTERM, AUnit) \<in> set (hist t) \<and>
     (\<exists>s1 answer n there. manager_hears (delivers ''q'') running ''q'' s1 \<and> hist t = (Write 2 answer, AInt n) # stop_events 9 42 there @ hist s1)"
proof -
  let ?osc = "delivers ''t''" and ?osm = "delivers ''q''"
  have served: "exec_loop ?osc c = Some (Inr True, u)"
    if "poll_round ?osc 1 (c\<lparr>hist := (Poll (sockfd c), AInt 1) # hist c, errno := 0\<rparr>) = Some (Inr True, u)" for c u
    unfolding exec_loop_def using that by (subst loop_unfold) (simp add: run_defs)
  obtain u c1 where u: "open_connection ?osc ((Srunc [] 0)\<lparr>cmsg := stop_message [42]\<rparr>) = Some (Inr (), u)" "cmsg u = stop_message [42]" "sockfd u = 3"
    "outbox (hist u) = []"
    by (simp add: open_connection_def run_defs Srunc_def)
  let ?v = "u\<lparr>hist := (Write 3 ''q'', AInt 1) # hist u, errno := 0\<rparr>"
  have sent: "sendMessage ?osc (stop_message [42]) u = Some (Inr (), ?v)"
    using u(3) by (simp add: sendMessage_def run_defs cint_id int32_def)
  let ?w = "?v\<lparr>hist := (Poll 3, AInt 1) # hist ?v, errno := 0\<rparr>"
  obtain x where x: "client_hears ?osc ?w ''t'' x" "outbox (hist x) = [''q'']"
    using delivers_client [of "CHR ''t''" ?w] u(3,4) by (simp add: client_hears_def)
  obtain c' where c': "poll_round ?osc (Suc 0) ?w = Some (Inr True, c')" "outbox (hist c') = [''q'']"
    using client_ends [OF x(1), of "message0\<lparr>ms_method := STOP\<rparr>" 0] x(2) by auto
  have "exec ?osc ((Srunc [] 0)\<lparr>cmsg := stop_message [42]\<rparr>) = Some (Inr True, c')"
    using u sent served [of ?v c'] c'(1) by (simp add: exec_def try_catch_def seq_def bnd_def get_def)
  then have stop: "stop_cmd ?osc [42] (Srunc [] 0) = Some (Inr True, c')"
    by (simp add: stop_cmd_def stop_message_def seq_def bnd_def modify_def)
  have silent: "fst (inbox ?osc (hist (Srunc [] 0))) = []"
    by (simp add: Srunc_def)
  obtain s1 where s1: "manager_hears ?osm running ''q'' s1"
    using delivers_manager [of "CHR ''q''" running] by (simp add: manager_hears_def)
  have quick: "\<exists>t. recv_message ?osm one_group [] running = Some (Inr (), t) \<and> (Kill 42 SIGTERM, AUnit) \<in> set (hist t)"
    using manager_receives [OF s1, of "stop_message [42]" one_group "[]"]
    by (simp add: handle_message_def stop_message_def receive_stop_def stop_proc_def locked_def send_message_def run_defs cint_id int32_def)
  then obtain t where t: "recv_message ?osm one_group [] running = Some (Inr (), t)" "(Kill 42 SIGTERM, AUnit) \<in> set (hist t)"
    by blast
  obtain req acks where out: "outbox (hist c') = outbox (hist (Srunc [] 0)) @ req # acks"
    and all: "\<forall>s s1 t. manager_hears ?osm s req s1 \<and> req \<noteq> [] \<and> recv_message ?osm one_group [] s = Some (Inr (), t) \<longrightarrow>
      (\<exists>found answer n. length found = length [42 :: int] \<and>
        hist t = (Write (connection s) answer, AInt n) # concat (rev (map2 (stop_events (lockfd s)) [42] found)) @ hist s1 \<and>
        (\<forall>k k1 m. client_hears ?osc k answer k1 \<longrightarrow>
          (\<exists>k2. poll_round ?osc (Suc m) k = Some (Inr True, k2) \<and> ms_method (cmsg k2) = STOP \<and> sockfd k2 = - 1)))"
    using stop_reaches_the_registered [OF delivers_codec [of "''q''" "''t''"] silent stop, of one_group "[]"] by blast
  have "req = ''q''"
    using out c'(2) by (simp add: Srunc_def)
  with all s1 t(1) obtain found answer n where "length found = length [42 :: int]"
    "hist t = (Write (connection running) answer, AInt n) # concat (rev (map2 (stop_events (lockfd running)) [42] found)) @ hist s1"
    by blast
  then have "\<exists>answer n there. hist t = (Write 2 answer, AInt n) # stop_events 9 42 there @ hist s1"
    by (auto simp: length_Suc_conv)
  then show ?thesis
    using stop c'(2) t s1 by blast
qed

text \<open>A client that hears \<open>''m''\<close>, with the code of the manager whose command said hello.\<close>

definition hears_m :: os where
  "hears_m = (speaks result42)\<lparr>bytes_of := (\<lambda>h _. case h of (Read _ _, _) # _ \<Rightarrow> None | _ \<Rightarrow> Some ''m'')\<rparr>"

lemma hears_m_simps [simp]:
  "bytes_of hears_m ((Read fd n, a) # h) x = None" "bytes_of hears_m [] x = Some ''m''" "errno_of hears_m h x = 0"
  by (simp_all add: hears_m_def)

lemma hears_m_codec: "shared_codec (speaks result42) hears_m"
  using speaks_codec by (simp add: shared_codec_def hears_m_def)

lemma hears_m_recv: "client_hears hears_m (Srunc [] 0) ''m'' ((Srunc [] 0)\<lparr>hist :=
    [(Read (- 1) BUFSIZE, ABytes None), (Read (- 1) BUFSIZE, ABytes (Some ''m''))]\<rparr>)"
  unfolding client_hears_def recv_all_def Srunc_def
  by (subst loop_unfold, simp add: run_defs BUFSIZE_def, subst loop_unfold, simp add: run_defs BUFSIZE_def)

theorem result_reaches_the_user_witness:
  "\<exists>t k2 k3. deal_with_exit (speaks result42) finished = Some (Inr (), t) \<and>
     poll_round hears_m 1 (Srunc [] 0) = Some (Inr True, k2) \<and>
     report (the_response (cmsg k2)) k2 = Some (Inr 0, k3) \<and> printed (hist k3) = ''hello'' @ newline"
proof -
  let ?os = "speaks result42"
  obtain u where u: "read_process_stop ?os finished = Some (Inr False, u)" "\<not> result_sendback u" "connection u = 2"
    "str (out u) = ''hello''" "str (err u) = []" "response u = response0"
    by (simp add: read_process_stop_def run_defs finished_def running_def initial_def Output_def)
  obtain t where t: "deal_with_exit ?os finished = Some (Inr (), t)"
    by (simp add: deal_with_exit_def exec_over_def read_process_stop_def send_response_def send_message_def result42_def
        run_defs finished_def running_def initial_def cint_id int32_def response0_def Output_def)
  have over: "exec_over finished" "connection finished \<noteq> - 1"
    by (simp_all add: finished_def exec_over_def)
  have sent: "\<exists>n. hist t = (Write 2 ''m'', AInt n) # hist u"
    using result_sent [OF over u(1,2) t] u(3) by (auto simp: sent_def split: if_splits)
  from result_reaches_the_user [OF hears_m_codec over u(1,2) t] sent u(3) hears_m_recv
  have "\<exists>k2 k3. poll_round hears_m (Suc 0) (Srunc [] 0) = Some (Inr True, k2) \<and>
      report (the_response (cmsg k2)) k2 = Some (Inr (if rs_stat (response u) = NORMAL then rs_retval (response u) else - 1), k3) \<and>
      printed (hist k3) = [] @ shown ((response u)\<lparr>rs_outstr := str (out u), rs_errstr := str (err u)\<rparr>)"
    by fastforce
  then show ?thesis
    using t u(4-6) by (simp add: shown_def response0_def)
qed

end
