(* ===== verification/ManagerSystem.thy ===== *)
theory ManagerSystem
  imports ManagerRuns
begin

text \<open>
  The managers of one daemon side by side. Each connection has its own, and they share the directory
  of registrations and the lock file. A run of the system is an interleaving of their records; what
  connects them is the kernel: a file is found only when it is there, and a lock is granted only
  when no conflicting one is held.
\<close>

section \<open>Interleaved records\<close>

text \<open>What the process \<open>p\<close> did in a run of the system, newest first like every record.\<close>

definition own :: "'p \<Rightarrow> ('p \<times> event) list \<Rightarrow> event list" where
  "own p tr = map snd (filter (\<lambda>(q, e). q = p) tr)"

lemma own_simps [simp]:
  "own p [] = []" "own p ((q, e) # tr) = (if q = p then e # own p tr else own p tr)"
  "own p (tr @ tr') = own p tr @ own p tr'"
  by (simp_all add: own_def)

lemma own_mem: "e \<in> set (own p tr) \<longleftrightarrow> (p, e) \<in> set tr"
  by (force simp: own_def)

lemma own_tagged: "own p (map (Pair q) es) = (if p = q then es else [])"
  by (induction es) auto

text \<open>
  Every process of the run is a manager that has come so far: there is a run of \<^verbatim>\<open>manager_start\<close>, with
  an outside of its own, that goes on with \<open>es\<close>. The configuration and the descriptor of the lock
  file are those of the daemon; the record of a manager begins where it was forked.
\<close>

definition manager_did :: "'k glib \<Rightarrow> (string \<times> 'k) list \<Rightarrow> int \<Rightarrow> event list \<Rightarrow> bool" where
  "manager_did g keyfiles lock h \<longleftrightarrow> (\<exists>os fd e stop r t es. clone_pids os \<and>
     manager_start os g keyfiles fd (initial [] e stop lock) = Some (r, t) \<and> hist t = es @ h)"

definition managers :: "'k glib \<Rightarrow> (string \<times> 'k) list \<Rightarrow> int \<Rightarrow> ('p \<times> event) list \<Rightarrow> bool" where
  "managers g keyfiles lock tr \<longleftrightarrow> (\<forall>p\<in>fst ` set tr. manager_did g keyfiles lock (own p tr))"

lemma manager_did_before: "manager_did g keyfiles lock (es @ h) \<Longrightarrow> manager_did g keyfiles lock h"
  unfolding manager_did_def by (metis append.assoc)

lemma managers_before: "managers g keyfiles lock (later @ before) \<Longrightarrow> managers g keyfiles lock before"
  by (auto simp: managers_def intro: manager_did_before)

lemma managers_one:
  assumes "clone_pids os" and "manager_start os g keyfiles fd (initial [] e stop lock) = Some (r, t)"
  shows "managers g keyfiles lock (map (Pair p) (hist t))"
proof -
  have "hist t = [] @ hist t"
    by simp
  with assms have "manager_did g keyfiles lock (hist t)"
    unfolding manager_did_def by blast
  then show ?thesis
    by (auto simp: managers_def own_tagged)
qed

lemma own_absent: "p \<notin> fst ` set tr \<Longrightarrow> own p tr = []"
  by (induction tr) auto

lemma managers_append:
  assumes "managers g keyfiles lock tr" and "managers g keyfiles lock tr'" and "fst ` set tr \<inter> fst ` set tr' = {}"
  shows "managers g keyfiles lock (tr @ tr')"
  unfolding managers_def
proof
  fix p
  assume "p \<in> fst ` set (tr @ tr')"
  then have "p \<in> fst ` set tr \<and> own p tr' = [] \<or> p \<in> fst ` set tr' \<and> own p tr = []"
    using assms(3) own_absent [of p tr] own_absent [of p tr'] by (auto simp: disjoint_iff)
  then show "manager_did g keyfiles lock (own p (tr @ tr'))"
    using assms(1,2) by (auto simp: managers_def)
qed

lemma managers_pair:
  assumes "p \<noteq> q" and "managers g keyfiles lock (map (Pair p) k)" and "managers g keyfiles lock (map (Pair q) k')"
  shows "managers g keyfiles lock (map (Pair p) k @ map (Pair q) k')"
  using assms by (intro managers_append) auto

text \<open>The life of a command, at an earlier point of the record.\<close>

inductive_cases life_run_ConsE: "life_run h0 (e # h) l"

lemma life_run_before: "life_run [] (es @ h) l \<Longrightarrow> \<exists>l'. life_run [] h l'"
  by (induction es arbitrary: l) (auto elim: life_run_ConsE)

inductive_simps life_step_write: "life_step l (Fopen path ''w'', a) l'"

lemma registered_while_running:
  assumes "life_run [] ((Fopen (proc_file n) ''w'', a) # h) l"
  shows "n \<in> live h"
proof -
  obtain l' where l': "life_run [] h l'" "life_step l' (Fopen (proc_file n) ''w'', a) l"
    using assms by (auto elim: life_run_ConsE)
  then obtain m where m: "l' = Running m" "own_file m (proc_file n)"
    by (auto simp: life_step_write neutral_def)
  then have "n = m"
    using cgroup_not_tmpfs [of m] proc_file_under [of n] by (auto simp: own_file_def proc_file_def [of n] proc_file_def [of m] to_string_inj)
  then show ?thesis
    using run_alive [OF l'(1)] m(1) by simp
qed

text \<open>What the invariants of a manager say of each of them.\<close>

lemma manager_record:
  assumes "managers g keyfiles lock tr" and "(p, e) \<in> set tr"
  shows "(\<exists>l. life_run [] (own p tr) l) \<and> all_events kill_ok (own p tr) \<and> all_events (lock_ok lock) (own p tr)"
proof -
  obtain os fd e' stop r t es where os: "clone_pids os"
    and run: "manager_start os g keyfiles fd (initial [] e' stop lock) = Some (r, t)" and t: "hist t = es @ own p tr"
    using assms unfolding managers_def manager_did_def by force
  have "tracked [] t" and "sound t" and "guarded lock t"
    using obeys_keepsD [OF tracking.k_manager_start [OF os] run] obeys_keepsD [OF soundness.k_manager_start [OF os] run]
      obeys_keepsD [OF locks_manager_start run] initial_tracked initial_sound [of "[]"]
    by (simp_all add: guarded_def initial_def)
  then show ?thesis
    using t life_run_before unfolding tracked_def sound_def guarded_def
    by (metis all_events_append(1))
qed

lemma manager_record_before:
  assumes "managers g keyfiles lock tr" and "tr = later @ (p, e) # before"
  shows "\<exists>l. life_run [] (e # own p before) l" "kill_ok e (own p before)" "lock_ok lock e (own p before)"
  using manager_record [OF managers_before [OF assms(1) [unfolded assms(2)]], of p e] by simp_all

section \<open>Stopping across managers\<close>

text \<open>
  The registrations that are there: those that were left when the daemon started, since a file system
  that is already mounted is used as it is, and those that some process has opened for writing since,
  less those that were removed.
\<close>

fun present :: "string set \<Rightarrow> ('p \<times> event) list \<Rightarrow> string \<Rightarrow> bool" where
  "present left [] path \<longleftrightarrow> path \<in> left"
| "present left ((p, e) # tr) path = (case fst e of
      Fopen path' how \<Rightarrow> path' = path \<and> how = ''w'' \<or> present left tr path
    | Unlink path' \<Rightarrow> path' \<noteq> path \<and> present left tr path
    | _ \<Rightarrow> present left tr path)"

text \<open>A registration is found only when it is there.\<close>

fun honest :: "string set \<Rightarrow> ('p \<times> event) list \<Rightarrow> bool" where
  "honest left [] = True"
| "honest left ((p, e) # tr) \<longleftrightarrow> honest left tr \<and> (case e of
      (Exists path, ABool (Some True)) \<Rightarrow> under_tmpfs path \<longrightarrow> present left tr path
    | _ \<Rightarrow> True)"

lemma honest_Cons:
  assumes "honest left tr" and "\<And>path. e = (Exists path, ABool (Some True)) \<Longrightarrow> under_tmpfs path \<Longrightarrow> present left tr path"
  shows "honest left ((p, e) # tr)"
  using assms by (cases e; cases "fst e") (auto split: answer.split option.split bool.split)

lemma honest_before: "honest left (later @ before) \<Longrightarrow> honest left before"
  by (induction later) auto

lemma found_is_present:
  "honest left ((p, (Exists (proc_file n), ABool (Some True))) # tr) \<Longrightarrow> present left tr (proc_file n)"
  by (simp add: proc_file_under)

lemma present_was_written:
  assumes "present left tr path" and "path \<notin> left"
  shows "\<exists>x m a mid. tr = x @ (m, (Fopen path ''w'', a)) # mid \<and> (\<forall>z\<in>set x. fst (snd z) \<noteq> Unlink path)"
  using assms(1)
proof (induction tr)
  case (Cons z tr)
  obtain p c a where z: "z = (p, (c, a))"
    by (cases z) auto
  show ?case
  proof (cases "c = Fopen path ''w''")
    case True
    then have "z # tr = [] @ (p, (Fopen path ''w'', a)) # tr"
      by (simp add: z)
    then show ?thesis
      by (metis empty_iff empty_set)
  next
    case False
    then have "present left tr path" and c: "c \<noteq> Unlink path"
      using Cons.prems by (auto simp: z split: call.splits)
    then obtain x m a' mid where "tr = x @ (m, (Fopen path ''w'', a')) # mid" "\<forall>z\<in>set x. fst (snd z) \<noteq> Unlink path"
      using Cons.IH by blast
    then have "z # tr = (z # x) @ (m, (Fopen path ''w'', a')) # mid" "\<forall>z\<in>set (z # x). fst (snd z) \<noteq> Unlink path"
      using c by (simp_all add: z)
    then show ?thesis
      by blast
  qed
qed (use assms(2) in simp)

lemma live_or_reaped: "n \<in> live h \<Longrightarrow> n \<in> live (es @ h) \<or> (\<exists>w. (WaitPid, AWait n w) \<in> set es)"
proof (induction es)
  case (Cons e es)
  then show ?case
    by (cases e; cases "fst e") (auto split: answer.split)
qed simp

text \<open>
  The process \<open>n\<close> is registered by a manager: it wrote the registration when \<open>n\<close> was its living child,
  nobody has removed it since, and \<open>n\<close> is still its living child or was reaped by it since.
\<close>

definition registered :: "('p \<times> event) list \<Rightarrow> int \<Rightarrow> bool" where
  "registered tr n \<longleftrightarrow> (\<exists>x m a mid. tr = x @ (m, (Fopen (proc_file n) ''w'', a)) # mid \<and>
     n \<in> live (own m mid) \<and> (\<forall>z\<in>set x. fst (snd z) \<noteq> Unlink (proc_file n)) \<and>
     (n \<in> live (own m tr) \<or> (\<exists>w. (m, (WaitPid, AWait n w)) \<in> set x)))"

lemma present_registered:
  assumes "managers g keyfiles lock tr" and "present left tr (proc_file n)" and "proc_file n \<notin> left"
  shows "registered tr n"
proof -
  obtain x m a mid where x: "tr = x @ (m, (Fopen (proc_file n) ''w'', a)) # mid"
    "\<forall>z\<in>set x. fst (snd z) \<noteq> Unlink (proc_file n)"
    using present_was_written [OF assms(2,3)] by blast
  have "n \<in> live (own m mid)"
    using manager_record_before(1) [OF assms(1) x(1)] by (auto dest: registered_while_running)
  moreover have "n \<in> live (own m tr) \<or> (\<exists>w. (m, (WaitPid, AWait n w)) \<in> set x)"
    using live_or_reaped [OF calculation, of "own m x @ [(Fopen (proc_file n) ''w'', a)]"] by (auto simp: x(1) own_mem)
  ultimately show ?thesis
    using x unfolding registered_def by blast
qed

lemma own_ConsD: "own p tr = e # h \<Longrightarrow> \<exists>y rest. tr = y @ (p, e) # rest \<and> own p y = [] \<and> own p rest = h"
proof (induction tr)
  case (Cons z tr)
  obtain q e' where z: "z = (q, e')"
    by (cases z)
  show ?case
  proof (cases "q = p")
    case True
    then show ?thesis
      using Cons.prems by (intro exI [of _ "[]"] exI [of _ tr]) (simp add: z)
  next
    case False
    then obtain y rest where "tr = y @ (p, e) # rest" "own p y = []" "own p rest = h"
      using Cons by (auto simp: z)
    then show ?thesis
      using False by (intro exI [of _ "z # y"] exI [of _ rest]) (simp add: z)
  qed
qed simp


section \<open>The lock file\<close>

text \<open>
  \<^verbatim>\<open>flock\<close> locks an open file description, and \<open>desc p\<close> is the one that the descriptor of the process
  \<open>p\<close> refers to. A process that already holds a lock on it converts it; another process with the
  same description does the same, since the lock is not its own but the description's.
\<close>

fun lock_table :: "('p \<Rightarrow> 'd) \<Rightarrow> ('p \<times> event) list \<Rightarrow> 'd \<Rightarrow> lockop" where
  "lock_table desc [] d = LOCK_UN"
| "lock_table desc ((p, e) # tr) d = (case fst e of
      Flock _ op \<Rightarrow> if desc p = d then op else lock_table desc tr d
    | _ \<Rightarrow> lock_table desc tr d)"

definition compatible :: "lockop \<Rightarrow> lockop \<Rightarrow> bool" where
  "compatible a b \<longleftrightarrow> a = LOCK_UN \<or> b = LOCK_UN \<or> a = LOCK_SH \<and> b = LOCK_SH"

text \<open>
  The interleavings that the kernel lets happen: a lock is granted when no other description
  holds a conflicting one. (A wait for a lock that a signal interrupts is left out.)
\<close>

inductive schedule :: "('p \<Rightarrow> 'd) \<Rightarrow> ('p \<times> event) list \<Rightarrow> bool" for desc where
  begins: "schedule desc []"
| passes: "schedule desc tr \<Longrightarrow> (\<And>l op. fst e \<noteq> Flock l op) \<Longrightarrow> schedule desc ((p, e) # tr)"
| granted: "schedule desc tr \<Longrightarrow> (\<And>d. d \<noteq> desc p \<Longrightarrow> compatible op (lock_table desc tr d)) \<Longrightarrow>
    schedule desc ((p, (Flock l op, a)) # tr)"

inductive_cases schedule_ConsE: "schedule desc ((p, e) # tr)"

lemma schedule_before: "schedule desc (later @ before) \<Longrightarrow> schedule desc before"
  by (induction later) (auto elim: schedule_ConsE)

text \<open>With a description of its own, what a process asked for last is what it holds.\<close>

lemma lock_table_own: "inj desc \<Longrightarrow> lock_table desc tr (desc p) = lock_state (own p tr)"
  by (induction tr) (auto simp: inj_eq split: call.split)

lemma separate_compatible:
  assumes "inj desc" and "schedule desc tr" and "p \<noteq> q"
  shows "compatible (lock_state (own p tr)) (lock_state (own q tr))"
  using assms(2,3)
proof (induction arbitrary: p q rule: schedule.induct)
  case begins
  then show ?case
    by (simp add: compatible_def)
next
  case (passes tr e r)
  then show ?case
    by (cases "fst e") auto
next
  case (granted tr r op l a)
  have "compatible op (lock_state (own x tr))" if "x \<noteq> r" for x
    using granted.hyps(2) [of "desc x"] that assms(1) by (simp add: inj_eq lock_table_own)
  then show ?case
    using granted.IH [OF granted.prems] granted.prems by (auto simp: compatible_def)
qed

lemma lock_table_unused: "(\<And>p. desc p \<noteq> d) \<Longrightarrow> lock_table desc tr d = LOCK_UN"
  by (induction tr) (auto split: call.split)

text \<open>With one description for all of them, nobody ever waits.\<close>

lemma shared_schedule:
  assumes "\<And>p q. desc p = desc q"
  shows "schedule desc tr"
proof (induction tr)
  case (Cons x tr)
  obtain p c a where x: "x = (p, (c, a))"
    by (cases x) auto
  have "compatible op (lock_table desc tr d)" if "d \<noteq> desc p" for op d
    using that assms lock_table_unused [of desc d tr] by (metis compatible_def)
  then have "schedule desc ((p, (Flock l op, a)) # tr)" for l op
    by (rule schedule.granted [OF Cons])
  moreover have "\<lbrakk>\<And>l op. c \<noteq> Flock l op\<rbrakk> \<Longrightarrow> schedule desc ((p, (c, a)) # tr)"
    by (rule schedule.passes [OF Cons]) simp
  ultimately show ?case
    unfolding x by blast
qed (rule schedule.begins)


section \<open>Two managers\<close>

lemma starter_clone_pids: "n > 0 \<Longrightarrow> clone_pids (starter n)"
  by (simp add: clone_pids_def)

text \<open>The record of a manager, cut where it has just opened the registration of its command.\<close>

lemma starter_record:
  assumes "n > 0"
  obtains k es a h where "managers one_group [] 9 (map (Pair p) k)" "lock_state k = LOCK_UN" "\<forall>e\<in>set k. harmless e"
    "k = es @ (Fopen (proc_file n) ''w'', a) # h" "lock_state h = LOCK_EX" "n \<in> live h"
proof -
  obtain x t where run: "manager_start (starter n) one_group [] 2 (initial [] 0 False 9) = Some (Inl (Raise x), t)"
    and t: "Fopen (proc_file n) ''w'' \<in> fst ` set (hist t)" "\<forall>e\<in>set (hist t). harmless e"
    using starter_run [OF assms] by (auto simp: started_def)
  obtain a where a: "(Fopen (proc_file n) ''w'', a) \<in> set (hist t)"
    using t(1) by auto
  obtain es h where h: "hist t = es @ (Fopen (proc_file n) ''w'', a) # h"
    using split_list [OF a] by blast
  have whole: "managers one_group [] 9 (map (Pair p) (hist t))"
    by (rule managers_one [OF starter_clone_pids [OF assms] run])
  then have part: "managers one_group [] 9 (map (Pair p) ((Fopen (proc_file n) ''w'', a) # h))"
    unfolding h map_append by (rule managers_before)
  from manager_record_before [OF part, of "[]" p "(Fopen (proc_file n) ''w'', a)" "map (Pair p) h"]
  have "\<exists>l. life_run [] ((Fopen (proc_file n) ''w'', a) # h) l" "lock_ok 9 (Fopen (proc_file n) ''w'', a) h"
    by (simp_all add: own_tagged)
  then have "lock_state h = LOCK_EX" and "n \<in> live h"
    using proc_file_under [of n] lock_okD [of 9 "(Fopen (proc_file n) ''w'', a)" h] registered_while_running by auto
  moreover have "lock_state (hist t) = LOCK_UN"
    using obeys_keepsD [OF locks_manager_start run, of 9] by (simp add: guarded_def initial_def)
  ultimately show thesis
    using that [OF whole _ t(2) h] by simp
qed

lemma stopper_record:
  obtains k es h where "managers one_group [] 9 (map (Pair p) k)" "k = es @ (Kill 42 SIGTERM, AUnit) # h"
    "\<forall>e\<in>set k. (fst e = Exists (proc_file 42) \<or> harmless e) \<and> (\<forall>b. fst e \<noteq> Clone b)"
proof -
  obtain t where run: "manager_start stopper one_group [] 2 (initial [] 0 False 9) = Some (Inl (Raise (CAPIException ''epoll_wait'' 9)), t)"
    and t: "(Kill 42 SIGTERM, AUnit) \<in> set (hist t)"
      "\<forall>e\<in>set (hist t). (fst e = Exists (proc_file 42) \<or> harmless e) \<and> (\<forall>b. fst e \<noteq> Clone b)"
    using stopper_run by blast
  obtain es h where h: "hist t = es @ (Kill 42 SIGTERM, AUnit) # h"
    using split_list [OF t(1)] by blast
  show thesis
    by (rule that [OF managers_one [OF stopper_clone_pids run] h t(2)])
qed

lemma live_without_clone: "\<forall>e\<in>set h. \<forall>b. fst e \<noteq> Clone b \<Longrightarrow> live h = {}"
proof (induction h)
  case (Cons e h)
  then show ?case
    by (cases e; cases "fst e") (auto split: answer.split)
qed simp

lemma harmless_keeps: "harmless e \<Longrightarrow> fst e \<noteq> Unlink path"
  by (cases e) auto

lemma present_stays:
  "\<forall>e\<in>set k. fst e \<noteq> Unlink path \<Longrightarrow> present left tr path \<Longrightarrow> present left (map (Pair p) k @ tr) path"
  by (induction k) (auto split: call.split)

lemma harmless_honest: "\<forall>e\<in>set k. harmless e \<Longrightarrow> honest left tr \<Longrightarrow> honest left (map (Pair p) k @ tr)"
  by (induction k) (auto simp del: honest.simps intro!: honest_Cons)

lemma registered_honest:
  assumes "present left tr (proc_file n)" and "honest left tr"
    and "\<forall>e\<in>set k. fst e = Exists (proc_file n) \<or> harmless e"
  shows "honest left (map (Pair p) k @ tr)"
  using assms(3)
proof (induction k)
  case (Cons e k)
  then have "honest left (map (Pair p) k @ tr)"
    by simp
  moreover have "\<forall>e\<in>set k. fst e \<noteq> Unlink (proc_file n)"
    using Cons.prems harmless_keeps by fastforce
  then have "present left (map (Pair p) k @ tr) (proc_file n)"
    using assms(1) by (rule present_stays)
  ultimately show ?case
    using Cons.prems by (auto simp del: honest.simps intro!: honest_Cons)
qed (use assms(2) in simp)


lemma schedule_alone:
  assumes "schedule desc tr" and "\<And>d. d \<noteq> desc p \<Longrightarrow> lock_table desc tr d = LOCK_UN"
  shows "schedule desc (map (Pair p) k @ tr)"
proof -
  have table: "lock_table desc (map (Pair p) k @ tr) d = LOCK_UN" if "d \<noteq> desc p" for k d
    using that assms(2) by (induction k) (auto split: call.split)
  show ?thesis
  proof (induction k)
    case (Cons e k)
    obtain c b where e: "e = (c, b)"
      by (cases e)
    show ?case
    proof (cases "\<exists>l op. c = Flock l op")
      case True
      then show ?thesis
        using Cons schedule.granted [OF Cons, of p] table by (auto simp: e compatible_def)
    next
      case False
      then show ?thesis
        using schedule.passes [OF Cons, of e p] by (simp add: e)
    qed
  qed (use assms(1) in simp)
qed


end
