(* ===== verification/Spec2Isabelle.thy ===== *)
theory Spec2Isabelle
  imports GuardForms SrunctlProps RequestTypes DaemonRuns Session ManagerSystem
begin

text \<open>
  A model of \<^verbatim>\<open>srun\<close>, a daemon that runs commands for its clients under a user, a timeout and a memory
  limit of their own. A client (\<^verbatim>\<open>src/src/srunc.cpp\<close>, \<^verbatim>\<open>src/src/srunctl.cpp\<close>) sends a protobuf message
  over a Unix socket; the daemon (\<^verbatim>\<open>src/src/srund.cpp\<close>) accepts the connection and forks a manager
  (\<^verbatim>\<open>src/src/manager.cpp\<close>) for it; the manager clones the command, collects its two outputs
  (\<^verbatim>\<open>src/src/output.cpp\<close>), waits for it in an event loop and sends the result back. It also lists and
  stops the commands that other managers run, which it knows from registration files in a tmpfs, kept
  under an advisory lock. A request can name a group of the configuration (\<^verbatim>\<open>src/src/config.cpp\<close>) that
  completes it.

  How programs are modelled. A C++ function is a \<open>prog\<close> (theory \<open>Prelude\<close>): a function from a state to
  an optional outcome and state, where \<open>None\<close> is a run that does not end, \<open>Inl\<close> an abrupt end (an
  exception, \<^verbatim>\<open>exit\<close>, \<^verbatim>\<open>abort\<close>, undefined behaviour, replacement by \<^verbatim>\<open>execv\<close>) and \<open>Inr\<close> a result. The
  combinators are sequence, choice, \<^verbatim>\<open>try\<close> and iteration; loops that may run for ever are
  \<open>partial_function (option)\<close>. Everything outside the sources (the kernel, boost, glib, the generated
  protobuf code) is the parameter \<open>os\<close> (theory \<open>Sys\<close>), or \<open>glib\<close> (theory \<open>Config\<close>): each answer is an
  arbitrary function of the calls made so far, and each call with its answer is recorded in \<open>hist\<close>,
  newest first. Theorems hold for every such outside; what the manual pages promise is a named
  hypothesis: \<open>fresh_fds\<close> (a new descriptor is not one that is open), \<open>clone_pids\<close>, \<open>child_bound\<close>
  (\<^verbatim>\<open>waitpid\<close> delivers no more processes than there are), \<open>codec_ok\<close> (a message that is encoded decodes
  to itself), \<open>input_bound\<close> (a peer sends finitely much), \<open>honest\<close> (a file is found only where it is),
  \<open>schedule\<close> (\<^verbatim>\<open>flock\<close> grants no conflicting locks). Machine integers are \<open>int\<close> with the conversion
  to 32 bits (\<open>cint\<close>) and signed overflow (\<open>add_int\<close>, undefined) written out, theory \<open>CLib\<close>.

  The theories, foundations first.
  \<^item> \<open>Prelude\<close>: programs, their weakest preconditions (collection \<open>wp\<close>, equations that run a program
    symbolically), that a program returns (collection \<open>returns\<close>), and the locale \<open>contract\<close>: a preorder
    on states that programs obey, closed under everything programs are composed with. It is
    interpreted for what each invariant below needs: the record of calls only grows, nothing outside
    one field changes, descriptors are tidy. \<open>Loops\<close>: loops that may run for ever, as a combinator with one
    rule. \<open>Raises\<close>: programs whose only abrupt ends are exceptions.
  \<^item> \<open>CLib\<close>: \<^verbatim>\<open>to_string\<close>, \<^verbatim>\<open>atoi\<close>, \<^verbatim>\<open>c_str\<close>, \<^verbatim>\<open>find_first_of\<close>; the naming of files by process number.
  \<^item> \<open>Proto\<close>: the messages of \<^verbatim>\<open>src/proto/proto3/srun.proto\<close>. \<open>Globals\<close>: \<^verbatim>\<open>src/src/global.h\<close>.
  \<^item> \<open>Guard\<close>, \<open>GuardForms\<close>: \<^verbatim>\<open>src/src/common/LokiScopeGuard.hpp\<close> and \<^verbatim>\<open>LokiRefToValue.hpp\<close>. A guard that is
    handed over by copying executes once; a parameter passed by value is read when the guard is made,
    one passed by reference when it runs.
  \<^item> \<open>Sys\<close>: the calls, the outside, the record; and the outside \<open>calm\<close>, in which every call succeeds,
    on which the examples are built. \<open>Trace\<close>: properties of all recorded calls, and the locale
    \<open>recording\<close> of the contracts that judge calls. \<open>Fds\<close>: descriptors held in variables against those
    the record says are open.
  \<^item> \<open>Utils\<close>: \<^verbatim>\<open>src/src/utils.cpp\<close>; the outcome of writing and of reading a file on every path.
  \<^item> \<open>Config\<close>: \<^verbatim>\<open>src/src/config.cpp\<close>; filling a request is an overlay of the group on the request,
    unless the group has the key \<^verbatim>\<open>env1\<close>: then it does not end; the main file wins.
  \<^item> \<open>Output\<close>, \<open>OutputLife\<close>: \<^verbatim>\<open>src/src/output.cpp\<close>; what the two reading loops collect, the limit
    of 8 MB that holds and that of 32 MB that does not; the descriptors over the life of an output.

  The manager.
  \<^item> \<open>Manager\<close>: all of \<^verbatim>\<open>src/src/manager.cpp\<close>, one definition per function or named part of one; its
    file-static variables are the record \<open>mgr\<close>.
  \<^item> \<open>ManagerSafe\<close>: the locale \<open>manager_invariant\<close>, which passes an invariant from five kinds of
    operations to every run of \<^verbatim>\<open>manager_start\<close>, however it ends; interpreted for the justification of
    signals, and in \<open>ManagerLife\<close> for the refinement of an abstract machine of a command's life, which
    starts, runs, ends and is cleaned up, one command at a time.
  \<^item> \<open>ManagerLock\<close>, \<open>ManagerFds\<close>: two more invariants of every run, when it asks for the lock and what it
    closes.
  \<^item> \<open>ManagerRequest\<close>: the search for the command, the timer, the memory limits. \<open>ManagerChild\<close>: what the
    child does before it becomes the command. \<open>ManagerMessages\<close>: sending, and the answer to each kind of
    message. \<open>ManagerLoop\<close>: reaping, the result, leaving, termination of a round of the loop.
  \<^item> \<open>ManagerRuns\<close>: runs of the manager evaluated in the kernel, to which the theorems are applied.
  \<^item> \<open>ManagerSystem\<close>: any number of managers at once, as an interleaving of the records of their runs,
    with the registrations and the lock file between them: what one manager signals another one has
    registered; and the lock keeps two managers apart if each has opened the lock file, but not if they
    share the description they inherited, as the managers of this daemon do.

  The clients and the daemon.
  \<^item> \<open>Srunc\<close>: \<^verbatim>\<open>src/src/srunc.cpp\<close> and \<^verbatim>\<open>srunc.h\<close>. \<open>SruncDialog\<close>: the client refines an abstract dialogue,
    and ends. \<open>SruncFiles\<close>: the files it creates, and that it leaks no descriptor.
  \<^item> \<open>Getopt\<close>: \<^verbatim>\<open>getopt\<close> of the C library. \<open>Srunctl\<close>, \<open>SrunctlProps\<close>: \<^verbatim>\<open>src/src/srunctl.cpp\<close>; options are read
    as they are written, stop requests name processes, running times read back. \<open>RequestTypes\<close>: a
    request stays typed on its way through the command line and the configuration.
  \<^item> \<open>Daemon\<close>: \<^verbatim>\<open>src/src/srund.cpp\<close>, whose child process goes on as a manager. \<open>DaemonProps\<close>: who accepts, who
    serves and who cleans up; whom any process of the daemon signals; what is left after an orderly
    stop; mounting. \<open>DaemonRuns\<close>: runs of the daemon evaluated in the kernel.
  \<^item> \<open>Session\<close>: a client and its manager together: the result of a command reaches the user of
    \<^verbatim>\<open>srunctl\<close>, a stop request reaches the registered processes, and the question whether the client
    is alive is answered.

  Where there are bounds. Loops need no fuel: a loop that does not end has no value. Termination is
  proved from \<open>child_bound\<close> and \<open>input_bound\<close>, with the number of processes still to come and of
  inputs still to come as measures; the manager's main loop and the daemon's have no end other than an
  abrupt one.

  What is not modelled, and why. Log lines leave no trace, except that one that reads
  \<^verbatim>\<open>request.args(0)\<close> needs the argument. The handler of SIGTERM writes one variable and runs, in the
  model, where the code reads that variable; a signal that interrupts a call shows as the answer
  \<^verbatim>\<open>EINTR\<close> of that call; one that kills the process, such as \<^verbatim>\<open>SIGPIPE\<close>, cuts its run short, and what the
  invariants say of a record they say of every earlier point of it. A run of a program follows one
  process, and what others do shows in the answers of the outside; only \<open>ManagerSystem\<close> puts several
  side by side, and leaves out waits for a lock that a signal interrupts. The wire format, the key-file
  syntax and the kernel are parameters. Memory exhaustion is not modelled. The service files, the sample
  configuration and the test programs have no operations.

  What is left. The daemon itself and the clients as further processes of the interleaving, with the
  sockets between them, and the heap: what \<^verbatim>\<open>~Config\<close> and the loops of \<^verbatim>\<open>glib\<close> values free.
\<close>

end
